(* ===== verification/Py_Prelude.thy ===== *)
theory Py_Prelude
  imports Main "HOL-Library.AList"
begin

text \<open>
  The shared prelude: what the components use of Python itself.

  \<^item> \<open>py_exn\<close>: the exceptions the sources raise or catch, with \<open>HTTPException\<close> carrying its
    status code and detail as FastAPI does.
  \<^item> \<open>('s, 'a) py\<close>: a computation that changes a state \<open>'s\<close> and either returns or raises. A
    raise keeps the state reached so far, as in Python. \<open>bnd\<close>, \<open>try_except\<close>, \<open>finally_do\<close>
    and \<open>for_each\<close> are sequencing, \<open>try/except\<close>, \<open>try/finally\<close> and \<open>for\<close>.
  \<^item> dictionaries are association lists without duplicate keys, in insertion order:
    \<^const>\<open>AList.update\<close> is \<open>d[k] = v\<close>, \<^const>\<open>map_of\<close> is \<open>d.get(k)\<close> and
    \<^const>\<open>AList.delete\<close> is \<open>d.pop(k, None)\<close>.
  \<^item> the locale \<open>step_rel\<close>: a reflexive and transitive relation between the state before and
    after a computation is kept by every combinator, so a frame or monotonicity property of an
    operation follows from the property of its primitive steps.
\<close>

named_theorems flod_defs \<open>definitions that proofs of a component unfold together\<close>
named_theorems step_intros \<open>relations between the state before and after a primitive step\<close>

section \<open>Exceptions and computations\<close>

datatype py_exn =
    KeyError
  | TypeError
  | ValueError
  | IndexError
  | AttributeError
  | OverflowError
  | ZeroDivisionError
  | OSError
  | PermissionError
  | SqlError
  | DefinitionError string
  | HTTPException int string

type_synonym 'a res = "py_exn + 'a"

type_synonym ('s, 'a) py = "'s \<Rightarrow> 'a res \<times> 's"

definition ret :: "'a \<Rightarrow> ('s, 'a) py" where
  "ret x s = (Inr x, s)"

definition raise_exn :: "py_exn \<Rightarrow> ('s, 'a) py" where
  "raise_exn e s = (Inl e, s)"

definition bnd :: "('s, 'a) py \<Rightarrow> ('a \<Rightarrow> ('s, 'b) py) \<Rightarrow> ('s, 'b) py" where
  "bnd m f s = (case m s of (Inl e, s') \<Rightarrow> (Inl e, s') | (Inr x, s') \<Rightarrow> f x s')"

definition lift_res :: "'a res \<Rightarrow> ('s, 'a) py" where
  "lift_res r s = (r, s)"

definition modify :: "('s \<Rightarrow> 's) \<Rightarrow> ('s, unit) py" where
  "modify f s = (Inr (), f s)"

definition gets :: "('s \<Rightarrow> 'a) \<Rightarrow> ('s, 'a) py" where
  "gets f s = (Inr (f s), s)"

definition try_except :: "('s, 'a) py \<Rightarrow> (py_exn \<Rightarrow> ('s, 'a) py) \<Rightarrow> ('s, 'a) py" where
  "try_except m h s = (case m s of (Inl e, s') \<Rightarrow> h e s' | (Inr x, s') \<Rightarrow> (Inr x, s'))"

text \<open>The cleanups of the sources never raise, so \<open>finally\<close> is a state change after the body.\<close>

definition finally_do :: "('s, 'a) py \<Rightarrow> ('s \<Rightarrow> 's) \<Rightarrow> ('s, 'a) py" where
  "finally_do m f s = (case m s of (r, s') \<Rightarrow> (r, f s'))"

primrec for_each :: "('a \<Rightarrow> ('s, unit) py) \<Rightarrow> 'a list \<Rightarrow> ('s, unit) py" where
  "for_each f [] = ret ()"
| "for_each f (x # xs) = bnd (f x) (\<lambda>_. for_each f xs)"

lemmas py_defs = ret_def raise_exn_def bnd_def lift_res_def modify_def gets_def try_except_def
  finally_do_def

lemma bnd_ret [simp]: "bnd (ret x) f = f x"
  by (rule ext) (simp add: py_defs)

lemma bnd_raise [simp]: "bnd (raise_exn e) f = raise_exn e"
  by (rule ext) (simp add: py_defs)

lemma bnd_assoc: "bnd (bnd m f) g = bnd m (\<lambda>x. bnd (f x) g)"
  by (rule ext) (simp add: py_defs split: sum.split prod.split)

lemma bnd_Inr [simp]: "m s = (Inr x, s') \<Longrightarrow> bnd m f s = f x s'"
  by (simp add: bnd_def)

lemma bnd_Inl [simp]: "m s = (Inl e, s') \<Longrightarrow> bnd m f s = (Inl e, s')"
  by (simp add: bnd_def)

lemma bnd_InrE:
  assumes "bnd m f s = (Inr y, s')"
  obtains x t where "m s = (Inr x, t)" "f x t = (Inr y, s')"
  using assms by (auto simp: bnd_def split: prod.splits sum.splits)

lemma ret_app [simp]: "ret x s = (Inr x, s)"
  by (simp add: ret_def)

lemma raise_exn_app [simp]: "raise_exn e s = (Inl e, s)"
  by (simp add: raise_exn_def)

lemma modify_app [simp]: "modify f s = (Inr (), f s)"
  by (simp add: modify_def)

lemma gets_app [simp]: "gets f s = (Inr (f s), s)"
  by (simp add: gets_def)

lemma lift_res_app [simp]: "lift_res r s = (r, s)"
  by (simp add: lift_res_def)

lemma if_app: "(if b then f else g) s = (if b then f s else g s)"
  by simp

lemma case_option_app: "(case z of None \<Rightarrow> m | Some x \<Rightarrow> f x) s = (case z of None \<Rightarrow> m s | Some x \<Rightarrow> f x s)"
  by (cases z) auto

lemma case_sum_app: "(case z of Inl x \<Rightarrow> m x | Inr x \<Rightarrow> f x) s = (case z of Inl x \<Rightarrow> m x s | Inr x \<Rightarrow> f x s)"
  by (cases z) auto

lemma case_prod_app: "(case p of (x, y) \<Rightarrow> f x y) s = (case p of (x, y) \<Rightarrow> f x y s)"
  by (cases p) auto

text \<open>Evaluation of a computation at a state.\<close>

lemmas py_eval = py_defs if_app case_option_app case_sum_app case_prod_app

lemma for_each_append: "for_each f (xs @ ys) = bnd (for_each f xs) (\<lambda>_. for_each f ys)"
  by (induction xs) (simp_all add: bnd_assoc)

section \<open>Relations between the state before and after\<close>

text \<open>
  \<open>steps R m\<close>: whatever \<open>m\<close> does, also when it raises, takes a state to a related one.
\<close>

definition steps :: "('s \<Rightarrow> 's \<Rightarrow> bool) \<Rightarrow> ('s, 'a) py \<Rightarrow> bool" where
  "steps R m \<longleftrightarrow> (\<forall>s. R s (snd (m s)))"

lemma stepsI: "(\<And>s. R s (snd (m s))) \<Longrightarrow> steps R m"
  by (simp add: steps_def)

lemma stepsD: "steps R m \<Longrightarrow> R s (snd (m s))"
  by (simp add: steps_def)

lemma stepsD2: "steps R m \<Longrightarrow> m s = (r, s') \<Longrightarrow> R s s'"
  by (drule stepsD [where s = s]) simp

lemma steps_mono: "steps R m \<Longrightarrow> (\<And>s s'. R s s' \<Longrightarrow> R' s s') \<Longrightarrow> steps R' m"
  by (simp add: steps_def)

locale step_rel =
  fixes R :: "'s \<Rightarrow> 's \<Rightarrow> bool"
  assumes refl: "R s s"
    and trans: "R s t \<Longrightarrow> R t u \<Longrightarrow> R s u"
begin

lemma ret: "steps R (ret x)"
  by (simp add: steps_def refl)

lemma raise_exn: "steps R (raise_exn e)"
  by (simp add: steps_def refl)

lemma lift_res: "steps R (lift_res r)"
  by (simp add: steps_def refl)

lemma gets: "steps R (gets f)"
  by (simp add: steps_def refl)

lemma modify: "(\<And>s. R s (f s)) \<Longrightarrow> steps R (modify f)"
  by (simp add: steps_def)

lemma bnd: "steps R m \<Longrightarrow> (\<And>x. steps R (f x)) \<Longrightarrow> steps R (bnd m f)"
  unfolding steps_def bnd_def
  by (auto split: sum.split prod.split) (metis snd_conv trans)+

lemma try_except: "steps R m \<Longrightarrow> (\<And>e. steps R (h e)) \<Longrightarrow> steps R (try_except m h)"
  unfolding steps_def try_except_def
  by (auto split: sum.split prod.split) (metis snd_conv trans)+

lemma finally_do: "steps R m \<Longrightarrow> (\<And>s. R s (f s)) \<Longrightarrow> steps R (finally_do m f)"
  unfolding steps_def finally_do_def
  by (auto split: prod.split) (metis snd_conv trans)

lemma for_each: "(\<And>x. x \<in> set xs \<Longrightarrow> steps R (f x)) \<Longrightarrow> steps R (for_each f xs)"
  by (induction xs) (auto intro!: ret bnd)

lemma if_then: "(b \<Longrightarrow> steps R m) \<Longrightarrow> (\<not> b \<Longrightarrow> steps R m') \<Longrightarrow> steps R (if b then m else m')"
  by simp

lemma case_opt: "steps R m \<Longrightarrow> (\<And>x. steps R (f x)) \<Longrightarrow> steps R (case z of None \<Rightarrow> m | Some x \<Rightarrow> f x)"
  by (cases z) auto

lemma case_pr: "(\<And>x y. steps R (f x y)) \<Longrightarrow> steps R (case p of (x, y) \<Rightarrow> f x y)"
  by (cases p) auto

lemmas rules = ret raise_exn lift_res gets modify bnd try_except finally_do if_then case_opt case_pr

end

section \<open>Dictionaries\<close>

lemma map_of_update [simp]: "map_of (AList.update k v d) = (map_of d)(k \<mapsto> v)"
  by (rule update_conv')

lemma map_of_delete [simp]: "map_of (AList.delete k d) = (map_of d)(k := None)"
  by (rule delete_conv')

lemma dict_keys_update: "fst ` set (AList.update k v d) = insert k (fst ` set d)"
  by (simp add: dom_update)

lemma dict_distinct_update [intro]: "distinct (map fst d) \<Longrightarrow> distinct (map fst (AList.update k v d))"
  by (rule distinct_update)

lemma dict_distinct_delete [intro]: "distinct (map fst d) \<Longrightarrow> distinct (map fst (AList.delete k d))"
  by (rule distinct_delete)

lemma set_update_subset: "set (AList.update k v d) \<subseteq> insert (k, v) (set d)"
  by (induction d) auto

lemma length_update_le: "length (AList.update k v d) \<le> Suc (length d)"
  by (induction d) auto

lemma length_delete_le: "length (AList.delete k d) \<le> length d"
  by (simp add: AList.delete_eq)

definition dict_get :: "('k \<times> 'v) list \<Rightarrow> 'k \<Rightarrow> 'v \<Rightarrow> 'v" where
  "dict_get d k v0 = (case map_of d k of None \<Rightarrow> v0 | Some v \<Rightarrow> v)"

lemma dict_get_update [simp]:
  "dict_get (AList.update k v d) k' v0 = (if k' = k then v else dict_get d k' v0)"
  by (simp add: dict_get_def)

section \<open>Decimal numerals\<close>

definition digit_char :: "nat \<Rightarrow> char" where
  "digit_char d = char_of (48 + d)"

fun show_nat :: "nat \<Rightarrow> string" where
  "show_nat n = (if n < 10 then [digit_char n] else show_nat (n div 10) @ [digit_char (n mod 10)])"

declare show_nat.simps [simp del]

definition show_int :: "int \<Rightarrow> string" where
  "show_int i = (if i < 0 then CHR ''-'' # show_nat (nat (- i)) else show_nat (nat i))"

definition digit_val :: "char \<Rightarrow> nat option" where
  "digit_val c = (let n = of_char c :: nat in if 48 \<le> n \<and> n \<le> 57 then Some (n - 48) else None)"

lemma digit_val_char [simp]: "d < 10 \<Longrightarrow> digit_val (digit_char d) = Some d"
  by (simp add: digit_val_def digit_char_def)

primrec read_digits :: "int \<Rightarrow> string \<Rightarrow> int option" where
  "read_digits acc [] = Some acc"
| "read_digits acc (c # cs) =
     (case digit_val c of None \<Rightarrow> None | Some d \<Rightarrow> read_digits (10 * acc + int d) cs)"

lemma read_digits_append:
  "read_digits acc (xs @ ys) = (case read_digits acc xs of None \<Rightarrow> None | Some n \<Rightarrow> read_digits n ys)"
  by (induction xs arbitrary: acc) (auto split: option.split)

lemma show_nat_not_Nil [simp]: "show_nat n \<noteq> []"
  by (subst show_nat.simps) simp

lemma read_show_nat: "read_digits 0 (show_nat n) = Some (int n)"
proof (induction n rule: show_nat.induct)
  case (1 n)
  show ?case
  proof (cases "n < 10")
    case True
    then show ?thesis by (simp add: show_nat.simps [of n])
  next
    case False
    then show ?thesis
      using "1.IH" by (simp add: show_nat.simps [of n] read_digits_append zdiv_int zmod_int)
  qed
qed

text \<open>The same digits from an integer, which is how they are computed.\<close>

function show_pos :: "int \<Rightarrow> string" where
  "show_pos i = (if i < 10 then [digit_char (nat i)] else show_pos (i div 10) @ [digit_char (nat (i mod 10))])"
  by pat_completeness auto
termination by (relation "measure nat") auto

declare show_pos.simps [simp del]

lemma show_pos_nat: "show_pos (int n) = show_nat n"
proof (induction n rule: show_nat.induct)
  case (1 n)
  have dm: "int n div 10 = int (n div 10)" "nat (int n mod 10) = n mod 10"
    by (simp_all add: zdiv_int nat_mod_distrib)
  show ?case
  proof (cases "n < 10")
    case True
    then show ?thesis by (simp add: show_nat.simps [of n] show_pos.simps [of "int n"])
  next
    case False
    with 1 show ?thesis
      by (simp only: show_nat.simps [of n] show_pos.simps [of "int n"] dm) simp
  qed
qed

lemma show_nat_code [code]: "show_nat n = show_pos (int n)"
  by (simp add: show_pos_nat)

lemma show_int_code [code]: "show_int i = (if i < 0 then CHR ''-'' # show_pos (- i) else show_pos i)"
  using show_pos_nat [of "nat i"] show_pos_nat [of "nat (- i)"] by (auto simp: show_int_def split: if_splits)

lemma show_nat_inj: "show_nat m = show_nat n \<Longrightarrow> m = n"
  by (metis of_nat_eq_iff option.inject read_show_nat)

lemma show_nat_digits: "c \<in> set (show_nat n) \<Longrightarrow> \<exists>d < 10. c = digit_char d"
proof (induction n rule: show_nat.induct)
  case (1 n)
  show ?case
  proof (cases "n < 10")
    case True
    with "1.prems" show ?thesis by (auto simp: show_nat.simps [of n])
  next
    case False
    then have "c \<in> set (show_nat (n div 10)) \<or> c = digit_char (n mod 10)"
      using "1.prems" by (auto simp: show_nat.simps [of n])
    moreover have "n mod 10 < 10" by simp
    ultimately show ?thesis using "1.IH" False by blast
  qed
qed

lemma show_nat_no_minus: "CHR ''-'' \<notin> set (show_nat n)"
proof
  assume "CHR ''-'' \<in> set (show_nat n)"
  then obtain d where "d < 10" and "CHR ''-'' = digit_char d" using show_nat_digits by blast
  then have "digit_val (CHR ''-'') = Some d" by simp
  then show False by (simp add: digit_val_def)
qed

lemma show_int_inj: "show_int i = show_int j \<Longrightarrow> i = j"
proof -
  assume eq: "show_int i = show_int j"
  have "hd (show_nat n) \<noteq> CHR ''-''" for n
    using show_nat_no_minus hd_in_set [OF show_nat_not_Nil] by metis
  with eq show "i = j"
    by (auto simp: show_int_def split: if_splits dest!: show_nat_inj) (metis list.sel(1))+
qed

section \<open>Strings\<close>

definition starts_with :: "string \<Rightarrow> string \<Rightarrow> bool" where
  "starts_with s p = (take (length p) s = p)"

definition ends_with :: "string \<Rightarrow> string \<Rightarrow> bool" where
  "ends_with s p = (length p \<le> length s \<and> drop (length s - length p) s = p)"

fun contains_str :: "string \<Rightarrow> string \<Rightarrow> bool" where
  "contains_str p [] = (p = [])"
| "contains_str p (c # cs) = (starts_with (c # cs) p \<or> contains_str p cs)"

text \<open>\<open>str.split()\<close>: the maximal runs of characters other than white space.\<close>

definition is_space :: "char \<Rightarrow> bool" where
  "is_space c = ((of_char c :: nat) \<in> {9, 10, 11, 12, 13, 28, 29, 30, 31, 32})"

primrec split_ws_aux :: "string \<Rightarrow> string \<Rightarrow> string list" where
  "split_ws_aux acc [] = (if acc = [] then [] else [rev acc])"
| "split_ws_aux acc (c # cs) =
     (if is_space c then (if acc = [] then split_ws_aux [] cs else rev acc # split_ws_aux [] cs)
      else split_ws_aux (c # acc) cs)"

definition split_ws :: "string \<Rightarrow> string list" where
  "split_ws s = split_ws_aux [] s"

text \<open>\<open>str.split(sep)\<close> for a separator of one character.\<close>

primrec split_on_aux :: "char \<Rightarrow> string \<Rightarrow> string \<Rightarrow> string list" where
  "split_on_aux sep acc [] = [rev acc]"
| "split_on_aux sep acc (c # cs) =
     (if c = sep then rev acc # split_on_aux sep [] cs else split_on_aux sep (c # acc) cs)"

definition split_on :: "char \<Rightarrow> string \<Rightarrow> string list" where
  "split_on sep s = split_on_aux sep [] s"

text \<open>\<open>str.splitlines()\<close>: a final line break does not start another line.\<close>

definition is_line_break :: "char \<Rightarrow> bool" where
  "is_line_break c = ((of_char c :: nat) \<in> {10, 11, 12, 13, 28, 29, 30})"

primrec splitlines_aux :: "string \<Rightarrow> string \<Rightarrow> bool \<Rightarrow> string list" where
  "splitlines_aux [] acc cr = (if acc = [] then [] else [rev acc])"
| "splitlines_aux (c # cs) acc cr =
     (if cr \<and> c = CHR 0x0A then splitlines_aux cs acc False
      else if is_line_break c then rev acc # splitlines_aux cs [] (c = CHR 0x0D)
      else splitlines_aux cs (c # acc) False)"

definition splitlines :: "string \<Rightarrow> string list" where
  "splitlines s = splitlines_aux s [] False"

definition strip :: "string \<Rightarrow> string" where
  "strip s = rev (dropWhile is_space (rev (dropWhile is_space s)))"

lemma split_on_aux_no_sep: "sep \<notin> set s \<Longrightarrow> split_on_aux sep acc s = [rev acc @ s]"
  by (induction s arbitrary: acc) auto

lemma split_on_aux_append:
  "sep \<notin> set s \<Longrightarrow> split_on_aux sep acc (s @ sep # rest) = (rev acc @ s) # split_on sep rest"
  by (induction s arbitrary: acc) (auto simp: split_on_def)

lemma split_on_append: "sep \<notin> set s \<Longrightarrow> split_on sep (s @ sep # rest) = s # split_on sep rest"
  by (simp add: split_on_def split_on_aux_append)

lemma split_on_no_sep: "sep \<notin> set s \<Longrightarrow> split_on sep s = [s]"
  by (simp add: split_on_def split_on_aux_no_sep)

lemma split_ws_aux_no_space:
  "(\<forall>c \<in> set s. \<not> is_space c) \<Longrightarrow> split_ws_aux acc s = (if rev acc @ s = [] then [] else [rev acc @ s])"
  by (induction s arbitrary: acc) auto

lemma split_ws_aux_append:
  "(\<forall>c \<in> set s. \<not> is_space c) \<Longrightarrow> rev acc @ s \<noteq> [] \<Longrightarrow> is_space c \<Longrightarrow>
   split_ws_aux acc (s @ c # rest) = (rev acc @ s) # split_ws rest"
  by (induction s arbitrary: acc) (auto simp: split_ws_def)

lemma split_ws_word:
  "(\<forall>c \<in> set s. \<not> is_space c) \<Longrightarrow> s \<noteq> [] \<Longrightarrow> split_ws s = [s]"
  by (simp add: split_ws_def split_ws_aux_no_space)

lemma split_ws_append:
  "(\<forall>c \<in> set s. \<not> is_space c) \<Longrightarrow> s \<noteq> [] \<Longrightarrow> is_space c \<Longrightarrow>
   split_ws (s @ c # rest) = s # split_ws rest"
  by (simp add: split_ws_def split_ws_aux_append)

text \<open>Pages of a fixed length, one after the other, are the beginning of the list.\<close>

lemma concat_pages: "concat (map (\<lambda>i. take l (drop (i * l) xs)) [0..<n]) = take (n * l) xs"
proof (induction n)
  case (Suc n)
  then show ?case using take_add [of "n * l" l xs] by (simp add: add.commute)
qed simp

end
