(* ===== verification/Py_Float.thy ===== *)
theory Py_Float
  imports Complex_Main "HOL-Library.Log_Nat" "HOL-Library.Multiset" Py_Prelude
begin

text \<open>
  Python's \<open>float\<close>: IEEE binary64 with rounding to nearest, ties to even.

  A value is a rational \<open>Fin r\<close>, an infinity or \<open>NaN\<close>; the two zeros are one value. \<open>fl_round\<close>
  rounds an exact rational to the format (53 bits of significand, exponents \<open>-1074\<close> to
  \<open>971\<close>, overflow to an infinity), and every arithmetic operation is the exact operation
  followed by \<open>fl_round\<close>. Comparisons with \<open>NaN\<close> are false. \<open>py_max\<close> is Python's two-argument
  \<open>max\<close>, which keeps its first argument unless the second is greater.

  The lemmas: values of the format are fixed points of the rounding (\<open>fl_round_exact\<close>), rounding
  is odd and monotone (\<open>fl_round_mono\<close>), so subtraction of timestamps is monotone
  (\<open>fsub_ge\<close>), and \<open>float()\<close> and fixed-point formatting are executable.
\<close>

datatype pyfloat = Fin rat | PInf | NInf | NaN

section \<open>Rounding\<close>

definition round_half_even :: "rat \<Rightarrow> int" where
  "round_half_even x =
     (let f = \<lfloor>x\<rfloor>; d = x - of_int f
      in if d < 1 / 2 then f else if 1 / 2 < d then f + 1 else if even f then f else f + 1)"

text \<open>\<open>pow2 k\<close> is two to an integer power; \<open>ilog2 x\<close> is the exponent of the leading bit of
  a positive rational, from the bit lengths of its numerator and denominator.\<close>

definition pow2 :: "int \<Rightarrow> rat" where
  "pow2 k = (if 0 \<le> k then 2 ^ nat k else 1 / 2 ^ nat (- k))"

definition ilog2 :: "rat \<Rightarrow> int" where
  "ilog2 x =
     (let (n, d) = quotient_of x;
          k = bitlen n - bitlen d
      in if pow2 k \<le> x then k else k - 1)"

definition fl_round :: "rat \<Rightarrow> pyfloat" where
  "fl_round x =
     (if x = 0 then Fin 0
      else let e = max (ilog2 \<bar>x\<bar> - 52) (- 1074);
               m = round_half_even (x / pow2 e)
           in if 971 < e \<or> e = 971 \<and> 2 ^ 53 \<le> \<bar>m\<bar> then (if 0 < x then PInf else NInf)
              else Fin (of_int m * pow2 e))"

section \<open>Arithmetic and comparison\<close>

fun fneg :: "pyfloat \<Rightarrow> pyfloat" where
  "fneg (Fin a) = Fin (- a)"
| "fneg PInf = NInf"
| "fneg NInf = PInf"
| "fneg NaN = NaN"

fun fadd :: "pyfloat \<Rightarrow> pyfloat \<Rightarrow> pyfloat" where
  "fadd (Fin a) (Fin b) = fl_round (a + b)"
| "fadd NaN _ = NaN"
| "fadd _ NaN = NaN"
| "fadd PInf NInf = NaN"
| "fadd NInf PInf = NaN"
| "fadd PInf _ = PInf"
| "fadd _ PInf = PInf"
| "fadd NInf _ = NInf"
| "fadd _ NInf = NInf"

definition fsub :: "pyfloat \<Rightarrow> pyfloat \<Rightarrow> pyfloat" where
  "fsub x y = fadd x (fneg y)"

definition inf_of_sign :: "bool \<Rightarrow> pyfloat" where
  "inf_of_sign pos = (if pos then PInf else NInf)"

fun fmul :: "pyfloat \<Rightarrow> pyfloat \<Rightarrow> pyfloat" where
  "fmul (Fin a) (Fin b) = fl_round (a * b)"
| "fmul NaN _ = NaN"
| "fmul _ NaN = NaN"
| "fmul (Fin a) PInf = (if a = 0 then NaN else inf_of_sign (0 < a))"
| "fmul (Fin a) NInf = (if a = 0 then NaN else inf_of_sign (a < 0))"
| "fmul PInf (Fin b) = (if b = 0 then NaN else inf_of_sign (0 < b))"
| "fmul NInf (Fin b) = (if b = 0 then NaN else inf_of_sign (b < 0))"
| "fmul PInf PInf = PInf"
| "fmul PInf NInf = NInf"
| "fmul NInf PInf = NInf"
| "fmul NInf NInf = PInf"

text \<open>Division raises \<open>ZeroDivisionError\<close> on a zero divisor, whatever the dividend.\<close>

fun fdiv :: "pyfloat \<Rightarrow> pyfloat \<Rightarrow> pyfloat res" where
  "fdiv x (Fin b) =
     (if b = 0 then Inl ZeroDivisionError
      else Inr (case x of Fin a \<Rightarrow> fl_round (a / b)
                | PInf \<Rightarrow> inf_of_sign (0 < b)
                | NInf \<Rightarrow> inf_of_sign (b < 0)
                | NaN \<Rightarrow> NaN))"
| "fdiv (Fin _) PInf = Inr (Fin 0)"
| "fdiv (Fin _) NInf = Inr (Fin 0)"
| "fdiv _ _ = Inr NaN"

fun flt :: "pyfloat \<Rightarrow> pyfloat \<Rightarrow> bool" where
  "flt NaN _ = False"
| "flt _ NaN = False"
| "flt (Fin a) (Fin b) = (a < b)"
| "flt NInf NInf = False"
| "flt NInf _ = True"
| "flt _ NInf = False"
| "flt PInf _ = False"
| "flt (Fin _) PInf = True"

fun feq :: "pyfloat \<Rightarrow> pyfloat \<Rightarrow> bool" where
  "feq NaN _ = False"
| "feq x y = (x = y)"

definition fle :: "pyfloat \<Rightarrow> pyfloat \<Rightarrow> bool" where
  "fle x y = (flt x y \<or> feq x y)"

definition py_max :: "pyfloat \<Rightarrow> pyfloat \<Rightarrow> pyfloat" where
  "py_max x y = (if flt x y then y else x)"

definition py_min :: "pyfloat \<Rightarrow> pyfloat \<Rightarrow> pyfloat" where
  "py_min x y = (if flt y x then y else x)"

fun is_finite :: "pyfloat \<Rightarrow> bool" where
  "is_finite (Fin _) = True"
| "is_finite _ = False"

text \<open>A decimal literal of the source is the double nearest to it.\<close>

abbreviation lit :: "rat \<Rightarrow> pyfloat" where
  "lit r \<equiv> fl_round r"

text \<open>\<open>int(x)\<close> truncates towards zero, and raises on \<open>NaN\<close> and the infinities.\<close>

fun py_int :: "pyfloat \<Rightarrow> int res" where
  "py_int (Fin a) = Inr (if a < 0 then - \<lfloor>- a\<rfloor> else \<lfloor>a\<rfloor>)"
| "py_int NaN = Inl ValueError"
| "py_int _ = Inl OverflowError"

section \<open>Formatting\<close>

text \<open>
  \<open>f"{x:.nf}"\<close>: the exact value is rounded half to even at the last printed digit and padded
  with zeros. A negative value keeps its sign when it rounds to zero.
\<close>

definition pad_zeros :: "nat \<Rightarrow> string \<Rightarrow> string" where
  "pad_zeros k s = replicate (k - length s) (CHR ''0'') @ s"

definition fmt_unsigned :: "nat \<Rightarrow> rat \<Rightarrow> string" where
  "fmt_unsigned n a =
     (let m = round_half_even (a * 10 ^ n)
      in show_int (m div 10 ^ n) @ (if n = 0 then [] else CHR ''.'' # pad_zeros n (show_int (m mod 10 ^ n))))"

fun fmt_fixed :: "nat \<Rightarrow> pyfloat \<Rightarrow> string" where
  "fmt_fixed n (Fin a) = (if a < 0 then CHR ''-'' # fmt_unsigned n (- a) else fmt_unsigned n a)"
| "fmt_fixed n PInf = ''inf''"
| "fmt_fixed n NInf = ''-inf''"
| "fmt_fixed n NaN = ''nan''"

text \<open>\<open>f"{x:+.nf}"\<close> and \<open>f"{x:.n%}"\<close>.\<close>

definition fmt_signed :: "nat \<Rightarrow> pyfloat \<Rightarrow> string" where
  "fmt_signed n x = (let s = fmt_fixed n x in if starts_with s ''-'' then s else CHR ''+'' # s)"

definition fmt_percent :: "nat \<Rightarrow> pyfloat \<Rightarrow> string" where
  "fmt_percent n x = fmt_fixed n (fmul x (Fin 100)) @ ''%''"

text \<open>
  \<open>repr(x)\<close>: the fewest significant digits that read back as \<open>x\<close>, the nearest such decimal;
  scientific notation below \<open>1e-4\<close> and from \<open>1e16\<close> on. \<open>ilog10 a\<close> is the decimal exponent of
  a positive rational, found from the binary one.
\<close>

definition pow10 :: "int \<Rightarrow> rat" where
  "pow10 k = (if 0 \<le> k then 10 ^ nat k else 1 / 10 ^ nat (- k))"

definition ilog10 :: "rat \<Rightarrow> int" where
  "ilog10 a =
     (let k = ilog2 a * 30103 div 100000
      in if a < pow10 k then k - 1 else if pow10 (k + 1) \<le> a then k + 1 else k)"

definition repr_candidates :: "rat \<Rightarrow> int \<Rightarrow> int list" where
  "repr_candidates a e = (let q = a / pow10 e; n = round_half_even q in if of_int n \<le> q then [n, n + 1] else [n, n - 1])"

fun repr_digits :: "nat \<Rightarrow> nat \<Rightarrow> rat \<Rightarrow> int \<Rightarrow> int \<times> int" where
  "repr_digits 0 k a x = (round_half_even (a / pow10 (x - 16)), x - 16)"
| "repr_digits (Suc f) k a x =
     (let e = x - int k
      in case filter (\<lambda>n. fl_round (of_int n * pow10 e) = Fin a) (repr_candidates a e) of
           [] \<Rightarrow> repr_digits f (Suc k) a x
         | n # _ \<Rightarrow> (n, e))"

definition repr_positive :: "rat \<Rightarrow> string" where
  "repr_positive a =
     (let (n, e) = repr_digits 17 0 a (ilog10 a);
          ds = show_int n;
          x = e + int (length ds) - 1
      in if x < - 4 \<or> 16 \<le> x
         then hd ds # (if tl ds = [] then [] else CHR ''.'' # tl ds)
              @ (if x < 0 then ''e-'' else ''e+'') @ pad_zeros 2 (show_nat (nat \<bar>x\<bar>))
         else if 0 \<le> e then ds @ replicate (nat e) (CHR ''0'') @ ''.0''
         else if 0 \<le> x then take (nat (x + 1)) ds @ CHR ''.'' # drop (nat (x + 1)) ds
         else ''0.'' @ replicate (nat (- x - 1)) (CHR ''0'') @ ds)"

fun float_repr :: "pyfloat \<Rightarrow> string" where
  "float_repr (Fin a) =
     (if a = 0 then ''0.0'' else if a < 0 then CHR ''-'' # repr_positive (- a) else repr_positive a)"
| "float_repr PInf = ''inf''"
| "float_repr NInf = ''-inf''"
| "float_repr NaN = ''nan''"

text \<open>\<open>f"{x:g}"\<close>: six significant digits, trailing zeros dropped, scientific notation below
  \<open>1e-4\<close> and from \<open>1e6\<close> on.\<close>

definition strip_zeros :: "string \<Rightarrow> string" where
  "strip_zeros s = rev (dropWhile (\<lambda>c. c = CHR ''0'') (rev s))"

definition dot_digits :: "string \<Rightarrow> string" where
  "dot_digits f = (if f = [] then [] else CHR ''.'' # f)"

definition fmt_g_positive :: "rat \<Rightarrow> string" where
  "fmt_g_positive a =
     (let x0 = ilog10 a;
          m0 = round_half_even (a / pow10 (x0 - 5));
          x = (if m0 = 10 ^ 6 then x0 + 1 else x0);
          ds = show_int (if m0 = 10 ^ 6 then 10 ^ 5 else m0)
      in if x < - 4 \<or> 6 \<le> x
         then hd ds # dot_digits (strip_zeros (tl ds))
              @ (if x < 0 then ''e-'' else ''e+'') @ pad_zeros 2 (show_int \<bar>x\<bar>)
         else if 0 \<le> x then take (nat (x + 1)) ds @ dot_digits (strip_zeros (drop (nat (x + 1)) ds))
         else ''0'' @ dot_digits (strip_zeros (replicate (nat (- x - 1)) (CHR ''0'') @ ds)))"

fun fmt_g :: "pyfloat \<Rightarrow> string" where
  "fmt_g (Fin a) =
     (if a = 0 then ''0'' else if a < 0 then CHR ''-'' # fmt_g_positive (- a) else fmt_g_positive a)"
| "fmt_g PInf = ''inf''"
| "fmt_g NInf = ''-inf''"
| "fmt_g NaN = ''nan''"

section \<open>Reading\<close>

text \<open>
  \<open>float(s)\<close> on a string: surrounding white space is dropped, then an optional sign and
  \<open>inf\<close>, \<open>infinity\<close>, \<open>nan\<close> in any case, or decimal digits (single underscores between
  digits allowed) with an optional fraction and exponent.
\<close>

definition to_lower :: "char \<Rightarrow> char" where
  "to_lower c = (let n = of_char c :: nat in if 65 \<le> n \<and> n \<le> 90 then char_of (n + 32) else c)"

definition is_digit :: "char \<Rightarrow> bool" where
  "is_digit c = (digit_val c \<noteq> None)"

text \<open>A digit part: digits with single underscores between two digits; the empty part has none.\<close>

fun digit_part :: "string \<Rightarrow> string option" where
  "digit_part [] = Some []"
| "digit_part [c] = (if is_digit c then Some [c] else None)"
| "digit_part (c # d # cs) =
     (if \<not> is_digit c then None
      else if d = CHR ''_'' then (if cs = [] then None else map_option (Cons c) (digit_part cs))
      else map_option (Cons c) (digit_part (d # cs)))"

definition split_sign :: "string \<Rightarrow> bool \<times> string" where
  "split_sign s = (case s of c # cs \<Rightarrow> if c = CHR ''-'' then (True, cs) else if c = CHR ''+'' then (False, cs) else (False, s)
                   | [] \<Rightarrow> (False, s))"

definition break_at :: "(char \<Rightarrow> bool) \<Rightarrow> string \<Rightarrow> string \<times> string option" where
  "break_at P s = (takeWhile (\<lambda>c. \<not> P c) s, case dropWhile (\<lambda>c. \<not> P c) s of [] \<Rightarrow> None | _ # r \<Rightarrow> Some r)"

definition read_exponent :: "string option \<Rightarrow> int option" where
  "read_exponent e =
     (case e of None \<Rightarrow> Some 0
      | Some s \<Rightarrow>
          (let (neg, ds) = split_sign s
           in if ds = [] then None
              else case digit_part ds of None \<Rightarrow> None
                   | Some d \<Rightarrow> map_option (\<lambda>n. if neg then - n else n) (read_digits 0 d)))"

definition read_decimal :: "string \<Rightarrow> rat option" where
  "read_decimal s =
     (let (mant, ex) = break_at (\<lambda>c. c = CHR ''e'') s;
          (ip, fp) = break_at (\<lambda>c. c = CHR ''.'') mant
      in case (digit_part ip, digit_part (case fp of None \<Rightarrow> [] | Some f \<Rightarrow> f), read_exponent ex) of
           (Some i, Some f, Some e) \<Rightarrow>
             (if i @ f = [] then None
              else map_option (\<lambda>n. of_int n * pow10 (e - int (length f))) (read_digits 0 (i @ f)))
         | _ \<Rightarrow> None)"

definition read_float :: "string \<Rightarrow> pyfloat res" where
  "read_float s =
     (let (neg, t) = split_sign (map to_lower (strip s));
          v = (if t \<in> {''inf'', ''infinity''} then Some PInf
               else if t = ''nan'' then Some NaN
               else map_option fl_round (read_decimal t))
      in case v of None \<Rightarrow> Inl ValueError | Some x \<Rightarrow> Inr (if neg then fneg x else x))"

text \<open>\<open>int(s)\<close> on a string.\<close>

definition read_int :: "string \<Rightarrow> int res" where
  "read_int s =
     (let (neg, ds) = split_sign (strip s)
      in if ds = [] then Inl ValueError
         else case digit_part ds of None \<Rightarrow> Inl ValueError
              | Some d \<Rightarrow> (case read_digits 0 d of None \<Rightarrow> Inl ValueError
                           | Some n \<Rightarrow> Inr (if neg then - n else n)))"

section \<open>Sorting\<close>

text \<open>
  \<open>sorted(xs, key=f)\<close> for float keys: stable, and decided by the order alone. On keys without
  \<open>NaN\<close> every stable sort gives this list.
\<close>

primrec insort :: "('a \<Rightarrow> pyfloat) \<Rightarrow> 'a \<Rightarrow> 'a list \<Rightarrow> 'a list" where
  "insort f x [] = [x]"
| "insort f x (y # ys) = (if flt (f y) (f x) then y # insort f x ys else x # y # ys)"

definition py_sorted :: "('a \<Rightarrow> pyfloat) \<Rightarrow> 'a list \<Rightarrow> 'a list" where
  "py_sorted f xs = foldr (insort f) xs []"

section \<open>Laws of rounding\<close>

lemma round_half_even_of_int [simp]: "round_half_even (of_int m) = m"
  by (simp add: round_half_even_def)

lemma round_half_even_bounds: "of_int (round_half_even x) \<le> x + 1 / 2" "x - 1 / 2 \<le> of_int (round_half_even x)"
proof -
  have "of_int \<lfloor>x\<rfloor> \<le> x" and "x < of_int \<lfloor>x\<rfloor> + 1" by linarith+
  then show "of_int (round_half_even x) \<le> x + 1 / 2" and "x - 1 / 2 \<le> of_int (round_half_even x)"
    unfolding round_half_even_def Let_def by (auto split: if_split) linarith+
qed

lemma round_half_even_mono: "x \<le> y \<Longrightarrow> round_half_even x \<le> round_half_even y"
proof -
  assume xy: "x \<le> y"
  then have fl: "\<lfloor>x\<rfloor> \<le> \<lfloor>y\<rfloor>" by (rule floor_mono)
  have rx: "round_half_even x \<le> \<lfloor>x\<rfloor> + 1" and ry: "\<lfloor>y\<rfloor> \<le> round_half_even y"
    by (simp_all add: round_half_even_def Let_def)
  show ?thesis
  proof (cases "\<lfloor>x\<rfloor> = \<lfloor>y\<rfloor>")
    case True
    with xy show ?thesis by (auto simp: round_half_even_def Let_def)
  next
    case False
    with fl rx ry show ?thesis by linarith
  qed
qed

lemma round_half_even_minus: "round_half_even (- x) = - round_half_even x"
proof (cases "x = of_int \<lfloor>x\<rfloor>")
  case True
  then show ?thesis by (metis of_int_minus round_half_even_of_int)
next
  case False
  have lo: "of_int \<lfloor>x\<rfloor> < x" using False of_int_floor_le [of x] by linarith
  have hi: "x < of_int \<lfloor>x\<rfloor> + 1" by linarith
  have f: "\<lfloor>- x\<rfloor> = - \<lfloor>x\<rfloor> - 1"
    using lo hi by (intro floor_unique) auto
  show ?thesis
    using lo hi by (auto simp: round_half_even_def Let_def f)
qed

lemma pow2_pos [simp]: "0 < pow2 k"
  by (simp add: pow2_def)

lemma pow2_nonzero [simp]: "pow2 k \<noteq> 0"
  using pow2_pos [of k] by (metis less_irrefl)

lemma pow2_add: "pow2 (a + b) = pow2 a * pow2 b"
proof -
  have pi: "pow2 k = power_int 2 k" for k
    by (simp add: pow2_def power_int_def power_one_over inverse_eq_divide)
  show ?thesis by (simp add: pi power_int_add)
qed

lemma pow2_nat [simp]: "pow2 (int n) = 2 ^ n"
  by (simp add: pow2_def)

lemma pow2_less: "a < b \<Longrightarrow> pow2 a < pow2 b"
proof -
  assume "a < b"
  then obtain n where b: "b = a + int (Suc n)" by (metis zless_iff_Suc_zadd)
  have "(1::rat) < 2 ^ Suc n" by (rule one_less_power) auto
  then show ?thesis by (simp add: b pow2_add del: of_nat_Suc power_Suc)
qed

lemma pow2_le: "a \<le> b \<Longrightarrow> pow2 a \<le> pow2 b"
  by (cases "a = b") (auto intro: less_imp_le [OF pow2_less])

lemma floorlog2_bounds: "0 < n \<Longrightarrow> 2 ^ (floorlog 2 n - 1) \<le> n \<and> n < 2 ^ floorlog 2 n \<and> 0 < floorlog 2 n"
  using Log_Nat.floorlog_bounds [of n 2] by (cases "floorlog 2 n") (auto simp: floorlog_eq_zero_iff)

lemma pow2_pred: "0 < k \<Longrightarrow> pow2 (int k - 1) = 2 ^ (k - 1)"
  using pow2_nat [of "k - 1"] by (simp add: of_nat_diff)

lemma ilog2_bounds:
  assumes "0 < x"
  shows "pow2 (ilog2 x) \<le> x" and "x < pow2 (ilog2 x + 1)"
proof -
  obtain n d where q: "quotient_of x = (n, d)" by fastforce
  have d: "0 < d" using quotient_of_denom_pos [OF q] .
  have x: "x = of_int n / of_int d" using quotient_of_div [OF q] .
  have n: "0 < n" using assms d unfolding x by (simp add: zero_less_divide_iff)
  define kn where "kn = floorlog 2 (nat n)"
  define kd where "kd = floorlog 2 (nat d)"
  have bn: "2 ^ (kn - 1) \<le> nat n" "nat n < 2 ^ kn" "0 < kn"
    using floorlog2_bounds [of "nat n"] n unfolding kn_def by auto
  have bd: "2 ^ (kd - 1) \<le> nat d" "nat d < 2 ^ kd" "0 < kd"
    using floorlog2_bounds [of "nat d"] d unfolding kd_def by auto
  have rn: "pow2 (int kn - 1) \<le> of_int n" "of_int n < pow2 (int kn)"
  proof -
    have "(of_nat (2 ^ (kn - 1)) :: rat) \<le> of_nat (nat n)" using bn(1) by (simp only: of_nat_le_iff)
    then show "pow2 (int kn - 1) \<le> of_int n" using n bn(3) by (simp add: pow2_pred)
    have "(of_nat (nat n) :: rat) < of_nat (2 ^ kn)" using bn(2) by (simp only: of_nat_less_iff)
    then show "of_int n < pow2 (int kn)" using n by simp
  qed
  have rd: "pow2 (int kd - 1) \<le> of_int d" "of_int d < pow2 (int kd)"
  proof -
    have "(of_nat (2 ^ (kd - 1)) :: rat) \<le> of_nat (nat d)" using bd(1) by (simp only: of_nat_le_iff)
    then show "pow2 (int kd - 1) \<le> of_int d" using d bd(3) by (simp add: pow2_pred)
    have "(of_nat (nat d) :: rat) < of_nat (2 ^ kd)" using bd(2) by (simp only: of_nat_less_iff)
    then show "of_int d < pow2 (int kd)" using d by simp
  qed
  define k where "k = int kn - int kd"
  have up: "x < pow2 (k + 1)"
  proof -
    have "of_int n < pow2 (k + 1) * pow2 (int kd - 1)"
      using rn(2) by (simp add: k_def flip: pow2_add)
    also have "\<dots> \<le> pow2 (k + 1) * of_int d"
      using rd(1) by (intro mult_left_mono) (auto intro: less_imp_le)
    finally show ?thesis using d by (simp add: x divide_less_eq)
  qed
  have low: "pow2 (k - 1) \<le> x"
  proof -
    have "pow2 (k - 1) * of_int d \<le> pow2 (k - 1) * pow2 (int kd)"
      using rd(2) by (intro mult_left_mono) (auto intro: less_imp_le)
    also have "\<dots> \<le> of_int n"
      using rn(1) by (simp add: k_def del: pow2_nat flip: pow2_add)
    finally show ?thesis using d by (simp add: x le_divide_eq)
  qed
  have il: "ilog2 x = (if pow2 k \<le> x then k else k - 1)"
    by (simp add: ilog2_def q Let_def k_def kn_def kd_def bitlen_def)
  show "pow2 (ilog2 x) \<le> x" using low by (simp add: il)
  show "x < pow2 (ilog2 x + 1)" using up by (auto simp: il)
qed

lemma ilog2_unique:
  assumes "pow2 k \<le> x" and "x < pow2 (k + 1)"
  shows "ilog2 x = k"
proof -
  have pos: "0 < x" using assms(1) pow2_pos [of k] by linarith
  note b = ilog2_bounds [OF pos]
  have "\<not> ilog2 x + 1 \<le> k" using pow2_le [of "ilog2 x + 1" k] b(2) assms(1) by linarith
  moreover have "\<not> k + 1 \<le> ilog2 x" using pow2_le [of "k + 1" "ilog2 x"] b(1) assms(2) by linarith
  ultimately show ?thesis by linarith
qed

lemma ilog2_mono: "0 < x \<Longrightarrow> x \<le> y \<Longrightarrow> ilog2 x \<le> ilog2 y"
proof (rule ccontr)
  assume x: "0 < x" and xy: "x \<le> y" and "\<not> ilog2 x \<le> ilog2 y"
  then have "ilog2 y + 1 \<le> ilog2 x" by linarith
  then have "pow2 (ilog2 y + 1) \<le> pow2 (ilog2 x)" by (rule pow2_le)
  then show False using ilog2_bounds(1) [OF x] ilog2_bounds(2) [of y] x xy by linarith
qed


text \<open>The exponent \<open>fl_round\<close> works at, and what it returns there.\<close>

definition fl_exp :: "rat \<Rightarrow> int" where
  "fl_exp x = max (ilog2 \<bar>x\<bar> - 52) (- 1074)"

lemma fl_round_alt:
  "x \<noteq> 0 \<Longrightarrow> fl_round x =
     (let e = fl_exp x; m = round_half_even (x / pow2 e)
      in if 971 < e \<or> e = 971 \<and> 2 ^ 53 \<le> \<bar>m\<bar> then (if 0 < x then PInf else NInf)
         else Fin (of_int m * pow2 e))"
  by (simp add: fl_round_def fl_exp_def Let_def)

lemma fl_round_0 [simp]: "fl_round 0 = Fin 0"
  by (simp add: fl_round_def)

lemma fl_round_minus: "fl_round (- x) = fneg (fl_round x)"
  by (cases "x = 0") (auto simp: fl_round_def Let_def round_half_even_minus)

lemma int_abs_less_pow2: "\<bar>m\<bar> < 2 ^ n \<Longrightarrow> \<bar>of_int m\<bar> < pow2 (int n)"
  using of_int_less_iff [of "\<bar>m\<bar>" "2 ^ n", where 'a = rat] by simp

lemma fl_round_exact:
  assumes m: "\<bar>m\<bar> < 2 ^ 53" and e: "- 1074 \<le> e" "e \<le> 971"
  shows "fl_round (of_int m * pow2 e) = Fin (of_int m * pow2 e)"
proof (cases "m = 0")
  case False
  define x where "x = of_int m * pow2 e"
  define f where "f = fl_exp x"
  have x0: "x \<noteq> 0" using False by (simp add: x_def)
  have "\<bar>x\<bar> < pow2 (e + 53)"
    using int_abs_less_pow2 [OF m] pow2_pos [of e]
    by (simp add: x_def abs_mult pow2_add mult.commute abs_of_pos del: pow2_nat)
  moreover have "pow2 (ilog2 \<bar>x\<bar>) \<le> \<bar>x\<bar>" using x0 by (intro ilog2_bounds) simp
  ultimately have "ilog2 \<bar>x\<bar> < e + 53" using pow2_le [of "e + 53" "ilog2 \<bar>x\<bar>"] by force
  then have fe: "f \<le> e" using e by (simp add: f_def fl_exp_def)
  define k where "k = nat (e - f)"
  have ek: "e = f + int k" using fe by (simp add: k_def)
  have xf: "x = of_int (m * 2 ^ k) * pow2 f" by (simp add: x_def ek pow2_add)
  then have r: "round_half_even (x / pow2 f) = m * 2 ^ k"
    by (metis nonzero_mult_div_cancel_right pow2_nonzero round_half_even_of_int)
  have big: "\<not> (971 < f \<or> f = 971 \<and> 2 ^ 53 \<le> \<bar>m * 2 ^ k\<bar>)"
    using fe e m ek by auto
  have "fl_round x = Fin (of_int (m * 2 ^ k) * pow2 f)"
    using x0 big by (simp add: fl_round_alt Let_def r flip: f_def)
  then show ?thesis by (simp add: xf flip: x_def)
qed simp

lemma fl_round_of_int: "\<bar>m\<bar> < 2 ^ 53 \<Longrightarrow> fl_round (of_int m) = Fin (of_int m)"
  using fl_round_exact [of m 0] by (simp add: pow2_def)

lemma fl_round_of_nat: "n < 2 ^ 53 \<Longrightarrow> fl_round (of_nat n) = Fin (of_nat n)"
  using fl_round_of_int [of "int n"] by simp

lemma fl_round_numeral [simp]:
  "(numeral n :: int) < 2 ^ 53 \<Longrightarrow> fl_round (numeral n) = Fin (numeral n)"
  using fl_round_of_int [of "numeral n"] by simp

lemma fl_round_1 [simp]: "fl_round 1 = Fin 1"
  using fl_round_of_int [of 1] by simp

lemma fl_round_neg_numeral [simp]:
  "(numeral n :: int) < 2 ^ 53 \<Longrightarrow> fl_round (- numeral n) = Fin (- numeral n)"
  using fl_round_of_int [of "- numeral n"] by simp

subsection \<open>Monotonicity\<close>

lemma flt_irrefl [simp]: "\<not> flt x x"
  by (cases x) auto

lemma feq_refl [simp]: "x \<noteq> NaN \<Longrightarrow> feq x x"
  by (cases x) auto

lemma fle_refl [simp]: "x \<noteq> NaN \<Longrightarrow> fle x x"
  by (simp add: fle_def)

lemma fle_Fin [simp]: "fle (Fin a) (Fin b) \<longleftrightarrow> a \<le> b"
  by (auto simp: fle_def)

lemma fle_PInf [simp]: "fle x PInf \<longleftrightarrow> x \<noteq> NaN"
  by (cases x) (auto simp: fle_def)

lemma fle_NInf [simp]: "fle NInf x \<longleftrightarrow> x \<noteq> NaN"
  by (cases x) (auto simp: fle_def)

lemma fle_not_flt: "fle x y \<Longrightarrow> \<not> flt y x"
  by (cases x; cases y) (auto simp: fle_def)

lemma flt_imp_fle: "flt x y \<Longrightarrow> fle x y"
  by (simp add: fle_def)

lemma not_flt_iff_fle: "x \<noteq> NaN \<Longrightarrow> y \<noteq> NaN \<Longrightarrow> \<not> flt x y \<longleftrightarrow> fle y x"
  by (cases x; cases y) (auto simp: fle_def)

lemma fle_trans: "fle x y \<Longrightarrow> fle y z \<Longrightarrow> fle x z"
  by (cases x; cases y; cases z) (auto simp: fle_def)

lemma flt_fle_trans: "flt x y \<Longrightarrow> fle y z \<Longrightarrow> flt x z"
  by (cases x; cases y; cases z) (auto simp: fle_def)

lemma fle_flt_trans: "fle x y \<Longrightarrow> flt y z \<Longrightarrow> flt x z"
  by (cases x; cases y; cases z) (auto simp: fle_def)

lemma fle_fneg: "fle (fneg x) (fneg y) \<longleftrightarrow> fle y x"
  by (cases x; cases y) (auto simp: fle_def)

lemma fneg_fneg [simp]: "fneg (fneg x) = x"
  by (cases x) auto

lemma fl_round_not_NaN [simp]: "fl_round x \<noteq> NaN"
  by (simp add: fl_round_def Let_def)

lemma fl_exp_mono: "0 < x \<Longrightarrow> x \<le> y \<Longrightarrow> fl_exp x \<le> fl_exp y"
  using ilog2_mono [of x y] by (auto simp: fl_exp_def)

lemma round_scaled_le: "0 < x \<Longrightarrow> round_half_even (x / pow2 (fl_exp x)) \<le> 2 ^ 53"
proof -
  assume x: "0 < x"
  have "x < pow2 (ilog2 x + 1)" by (rule ilog2_bounds [OF x])
  also have "\<dots> \<le> pow2 (fl_exp x + 53)" using x by (intro pow2_le) (simp add: fl_exp_def)
  finally have "x / pow2 (fl_exp x) \<le> of_int (2 ^ 53)"
    by (simp add: pow2_add divide_le_eq mult.commute pow2_def [of 53])
  then have "round_half_even (x / pow2 (fl_exp x)) \<le> round_half_even (of_int (2 ^ 53))"
    by (rule round_half_even_mono)
  then show ?thesis by (simp only: round_half_even_of_int)
qed

lemma round_scaled_ge: "0 < y \<Longrightarrow> - 1074 < fl_exp y \<Longrightarrow> 2 ^ 52 \<le> round_half_even (y / pow2 (fl_exp y))"
proof -
  assume y: "0 < y" and e: "- 1074 < fl_exp y"
  have "pow2 (fl_exp y + 52) \<le> pow2 (ilog2 y)" using y e by (simp add: fl_exp_def)
  also have "\<dots> \<le> y" by (rule ilog2_bounds [OF y])
  finally have "of_int (2 ^ 52) \<le> y / pow2 (fl_exp y)"
    by (simp add: pow2_add le_divide_eq mult.commute pow2_def [of 52])
  then have "round_half_even (of_int (2 ^ 52)) \<le> round_half_even (y / pow2 (fl_exp y))"
    by (rule round_half_even_mono)
  then show ?thesis by (simp only: round_half_even_of_int)
qed

lemma round_scaled_nonneg: "0 < x \<Longrightarrow> 0 \<le> round_half_even (x / pow2 e)"
  using round_half_even_mono [of 0 "x / pow2 e"] round_half_even_of_int [of 0] pow2_pos [of e]
  by (simp add: divide_nonneg_pos)

lemma fl_value_mono:
  assumes x: "0 < x" and xy: "x \<le> y"
  shows "of_int (round_half_even (x / pow2 (fl_exp x))) * pow2 (fl_exp x)
       \<le> of_int (round_half_even (y / pow2 (fl_exp y))) * pow2 (fl_exp y)"
proof (cases "fl_exp x = fl_exp y")
  case True
  have "round_half_even (x / pow2 (fl_exp y)) \<le> round_half_even (y / pow2 (fl_exp y))"
    using xy by (intro round_half_even_mono divide_right_mono) (auto intro: less_imp_le)
  then show ?thesis by (simp add: True)
next
  case False
  then have lt: "fl_exp x + 1 \<le> fl_exp y" using fl_exp_mono [OF x xy] by linarith
  have "- 1074 < fl_exp y" using lt by (simp add: fl_exp_def)
  then have ge: "2 ^ 52 \<le> round_half_even (y / pow2 (fl_exp y))" using x xy by (intro round_scaled_ge) auto
  have "of_int (round_half_even (x / pow2 (fl_exp x))) * pow2 (fl_exp x) \<le> of_int (2 ^ 53) * pow2 (fl_exp x)"
    using round_scaled_le [OF x] by (intro mult_right_mono) (simp_all only: of_int_le_iff pow2_pos less_imp_le)
  also have "\<dots> = of_int (2 ^ 52) * pow2 (fl_exp x + 1)" by (simp add: pow2_add pow2_def [of 1])
  also have "\<dots> \<le> of_int (2 ^ 52) * pow2 (fl_exp y)" using pow2_le [OF lt] by simp
  also have "\<dots> \<le> of_int (round_half_even (y / pow2 (fl_exp y))) * pow2 (fl_exp y)"
    using ge by (intro mult_right_mono) (simp_all only: of_int_le_iff pow2_pos less_imp_le)
  finally show ?thesis .
qed

lemma fl_round_mono_pos:
  assumes x: "0 < x" and xy: "x \<le> y"
  shows "fle (fl_round x) (fl_round y)"
proof -
  have y: "0 < y" using x xy by linarith
  define mx where "mx = round_half_even (x / pow2 (fl_exp x))"
  define my where "my = round_half_even (y / pow2 (fl_exp y))"
  have rx: "fl_round x = (if 971 < fl_exp x \<or> fl_exp x = 971 \<and> 2 ^ 53 \<le> \<bar>mx\<bar> then PInf
      else Fin (of_int mx * pow2 (fl_exp x)))"
    using x unfolding mx_def by (simp only: fl_round_alt Let_def less_imp_neq [symmetric] if_True not_False_eq_True simp_thms)
  have ry: "fl_round y = (if 971 < fl_exp y \<or> fl_exp y = 971 \<and> 2 ^ 53 \<le> \<bar>my\<bar> then PInf
      else Fin (of_int my * pow2 (fl_exp y)))"
    using y unfolding my_def by (simp only: fl_round_alt Let_def less_imp_neq [symmetric] if_True not_False_eq_True simp_thms)
  have val: "of_int mx * pow2 (fl_exp x) \<le> of_int my * pow2 (fl_exp y)"
    using fl_value_mono [OF x xy] by (simp add: mx_def my_def)
  have "fl_exp x = fl_exp y \<Longrightarrow> \<bar>mx\<bar> \<le> \<bar>my\<bar>"
    using val round_scaled_nonneg [OF x] by (auto simp: mx_def)
  then show ?thesis
    using val fl_exp_mono [OF x xy] by (auto simp: rx ry)
qed

lemma fl_round_nonneg: "0 \<le> x \<Longrightarrow> fle (Fin 0) (fl_round x)"
proof (cases "x = 0")
  case False
  moreover assume "0 \<le> x"
  ultimately have "0 < x" by simp
  then show ?thesis
    using round_scaled_nonneg [of x "fl_exp x"] by (simp add: fl_round_alt Let_def less_imp_le)
qed simp

lemma fl_round_nonpos: "x \<le> 0 \<Longrightarrow> fle (fl_round x) (Fin 0)"
  using fl_round_nonneg [of "- x"] fle_fneg [of "Fin 0" "fl_round x"] by (simp add: fl_round_minus)

lemma fl_round_mono: "x \<le> y \<Longrightarrow> fle (fl_round x) (fl_round y)"
proof -
  assume xy: "x \<le> y"
  consider "0 < x" | "x \<le> 0" "0 \<le> y" | "y < 0" using xy by linarith
  then show ?thesis
  proof cases
    case 1
    then show ?thesis using xy by (rule fl_round_mono_pos)
  next
    case 2
    then show ?thesis by (blast intro: fle_trans fl_round_nonpos fl_round_nonneg)
  next
    case 3
    then have "fle (fl_round (- y)) (fl_round (- x))" using xy by (intro fl_round_mono_pos) auto
    then show ?thesis by (simp add: fl_round_minus fle_fneg)
  qed
qed

lemma fsub_Fin: "fsub (Fin a) (Fin b) = fl_round (a - b)"
  by (simp add: fsub_def)

lemma fsub_ge: "a + c \<le> b \<Longrightarrow> fl_round c = Fin c \<Longrightarrow> \<not> flt (fsub (Fin b) (Fin a)) (Fin c)"
  using fl_round_mono [of c "b - a"] by (intro fle_not_flt) (simp add: fsub_Fin)

lemma fsub_self: "fsub (Fin a) (Fin a) = Fin 0"
  by (simp add: fsub_Fin)

section \<open>Laws of sorting\<close>

lemma set_insort: "set (insort f x ys) = insert x (set ys)"
  by (induction ys) auto

lemma length_insort: "length (insort f x ys) = Suc (length ys)"
  by (induction ys) auto

lemma mset_insort: "mset (insort f x ys) = add_mset x (mset ys)"
  by (induction ys) auto

lemma mset_py_sorted [simp]: "mset (py_sorted f xs) = mset xs"
  by (induction xs) (auto simp: py_sorted_def mset_insort)

lemma set_py_sorted [simp]: "set (py_sorted f xs) = set xs"
  by (metis mset_py_sorted set_mset_mset)

lemma length_py_sorted [simp]: "length (py_sorted f xs) = length xs"
  by (metis mset_py_sorted size_mset)

text \<open>Sortedness: no later key is below an earlier one.\<close>

definition key_sorted :: "('a \<Rightarrow> pyfloat) \<Rightarrow> 'a list \<Rightarrow> bool" where
  "key_sorted f xs = sorted_wrt (\<lambda>x y. fle (f x) (f y)) xs"

lemma key_sorted_insort:
  assumes "key_sorted f ys" and "\<forall>y \<in> insert x (set ys). f y \<noteq> NaN"
  shows "key_sorted f (insort f x ys)"
  using assms
proof (induction ys)
  case Nil
  then show ?case by (simp add: key_sorted_def)
next
  case (Cons y ys)
  show ?case
  proof (cases "flt (f y) (f x)")
    case True
    then show ?thesis using Cons by (auto simp: key_sorted_def set_insort intro: flt_imp_fle)
  next
    case False
    then have "fle (f x) (f y)" using Cons.prems by (simp add: not_flt_iff_fle)
    then show ?thesis using False Cons.prems by (auto simp: key_sorted_def intro: fle_trans)
  qed
qed

lemma key_sorted_py_sorted: "\<forall>x \<in> set xs. f x \<noteq> NaN \<Longrightarrow> key_sorted f (py_sorted f xs)"
proof (induction xs)
  case Nil
  then show ?case by (simp add: py_sorted_def key_sorted_def)
next
  case (Cons x xs)
  then have "key_sorted f (insort f x (py_sorted f xs))" by (intro key_sorted_insort) auto
  then show ?case by (simp add: py_sorted_def)
qed

section \<open>Numerals read back\<close>

lemma strip_id: "s \<noteq> [] \<Longrightarrow> \<not> is_space (hd s) \<Longrightarrow> \<not> is_space (last s) \<Longrightarrow> strip s = s"
proof -
  assume s: "s \<noteq> []" "\<not> is_space (hd s)" "\<not> is_space (last s)"
  have "dropWhile is_space s = s" using s by (cases s) auto
  moreover have "dropWhile is_space (rev s) = rev s" using s by (cases s rule: rev_cases) auto
  ultimately show ?thesis by (simp add: strip_def)
qed

definition number_marks :: "char set" where
  "number_marks = {CHR ''_'', CHR ''-'', CHR ''+'', CHR ''.'', CHR ''e''}"

lemma digit_char_props:
  assumes "d < 10"
  shows "\<not> is_space (digit_char d)" "is_digit (digit_char d)" "digit_char d \<notin> number_marks"
proof -
  have v: "digit_val (digit_char d) = Some d" using assms by simp
  have none: "digit_val c = None" if "c \<in> number_marks" for c
    using that unfolding number_marks_def by (elim insertE emptyE) (simp_all add: digit_val_def)
  show "digit_char d \<notin> number_marks" using v none [of "digit_char d"] by (cases "digit_char d \<in> number_marks") simp_all
  show "is_digit (digit_char d)" using v by (simp add: is_digit_def)
  have "(of_char (digit_char d) :: nat) = 48 + d" using assms by (simp add: digit_char_def)
  then have "32 < (of_char (digit_char d) :: nat)" by simp
  then show "\<not> is_space (digit_char d)" by (auto simp: is_space_def)
qed

lemma show_nat_chars:
  assumes "c \<in> set (show_nat n)"
  shows "\<not> is_space c" "is_digit c" "c \<notin> number_marks"
proof -
  obtain d where "d < 10" "c = digit_char d" using show_nat_digits [OF assms] by blast
  then show "\<not> is_space c" "is_digit c" "c \<notin> number_marks" using digit_char_props by simp_all
qed

lemma digit_part_digits: "\<forall>c \<in> set s. is_digit c \<and> c \<noteq> CHR ''_'' \<Longrightarrow> digit_part s = Some s"
  by (induction s rule: digit_part.induct) auto

lemma strip_show_nat: "strip (show_nat n) = show_nat n"
  using show_nat_chars(1) hd_in_set [OF show_nat_not_Nil] last_in_set [OF show_nat_not_Nil] by (intro strip_id show_nat_not_Nil) blast+

lemma read_int_show_nat: "read_int (show_nat n) = Inr (int n)"
proof -
  obtain c cs where c: "show_nat n = c # cs" by (cases "show_nat n") auto
  then have "c \<noteq> CHR ''-''" "c \<noteq> CHR ''+''" using show_nat_chars(3) [of c n] by (auto simp: number_marks_def)
  then have "split_sign (show_nat n) = (False, show_nat n)" by (simp add: split_sign_def c)
  moreover have "digit_part (show_nat n) = Some (show_nat n)"
    using show_nat_chars by (intro digit_part_digits) (auto simp: number_marks_def)
  ultimately show ?thesis by (simp add: read_int_def strip_show_nat read_show_nat)
qed

end
