(* ===== verification/Py_Json.thy ===== *)
theory Py_Json
  imports Py_Float
begin

text \<open>
  Dynamic values: what \<open>json.load\<close> returns, and the operators the sources apply to such values
  without knowing their type.

  A JSON document is represented by the value its text denotes, so \<open>json.load\<close> after
  \<open>json.dump\<close> is the identity; objects are dictionaries in insertion order with distinct keys.
  Every operator that Python refuses on a value of the wrong type returns that exception here:
  \<open>in\<close> (\<open>py_in\<close>), \<open>.get\<close> (\<open>obj_get\<close>), subscription (\<open>subscript\<close>), iteration (\<open>iter_list\<close>),
  comparison with a number (\<open>need_num\<close>), arithmetic with a float (\<open>to_float\<close>), \<open>float()\<close> and
  \<open>{**a, **b}\<close> (\<open>dict_merge\<close>). As dictionary keys two values are the same when they are equal
  terms, and lists and objects are unhashable.
\<close>

datatype json =
    JNull
  | JBool bool
  | JInt int
  | JFloat pyfloat
  | JStr string
  | JArr "json list"
  | JObj "(string \<times> json) list"

fun py_truthy :: "json \<Rightarrow> bool" where
  "py_truthy JNull = False"
| "py_truthy (JBool b) = b"
| "py_truthy (JInt i) = (i \<noteq> 0)"
| "py_truthy (JFloat x) = (x \<noteq> Fin 0)"
| "py_truthy (JStr s) = (s \<noteq> [])"
| "py_truthy (JArr xs) = (xs \<noteq> [])"
| "py_truthy (JObj d) = (d \<noteq> [])"

fun hashable :: "json \<Rightarrow> bool" where
  "hashable (JArr _) = False"
| "hashable (JObj _) = False"
| "hashable _ = True"

text \<open>The exact value of a number; a Boolean is an integer.\<close>

fun num_exact :: "json \<Rightarrow> pyfloat option" where
  "num_exact (JBool b) = Some (Fin (if b then 1 else 0))"
| "num_exact (JInt i) = Some (Fin (of_int i))"
| "num_exact (JFloat x) = Some x"
| "num_exact _ = None"

text \<open>The operand of a comparison with a number, which Python compares by exact value.\<close>

definition need_num :: "json \<Rightarrow> pyfloat res" where
  "need_num j = (case num_exact j of None \<Rightarrow> Inl TypeError | Some x \<Rightarrow> Inr x)"

text \<open>The operand of an arithmetic operation with a float: an integer is converted first, which
  fails beyond the range of the format.\<close>

fun to_float :: "json \<Rightarrow> pyfloat res" where
  "to_float (JBool b) = Inr (Fin (if b then 1 else 0))"
| "to_float (JInt i) = (let x = fl_round (of_int i) in if is_finite x then Inr x else Inl OverflowError)"
| "to_float (JFloat x) = Inr x"
| "to_float _ = Inl TypeError"

text \<open>\<open>float(x)\<close> also reads strings.\<close>

fun py_float :: "json \<Rightarrow> pyfloat res" where
  "py_float (JStr s) = read_float s"
| "py_float j = to_float j"

text \<open>\<open>==\<close>: numbers by value, lists in order, dictionaries as mappings.\<close>

fun py_eq :: "json \<Rightarrow> json \<Rightarrow> bool"
  and py_eq_list :: "json list \<Rightarrow> json list \<Rightarrow> bool"
  and py_eq_obj :: "(string \<times> json) list \<Rightarrow> (string \<times> json) list \<Rightarrow> bool" where
  "py_eq JNull y = (y = JNull)"
| "py_eq (JBool b) y = (case num_exact y of None \<Rightarrow> False | Some v \<Rightarrow> feq (Fin (if b then 1 else 0)) v)"
| "py_eq (JInt i) y = (case num_exact y of None \<Rightarrow> False | Some v \<Rightarrow> feq (Fin (of_int i)) v)"
| "py_eq (JFloat x) y = (case num_exact y of None \<Rightarrow> False | Some v \<Rightarrow> feq x v)"
| "py_eq (JStr s) y = (y = JStr s)"
| "py_eq (JArr xs) y = (case y of JArr ys \<Rightarrow> py_eq_list xs ys | _ \<Rightarrow> False)"
| "py_eq (JObj d) y = (case y of JObj d' \<Rightarrow> length d = length d' \<and> py_eq_obj d d' | _ \<Rightarrow> False)"
| "py_eq_list [] ys = (ys = [])"
| "py_eq_list (x # xs) ys = (case ys of [] \<Rightarrow> False | y # ys' \<Rightarrow> py_eq x y \<and> py_eq_list xs ys')"
| "py_eq_obj [] d' = True"
| "py_eq_obj ((k, v) # d) d' =
     ((case map_of d' k of None \<Rightarrow> False | Some w \<Rightarrow> py_eq v w) \<and> py_eq_obj d d')"

text \<open>\<open>x in c\<close> for a list, a dictionary (its keys) or a string (substrings).\<close>

fun py_in :: "json \<Rightarrow> json \<Rightarrow> bool res" where
  "py_in x (JArr ys) = Inr (list_ex (py_eq x) ys)"
| "py_in x (JObj d) = (if hashable x then Inr (list_ex (\<lambda>(k, _). x = JStr k) d) else Inl TypeError)"
| "py_in x (JStr s) = (case x of JStr p \<Rightarrow> Inr (contains_str p s) | _ \<Rightarrow> Inl TypeError)"
| "py_in x _ = Inl TypeError"

text \<open>\<open>o.get(k, default)\<close>, \<open>o[k]\<close>, and iteration.\<close>

fun obj_get :: "json \<Rightarrow> string \<Rightarrow> json \<Rightarrow> json res" where
  "obj_get (JObj d) k v0 = Inr (dict_get d k v0)"
| "obj_get _ k v0 = Inl AttributeError"

fun subscript :: "json \<Rightarrow> string \<Rightarrow> json res" where
  "subscript (JObj d) k = (case map_of d k of None \<Rightarrow> Inl KeyError | Some v \<Rightarrow> Inr v)"
| "subscript _ k = Inl TypeError"

fun iter_list :: "json \<Rightarrow> json list res" where
  "iter_list (JArr xs) = Inr xs"
| "iter_list (JObj d) = Inr (map (JStr \<circ> fst) d)"
| "iter_list (JStr s) = Inr (map (\<lambda>c. JStr [c]) s)"
| "iter_list _ = Inl TypeError"

text \<open>\<open>{**a, **b}\<close> for a dictionary \<open>a\<close>; \<open>b\<close> must be one too.\<close>

definition dict_merge :: "(string \<times> 'v) list \<Rightarrow> (string \<times> 'v) list \<Rightarrow> (string \<times> 'v) list" where
  "dict_merge a b = fold (\<lambda>(k, v). AList.update k v) b a"

text \<open>\<open>str(x)\<close> of a scalar, as an f-string inserts it.\<close>

fun py_str :: "json \<Rightarrow> string" where
  "py_str JNull = ''None''"
| "py_str (JBool b) = (if b then ''True'' else ''False'')"
| "py_str (JInt i) = show_int i"
| "py_str (JFloat x) = float_repr x"
| "py_str (JStr s) = s"
| "py_str (JArr _) = ''[...]''"
| "py_str (JObj _) = ''{...}''"

section \<open>Laws\<close>

lemma py_eq_str_right [simp]: "py_eq x (JStr s) \<longleftrightarrow> x = JStr s"
  by (cases x) auto

lemma py_in_strings: "py_in (JStr s) (JArr (map JStr xs)) = Inr (s \<in> set xs)"
  by (auto simp: list_ex_iff)

lemma py_in_str_arr: "py_in (JStr s) (JArr ys) = Inr (JStr s \<in> set ys)"
  by (auto simp: list_ex_iff)

lemma need_num_JInt [simp]: "need_num (JInt i) = Inr (Fin (of_int i))"
  by (simp add: need_num_def)

lemma need_num_JFloat [simp]: "need_num (JFloat x) = Inr x"
  by (simp add: need_num_def)

lemma map_of_dict_merge: "distinct (map fst b) \<Longrightarrow> map_of (dict_merge a b) = map_of a ++ map_of b"
proof (induction b arbitrary: a)
  case Nil
  then show ?case by (simp add: dict_merge_def)
next
  case (Cons kv b)
  obtain k v where kv: "kv = (k, v)" by fastforce
  have "map_of (dict_merge a (kv # b)) = map_of (AList.update k v a) ++ map_of b"
    using Cons by (simp add: kv dict_merge_def)
  also have "\<dots> = map_of a ++ map_of (kv # b)"
  proof (rule ext)
    fix x
    have "map_of b k = None" using Cons.prems by (simp add: kv map_of_eq_None_iff)
    then show "(map_of (AList.update k v a) ++ map_of b) x = (map_of a ++ map_of (kv # b)) x"
      by (simp add: kv map_add_def split: option.split)
  qed
  finally show ?case .
qed

lemma distinct_dict_merge: "distinct (map fst a) \<Longrightarrow> distinct (map fst (dict_merge a b))"
  by (induction b arbitrary: a) (auto simp: dict_merge_def intro: distinct_update)

lemma dict_merge_keeps_keys: "fst ` set a \<subseteq> fst ` set (dict_merge a b)"
proof (induction b arbitrary: a)
  case Nil
  then show ?case by (simp add: dict_merge_def)
next
  case (Cons kv b)
  obtain k v where kv: "kv = (k, v)" by fastforce
  have "fst ` set a \<subseteq> fst ` set (AList.update k v a)" by (auto simp: dom_update)
  also have "\<dots> \<subseteq> fst ` set (dict_merge (AList.update k v a) b)" by (rule Cons)
  finally show ?case by (simp add: kv dict_merge_def)
qed

end
