(* ===== verification/Latency.thy ===== *)
theory Latency
  imports Py_Json
begin

text \<open>
  \<open>stage2/latency.py\<close>: the per-window latency figures. \<open>latency_stats\<close> is \<open>LatencyStats\<close>, with
  one operation per method. The sum of a list of floats is a parameter \<open>fsum\<close>, since CPython
  changed how \<open>sum\<close> rounds between versions; nothing below depends on it.
\<close>

definition KINDS :: "string list" where
  "KINDS = [''handoff'', ''inference'', ''enforcement'', ''window_to_rule'', ''busy'']"

definition MAX_SAMPLES_PER_KIND :: nat where
  "MAX_SAMPLES_PER_KIND = 10000"

record latency_stats =
  lat_samples :: "(string \<times> pyfloat list) list"
  lat_counts :: "(string \<times> nat) list"

definition latency_init :: latency_stats where
  "latency_init = \<lparr>lat_samples = map (\<lambda>k. (k, [])) KINDS, lat_counts = map (\<lambda>k. (k, 0)) KINDS\<rparr>"

definition latency_record :: "string \<Rightarrow> pyfloat \<Rightarrow> latency_stats \<Rightarrow> latency_stats res" where
  "latency_record kind ms st =
     (case map_of (lat_samples st) kind of
        None \<Rightarrow> Inl KeyError
      | Some vs \<Rightarrow>
          (let st = st\<lparr>lat_counts := AList.update kind (dict_get (lat_counts st) kind 0 + 1) (lat_counts st)\<rparr>
           in Inr (if length vs < MAX_SAMPLES_PER_KIND
                   then st\<lparr>lat_samples := AList.update kind (vs @ [ms]) (lat_samples st)\<rparr>
                   else st)))"

definition has_samples :: "latency_stats \<Rightarrow> bool" where
  "has_samples st = list_ex (\<lambda>(_, n). n \<noteq> 0) (lat_counts st)"

text \<open>\<open>max(0, math.ceil(0.95 * len(values)) - 1)\<close>, with 
  the product rounded to a double.\<close>

definition p95_rank :: "nat \<Rightarrow> nat" where
  "p95_rank n =
     (case fmul (lit (19 / 20)) (Fin (of_nat n)) of
        Fin a \<Rightarrow> nat (max 0 (\<lceil>a\<rceil> - 1))
      | _ \<Rightarrow> 0)"

definition kind_summary :: "(pyfloat list \<Rightarrow> pyfloat) \<Rightarrow> string \<Rightarrow> nat \<Rightarrow> pyfloat list \<Rightarrow> string" where
  "kind_summary fsum kind cnt vs =
     (let values = py_sorted (\<lambda>v. v) vs
      in if values = [] then kind @ ''_n=0''
         else kind @ ''_n='' @ show_nat cnt @ '' '' @ kind @ ''_mean_ms=''
              @ fmt_fixed 3 (case fdiv (fsum values) (Fin (of_nat (length values))) of Inr m \<Rightarrow> m | Inl _ \<Rightarrow> NaN)
              @ '' '' @ kind @ ''_p95_ms='' @ fmt_fixed 3 (values ! p95_rank (length values))
              @ '' '' @ kind @ ''_max_ms='' @ fmt_fixed 3 (last values))"

primrec join_bar :: "string list \<Rightarrow> string" where
  "join_bar [] = []"
| "join_bar (p # ps) = (if ps = [] then p else p @ '' | '' @ join_bar ps)"

definition summary_line :: "(pyfloat list \<Rightarrow> pyfloat) \<Rightarrow> pyfloat \<Rightarrow> latency_stats \<Rightarrow> string \<times> latency_stats" where
  "summary_line fsum interval st =
     (join_bar ([''Latency: summary'', ''interval_secs='' @ fmt_g interval]
        @ map (\<lambda>k. kind_summary fsum k (dict_get (lat_counts st) k 0) (dict_get (lat_samples st) k [])) KINDS),
      latency_init)"

section \<open>The invariant\<close>

text \<open>Every kind has an entry, no list is longer than the bound, and the count of a kind is the
  number of samples kept as long as the bound has not been reached.\<close>

definition latency_ok :: "latency_stats \<Rightarrow> bool" where
  "latency_ok st \<longleftrightarrow>
     (\<forall>k. (map_of (lat_samples st) k \<noteq> None \<longleftrightarrow> k \<in> set KINDS) \<and>
          (map_of (lat_counts st) k \<noteq> None \<longleftrightarrow> k \<in> set KINDS) \<and>
          length (dict_get (lat_samples st) k []) = min MAX_SAMPLES_PER_KIND (dict_get (lat_counts st) k 0))"

lemma map_of_const: "map_of (map (\<lambda>k. (k, c)) ks) k = (if k \<in> set ks then Some c else None)"
  by (induction ks) auto

lemma latency_ok_init: "latency_ok latency_init"
  by (auto simp: latency_ok_def latency_init_def map_of_const dict_get_def)

lemma latency_record_eq:
  assumes "map_of (lat_samples st) kind = Some vs"
  shows "latency_record kind ms st =
    Inr (st\<lparr>lat_counts := AList.update kind (Suc (dict_get (lat_counts st) kind 0)) (lat_counts st),
            lat_samples := (if length vs < MAX_SAMPLES_PER_KIND
              then AList.update kind (vs @ [ms]) (lat_samples st) else lat_samples st)\<rparr>)"
  using assms by (simp add: latency_record_def Let_def)

lemma latency_ok_record:
  assumes ok: "latency_ok st" and r: "latency_record kind ms st = Inr st'"
  shows "latency_ok st'"
proof -
  obtain vs where vs: "map_of (lat_samples st) kind = Some vs"
    using r by (auto simp: latency_record_def split: option.splits)
  then have k: "kind \<in> set KINDS" and len: "length vs = min MAX_SAMPLES_PER_KIND (dict_get (lat_counts st) kind 0)"
    using ok unfolding latency_ok_def by (metis option.distinct(1), metis dict_get_def option.simps(5))
  have st': "st' = st\<lparr>lat_counts := AList.update kind (Suc (dict_get (lat_counts st) kind 0)) (lat_counts st),
      lat_samples := (if length vs < MAX_SAMPLES_PER_KIND
        then AList.update kind (vs @ [ms]) (lat_samples st) else lat_samples st)\<rparr>"
    using r by (simp add: latency_record_eq [OF vs])
  have vs': "dict_get (lat_samples st) kind [] = vs" using vs by (simp add: dict_get_def)
  show ?thesis
    unfolding latency_ok_def st'
    using ok k len by (simp add: latency_ok_def vs vs')
qed

lemma latency_record_total: "latency_ok st \<Longrightarrow> kind \<in> set KINDS \<Longrightarrow> \<exists>st'. latency_record kind ms st = Inr st'"
  unfolding latency_ok_def by (metis latency_record_eq not_None_eq)

lemma latency_ok_bound: "latency_ok st \<Longrightarrow> length (dict_get (lat_samples st) k []) \<le> MAX_SAMPLES_PER_KIND"
  by (simp add: latency_ok_def)

lemma p95_rank_less: "0 < n \<Longrightarrow> n < 2 ^ 53 \<Longrightarrow> p95_rank n < n"
proof -
  assume n: "0 < n" "n < 2 ^ 53"
  have c: "lit (19 / 20) = Fin (8556839292003942 / 9007199254740992)" by code_simp
  define a :: rat where "a = 8556839292003942 / 9007199254740992 * of_nat n"
  have "fle (fl_round a) (fl_round (of_nat n))" by (rule fl_round_mono) (simp add: a_def)
  then have le: "fle (fl_round a) (Fin (of_nat n))" using n by (simp add: fl_round_of_nat)
  show ?thesis
  proof (cases "fl_round a")
    case (Fin b)
    then have "\<lceil>b\<rceil> \<le> int n" using le by (simp add: ceiling_le_iff)
    then show ?thesis using n Fin by (auto simp: p95_rank_def c a_def)
  qed (use n in \<open>simp_all add: p95_rank_def c a_def\<close>)
qed

end
