(* ===== verification/Database.thy ===== *)
theory Database
  imports Py_Json
begin

text \<open>
  The SQLite database of \<open>stage2/schema.py\<close>: one record per table, with the columns of its
  \<open>CREATE TABLE\<close> statement, and what the sources use of SQLite.

  A table with an \<open>INTEGER PRIMARY KEY AUTOINCREMENT\<close> column is a list of rows in the order of
  insertion together with the highest identifier ever given, from which the next one is taken.
  Binding a Python value to a column turns \<open>NaN\<close> into \<open>NULL\<close> and refuses lists and
  dictionaries; a \<open>NULL\<close> in a \<open>NOT NULL\<close> column is an error. The definition of a playbook is
  a JSON text and is represented by the value it denotes, \<open>None\<close> when it does not parse. The
  text affinity that would store a number as its digits is not applied.

  The locale \<open>autoinc\<close> states what the identifier column of a table promises and derives it once;
  it is interpreted on each of the tables.
\<close>

section \<open>Rows\<close>

record log_row =
  log_id :: nat
  log_timestamp :: pyfloat
  log_src_ip :: json
  log_dst_ip :: json
  log_proto :: string
  log_rate :: "pyfloat option"
  log_entropy :: "pyfloat option"
  log_classification :: string

record metrics_row =
  mh_id :: nat
  mh_timestamp :: pyfloat
  mh_values :: "pyfloat option list"
  mh_victim_ip :: json

record auto_label_run =
  alr_id :: nat
  alr_timestamp :: pyfloat
  alr_rows_labeled :: nat
  alr_resolved :: bool

record playbook_row =
  pb_id :: nat
  pb_name :: string
  pb_scope_type :: string
  pb_scope_value :: "string option"
  pb_enabled :: bool
  pb_definition :: "json option"
  pb_created_at :: pyfloat
  pb_updated_at :: pyfloat

record playbook_run =
  run_id :: nat
  run_playbook_id :: nat
  run_target_host :: json
  run_target_source :: "string option"
  run_stage_index :: nat
  run_status :: string
  run_trigger_reason :: string
  run_started_at :: pyfloat
  run_updated_at :: pyfloat

record playbook_event =
  ev_id :: nat
  ev_run_id :: nat
  ev_stage_index :: nat
  ev_stage_type :: string
  ev_fired_at :: pyfloat
  ev_target_source :: "string option"
  ev_detail :: string

record user_row =
  user_name :: string
  user_password_hash :: string
  user_salt :: "string option"

record 'r table =
  tbl_rows :: "'r list"
  tbl_seq :: nat

record database =
  db_users :: "user_row list"
  db_logs :: "log_row table"
  db_metrics_history :: "metrics_row table"
  db_auto_label_runs :: "auto_label_run table"
  db_playbooks :: "playbook_row table"
  db_playbook_runs :: "playbook_run table"
  db_playbook_events :: "playbook_event table"

definition empty_table :: "'r table" where
  "empty_table = \<lparr>tbl_rows = [], tbl_seq = 0\<rparr>"

definition empty_database :: database where
  "empty_database =
     \<lparr>db_users = [], db_logs = empty_table, db_metrics_history = empty_table,
      db_auto_label_runs = empty_table, db_playbooks = empty_table,
      db_playbook_runs = empty_table, db_playbook_events = empty_table\<rparr>"

section \<open>Statements\<close>

definition tbl_insert :: "(nat \<Rightarrow> 'r) \<Rightarrow> 'r table \<Rightarrow> 'r table" where
  "tbl_insert mk t = \<lparr>tbl_rows = tbl_rows t @ [mk (Suc (tbl_seq t))], tbl_seq = Suc (tbl_seq t)\<rparr>"

definition tbl_delete :: "('r \<Rightarrow> bool) \<Rightarrow> 'r table \<Rightarrow> 'r table" where
  "tbl_delete P t = t\<lparr>tbl_rows := filter (\<lambda>r. \<not> P r) (tbl_rows t)\<rparr>"

definition tbl_update :: "('r \<Rightarrow> bool) \<Rightarrow> ('r \<Rightarrow> 'r) \<Rightarrow> 'r table \<Rightarrow> 'r table" where
  "tbl_update P f t = t\<lparr>tbl_rows := map (\<lambda>r. if P r then f r else r) (tbl_rows t)\<rparr>"

text \<open>Binding parameters: a float column, a \<open>NOT NULL\<close> float column, a text column.\<close>

definition bind_real :: "pyfloat option \<Rightarrow> pyfloat option" where
  "bind_real x = (case x of Some NaN \<Rightarrow> None | _ \<Rightarrow> x)"

definition bind_real_not_null :: "pyfloat \<Rightarrow> pyfloat res" where
  "bind_real_not_null x = (if x = NaN then Inl SqlError else Inr x)"

definition bind_text :: "json \<Rightarrow> json res" where
  "bind_text j = (if \<not> hashable j then Inl SqlError else if j = JFloat NaN then Inr JNull else Inr j)"

definition bind_text_not_null :: "json \<Rightarrow> json res" where
  "bind_text_not_null j = (if \<not> hashable j \<or> j = JNull \<or> j = JFloat NaN then Inl SqlError else Inr j)"

section \<open>Identifiers\<close>

definition ids_ok :: "('r \<Rightarrow> nat) \<Rightarrow> 'r table \<Rightarrow> bool" where
  "ids_ok rid t \<longleftrightarrow> sorted_wrt (\<lambda>r r'. rid r < rid r') (tbl_rows t) \<and> (\<forall>r \<in> set (tbl_rows t). rid r \<le> tbl_seq t)"

text \<open>The contract of the identifier column: a new row carries the identifier it was given. From
  it, identifiers stay strictly increasing, hence unique, and are never given twice.\<close>

locale autoinc =
  fixes rid :: "'r \<Rightarrow> nat"
    and mk :: "'a \<Rightarrow> nat \<Rightarrow> 'r"
  assumes rid_mk: "rid (mk x n) = n"
begin

lemma ok_insert: "ids_ok rid t \<Longrightarrow> ids_ok rid (tbl_insert (mk x) t)"
  by (auto simp: ids_ok_def tbl_insert_def sorted_wrt_append rid_mk le_imp_less_Suc le_SucI)

lemma ok_delete: "ids_ok rid t \<Longrightarrow> ids_ok rid (tbl_delete P t)"
  by (auto simp: ids_ok_def tbl_delete_def sorted_wrt_filter)

lemma ok_update: "ids_ok rid t \<Longrightarrow> (\<And>r. rid (f r) = rid r) \<Longrightarrow> ids_ok rid (tbl_update P f t)"
  by (auto simp: ids_ok_def tbl_update_def sorted_wrt_map if_distrib [of rid] cong: if_cong)

lemma fresh: "ids_ok rid t \<Longrightarrow> r \<in> set (tbl_rows t) \<Longrightarrow> rid r < rid (mk x (Suc (tbl_seq t)))"
  by (auto simp: ids_ok_def rid_mk le_imp_less_Suc)

lemma unique: "ids_ok rid t \<Longrightarrow> r \<in> set (tbl_rows t) \<Longrightarrow> r' \<in> set (tbl_rows t) \<Longrightarrow> rid r = rid r' \<Longrightarrow> r = r'"
proof -
  assume ok: "ids_ok rid t" and r: "r \<in> set (tbl_rows t)" "r' \<in> set (tbl_rows t)" and eq: "rid r = rid r'"
  obtain i j where ij: "i < length (tbl_rows t)" "r = tbl_rows t ! i" "j < length (tbl_rows t)" "r' = tbl_rows t ! j"
    using r by (auto simp: in_set_conv_nth)
  have "i < j \<Longrightarrow> rid r < rid r'" and "j < i \<Longrightarrow> rid r' < rid r"
    using ok ij by (auto simp: ids_ok_def sorted_wrt_iff_nth_less)
  then show "r = r'" using eq ij by (cases i j rule: linorder_cases) auto
qed

end

lemma ids_ok_empty [simp]: "ids_ok rid empty_table"
  by (simp add: ids_ok_def empty_table_def)

text \<open>The rows the sources insert.\<close>

definition mk_log :: "pyfloat \<times> json \<times> json \<times> pyfloat option \<times> pyfloat option \<times> string \<Rightarrow> nat \<Rightarrow> log_row" where
  "mk_log x n = (case x of (ts, src, dst, rate, ent, cls) \<Rightarrow>
     \<lparr>log_id = n, log_timestamp = ts, log_src_ip = src, log_dst_ip = dst, log_proto = ''MIXED'',
      log_rate = rate, log_entropy = ent, log_classification = cls\<rparr>)"

definition mk_metrics :: "pyfloat \<times> pyfloat option list \<times> json \<Rightarrow> nat \<Rightarrow> metrics_row" where
  "mk_metrics x n = (case x of (ts, vs, victim) \<Rightarrow>
     \<lparr>mh_id = n, mh_timestamp = ts, mh_values = vs, mh_victim_ip = victim\<rparr>)"

definition mk_auto_label_run :: "pyfloat \<times> nat \<Rightarrow> nat \<Rightarrow> auto_label_run" where
  "mk_auto_label_run x n = (case x of (ts, k) \<Rightarrow>
     \<lparr>alr_id = n, alr_timestamp = ts, alr_rows_labeled = k, alr_resolved = False\<rparr>)"

definition mk_playbook :: "string \<times> string \<times> string option \<times> bool \<times> json option \<times> pyfloat \<Rightarrow> nat \<Rightarrow> playbook_row" where
  "mk_playbook x n = (case x of (name, st, sv, en, def, now) \<Rightarrow>
     \<lparr>pb_id = n, pb_name = name, pb_scope_type = st, pb_scope_value = sv, pb_enabled = en,
      pb_definition = def, pb_created_at = now, pb_updated_at = now\<rparr>)"

definition mk_run :: "nat \<times> json \<times> string option \<times> string \<times> pyfloat \<Rightarrow> nat \<Rightarrow> playbook_run" where
  "mk_run x n = (case x of (pid, host, src, reason, now) \<Rightarrow>
     \<lparr>run_id = n, run_playbook_id = pid, run_target_host = host, run_target_source = src,
      run_stage_index = 0, run_status = ''running'', run_trigger_reason = reason,
      run_started_at = now, run_updated_at = now\<rparr>)"

definition mk_event :: "nat \<times> nat \<times> string \<times> pyfloat \<times> string option \<times> string \<Rightarrow> nat \<Rightarrow> playbook_event" where
  "mk_event x n = (case x of (rid, idx, ty, now, src, detail) \<Rightarrow>
     \<lparr>ev_id = n, ev_run_id = rid, ev_stage_index = idx, ev_stage_type = ty, ev_fired_at = now,
      ev_target_source = src, ev_detail = detail\<rparr>)"

interpretation logs_tbl: autoinc log_id mk_log
  by unfold_locales (simp add: mk_log_def split: prod.split)

interpretation metrics_tbl: autoinc mh_id mk_metrics
  by unfold_locales (simp add: mk_metrics_def split: prod.split)

interpretation label_runs_tbl: autoinc alr_id mk_auto_label_run
  by unfold_locales (simp add: mk_auto_label_run_def split: prod.split)

interpretation playbooks_tbl: autoinc pb_id mk_playbook
  by unfold_locales (simp add: mk_playbook_def split: prod.split)

interpretation runs_tbl: autoinc run_id mk_run
  by unfold_locales (simp add: mk_run_def split: prod.split)

interpretation events_tbl: autoinc ev_id mk_event
  by unfold_locales (simp add: mk_event_def split: prod.split)

definition database_ok :: "database \<Rightarrow> bool" where
  "database_ok d \<longleftrightarrow>
     distinct (map user_name (db_users d)) \<and> ids_ok log_id (db_logs d) \<and> ids_ok mh_id (db_metrics_history d) \<and>
     ids_ok alr_id (db_auto_label_runs d) \<and> ids_ok pb_id (db_playbooks d) \<and>
     ids_ok run_id (db_playbook_runs d) \<and> ids_ok ev_id (db_playbook_events d)"

lemma database_ok_empty: "database_ok empty_database"
  by (simp add: database_ok_def empty_database_def)

end
