(* ===== verification/World.thy ===== *)
theory World
  imports Latency Database
begin

text \<open>
  The state of the running Stage 2 process and what surrounds it.

  \<^item> \<open>env\<close> holds everything the process does not decide: the clocks, whether the n-th file or
    database operation works, what the commands it runs answer, who holds a capture file's lock,
    what HTTP and SMTP requests answer, the two trained models, and the settings read from
    environment variables.
  \<^item> \<open>world\<close> holds \<open>stage2/state.py\<close>, the module-level variables of the other modules, the
    files, the database, and the history of the effects: the commands run, the messages sent, the
    log lines that are an operation's only result.
  \<^item> The primitives \<open>time_time\<close>, \<open>monotonic\<close>, \<open>io_check\<close>, \<open>run_cmd\<close> and the frame relations
    between two states.

  A command is recorded when it is executed, whatever it answers, and its answer is a function of
  the commands executed before it. Ordinary log messages are left out.
\<close>

section \<open>Surroundings\<close>

datatype jpath =
    WHITELIST_PATH
  | SHARED_IPS_PATH
  | VICTIMS_PATH
  | FLOWS_PATH
  | ENFORCEMENT_CONFIG_PATH
  | ALERTS_CONFIG_PATH

datatype cpath =
    ANOMALOUS_CSV_PATH
  | PRETRAINING_CSV_PATH
  | DDOS_CAPTURE_CSV_PATH
  | AUTO_LABELED_CSV_PATH
  | TRAINING_CSV_PATH

text \<open>What is at the path of a JSON file: nothing, something that cannot be opened, a file that
  does not parse, a JSON document, or a symbolic link to a document.\<close>

datatype jfile = JMissing | JUnreadable | JBad | JVal json | JLink json

text \<open>The operations that may fail: on a JSON file, on a capture file, on the database, and
  writing a report.\<close>

datatype io_kind = IO_Json jpath | IO_Csv cpath | IO_Db | IO_Report

record proc =
  returncode :: int
  stdout :: string
  stderr :: string

text \<open>A model is the predicted label of a feature vector; the Isolation Forest also has a score.\<close>

type_synonym features = "pyfloat list"

record if_model =
  if_predict :: "features \<Rightarrow> int res"
  if_score :: "features \<Rightarrow> pyfloat res"

record settings =
  FLOWS_MAX_AGE_SECS :: pyfloat
  SLOW_WINDOW_LOG_SECS :: pyfloat
  CAPTURE_PENDING_MAX_ROWS :: int
  PRETRAINING_MAX_BYTES :: int
  LATENCY_LOG_INTERVAL_SECS :: pyfloat
  AUTO_LABEL_DELAY_HOURS :: pyfloat
  AUTO_LABEL_CONFIDENCE_THRESHOLD :: pyfloat
  AUTO_LABEL_MAX_QUEUE_ROWS :: int
  TRAINING_CSV_SET :: bool
  PLAYBOOK_REPORTS_DIR :: string

record http_response =
  status_code :: int
  resp_text :: string

record env =
  e_clock :: "nat \<Rightarrow> pyfloat"
  e_mono :: "nat \<Rightarrow> pyfloat"
  e_io :: "nat \<Rightarrow> io_kind \<Rightarrow> bool"
  e_run :: "string list list \<Rightarrow> string list \<Rightarrow> proc res"
  e_locked :: "nat \<Rightarrow> cpath \<Rightarrow> bool"
  e_send :: "nat \<Rightarrow> http_response res"
  e_exn_text :: "py_exn \<Rightarrow> string"
  e_sum :: "pyfloat list \<Rightarrow> pyfloat"
  e_render :: "nat \<Rightarrow> unit res"
  e_clf :: "(features \<Rightarrow> int res) option"
  e_if_clf :: "if_model option"
  e_conf :: settings

section \<open>The state\<close>

type_synonym dict = "(string \<times> json) list"

record session =
  sess_username :: string
  sess_last_active :: pyfloat

record ddos_source =
  dsrc_victim_ip :: json
  dsrc_rate :: "pyfloat option"
  dsrc_timestamp :: pyfloat
  dsrc_action :: string

text \<open>A message handed to an external service: Discord's URL and content; the mail server, its port, the
  user, the recipients, the subject and the body; Telegram's token, chat and text; the URL, the headers,
  the subject and the message of the generic webhook.\<close>

datatype outgoing =
    Discord json string
  | Email json json json json string string
  | Telegram json json string
  | Webhook json json string string

record world =
  w_tick :: nat
  w_io :: nat
  w_cmds :: "string list list"
  w_json :: "jpath \<Rightarrow> jfile"
  w_tmp :: "jpath \<Rightarrow> jfile option"
  w_csv :: "cpath \<Rightarrow> string option"
  w_db :: database
  last_purge :: "pyfloat option"
  last_metrics :: dict
  last_metrics_by_target :: "(json \<times> dict) list"
  consecutive_ddos_windows :: "(json \<times> nat) list"
  recently_blocked :: "(json \<times> pyfloat) list"
  active_sessions :: "(string \<times> session) list"
  failed_login_attempts :: "(string \<times> pyfloat list) list"
  failed_reauth_attempts :: "(string \<times> pyfloat list) list"
  last_classification_by_target :: "(json \<times> string) list"
  last_block_alert :: "(json \<times> pyfloat) list"
  last_tier_reached :: "(json \<times> nat) list"
  ddos_sources :: "(json \<times> ddos_source) list"
  alert_queue :: "(string \<times> string \<times> string) list"
  reported_down :: "(string \<times> bool) list"
  w_sent :: "outgoing list"
  w_latency :: latency_stats
  latency_log_last :: pyfloat
  step_secs :: "(string \<times> pyfloat) list"
  pending_capture_rows :: "(cpath \<times> string list list) list"
  capture_file_lock_warned :: "cpath list"
  capture_file_cap_warned :: "cpath list"
  w_reports :: "string list"
  w_log :: "string list"

type_synonym 'a op = "(world, 'a) py"

text \<open>The state at the start of a process in an empty installation.\<close>

definition initial_metrics :: dict where
  "initial_metrics =
     [(''entropy'', JFloat (Fin 0)), (''ewma_rate'', JFloat (Fin 0)), (''mean_h'', JFloat (Fin 0)),
      (''mean_r'', JFloat (Fin 0)), (''sigma_h'', JFloat (Fin 0)), (''sigma_r'', JFloat (Fin 0)),
      (''proto_ratio'', JFloat (Fin 1)), (''dominant_ip_ratio'', JFloat (Fin 0)),
      (''timestamp'', JFloat (Fin 0)), (''k_multiplier'', JFloat (Fin 2)), (''cooldown'', JInt 0),
      (''latest_classification'', JStr ''Normal''), (''egress_rate'', JNull), (''drop_ratio'', JNull),
      (''proto_tcp'', JFloat (Fin 1)), (''proto_udp'', JFloat (Fin 0)), (''proto_icmp'', JFloat (Fin 0)),
      (''proto_sctp'', JFloat (Fin 0)), (''proto_gre'', JFloat (Fin 0)), (''proto_esp'', JFloat (Fin 0))]"

definition init_world :: "pyfloat \<Rightarrow> world" where
  "init_world started =
     \<lparr>w_tick = 0, w_io = 0, w_cmds = [], w_json = (\<lambda>_. JMissing), w_tmp = (\<lambda>_. None), w_csv = (\<lambda>_. None),
      w_db = empty_database, last_purge = None, last_metrics = initial_metrics, last_metrics_by_target = [],
      consecutive_ddos_windows = [], recently_blocked = [], active_sessions = [], failed_login_attempts = [],
      failed_reauth_attempts = [], last_classification_by_target = [], last_block_alert = [],
      last_tier_reached = [], ddos_sources = [], alert_queue = [],
      reported_down = [(''discord'', False), (''email'', False), (''telegram'', False), (''webhook'', False)],
      w_sent = [], w_latency = latency_init, latency_log_last = started,
      step_secs = [(''database'', Fin 0), (''flows'', Fin 0), (''enforcement'', Fin 0)],
      pending_capture_rows = [], capture_file_lock_warned = [], capture_file_cap_warned = [],
      w_reports = [], w_log = []\<rparr>"

text \<open>The settings when no environment variable is set, and surroundings in which everything works:
  the clock ticks once a second from \<open>1000\<close>, every command succeeds with an empty output. They are
  the concrete inputs of the examples.\<close>

definition default_settings :: settings where
  "default_settings =
     \<lparr>FLOWS_MAX_AGE_SECS = Fin 30, SLOW_WINDOW_LOG_SECS = Fin 1, CAPTURE_PENDING_MAX_ROWS = 5000,
      PRETRAINING_MAX_BYTES = 52428800, LATENCY_LOG_INTERVAL_SECS = Fin 30, AUTO_LABEL_DELAY_HOURS = Fin 24,
      AUTO_LABEL_CONFIDENCE_THRESHOLD = lit (90 / 100), AUTO_LABEL_MAX_QUEUE_ROWS = 50000,
      TRAINING_CSV_SET = False, PLAYBOOK_REPORTS_DIR = ''playbook_reports''\<rparr>"

definition lab_env :: env where
  "lab_env =
     \<lparr>e_clock = (\<lambda>n. Fin (1000 + of_nat n)), e_mono = (\<lambda>n. Fin (of_nat n)), e_io = (\<lambda>_ _. True),
      e_run = (\<lambda>_ _. Inr \<lparr>returncode = 0, stdout = [], stderr = []\<rparr>), e_locked = (\<lambda>_ _. False),
      e_send = (\<lambda>_. Inr \<lparr>status_code = 204, resp_text = []\<rparr>), e_exn_text = (\<lambda>_. ''error''),
      e_sum = (\<lambda>_. Fin 0), e_render = (\<lambda>_. Inr ()), e_clf = None, e_if_clf = None, e_conf = default_settings\<rparr>"

lemma lab_env_io: "e_io lab_env n k" and lab_env_clock: "e_clock lab_env n = Fin (1000 + of_nat n)"
  by (simp_all add: lab_env_def)

section \<open>Primitives\<close>

definition time_time :: "env \<Rightarrow> pyfloat op" where
  "time_time E s = (Inr (e_clock E (w_tick s)), s\<lparr>w_tick := Suc (w_tick s)\<rparr>)"

definition monotonic :: "env \<Rightarrow> pyfloat op" where
  "monotonic E s = (Inr (e_mono E (w_tick s)), s\<lparr>w_tick := Suc (w_tick s)\<rparr>)"

text \<open>Whether the next file or database operation works, and the operation that raises if not.\<close>

definition io_ok :: "env \<Rightarrow> io_kind \<Rightarrow> bool op" where
  "io_ok E k s = (Inr (e_io E (w_io s) k), s\<lparr>w_io := Suc (w_io s)\<rparr>)"

definition io_check :: "env \<Rightarrow> io_kind \<Rightarrow> py_exn \<Rightarrow> unit op" where
  "io_check E k e = bnd (io_ok E k) (\<lambda>ok. if ok then ret () else raise_exn e)"

text \<open>\<open>subprocess.run\<close> of a list of arguments; an argument that is not a string is refused before
  anything runs.\<close>

definition str_arg :: "json \<Rightarrow> string res" where
  "str_arg j = (case j of JStr s \<Rightarrow> Inr s | _ \<Rightarrow> Inl TypeError)"

definition run_cmd :: "env \<Rightarrow> string list \<Rightarrow> proc op" where
  "run_cmd E c s = (e_run E (w_cmds s) c, s\<lparr>w_cmds := w_cmds s @ [c]\<rparr>)"

section \<open>Frames\<close>

text \<open>
  \<open>keeps f\<close>: a component of the state does not change. Each such relation is reflexive and
  transitive, so \<^const>\<open>steps\<close> propagates it through every combinator.
\<close>

definition keeps :: "('s \<Rightarrow> 'a) \<Rightarrow> 's \<Rightarrow> 's \<Rightarrow> bool" where
  "keeps f s s' \<longleftrightarrow> f s' = f s"

interpretation keep: step_rel "keeps f" for f
  by unfold_locales (auto simp: keeps_def)

text \<open>\<open>grows f\<close>: a list only gets longer at its end.\<close>

definition grows :: "('s \<Rightarrow> 'a list) \<Rightarrow> 's \<Rightarrow> 's \<Rightarrow> bool" where
  "grows f s s' \<longleftrightarrow> (\<exists>xs. f s' = f s @ xs)"

interpretation grow: step_rel "grows f" for f
  by unfold_locales (auto simp: grows_def)

lemma keepsI: "(\<And>s. f (snd (m s)) = f s) \<Longrightarrow> steps (keeps f) m"
  by (simp add: steps_def keeps_def)

lemma keepsD: "steps (keeps f) m \<Longrightarrow> m s = (r, s') \<Longrightarrow> f s' = f s"
  by (drule stepsD2) (simp_all add: keeps_def)

text \<open>
  A relation that does not see the clock and the counter of file operations. The locales of the
  other theories extend it by what the relation must allow of their own primitives; every operation
  is then shown once to stay within any such relation.
\<close>

locale frame_io = step_rel R for R :: "world \<Rightarrow> world \<Rightarrow> bool" +
  assumes tick: "R s (s\<lparr>w_tick := n\<rparr>)"
    and io: "R s (s\<lparr>w_io := n\<rparr>)"
begin

lemma time_time: "steps R (time_time E)"
  by (simp add: steps_def time_time_def tick)

lemma monotonic: "steps R (monotonic E)"
  by (simp add: steps_def monotonic_def tick)

lemma io_ok: "steps R (io_ok E k)"
  by (simp add: steps_def io_ok_def io)

lemma io_check: "steps R (io_check E k e)"
  unfolding io_check_def by (intro rules io_ok)

lemma time_time_bnd: "(\<And>n. steps R (f (e_clock E n))) \<Longrightarrow> steps R (bnd (time_time E) f)"
  unfolding steps_def bnd_def time_time_def by (auto intro: trans [OF tick])

lemmas io_rules = rules time_time monotonic io_ok io_check

end

end
