(* ===== verification/Storage.thy ===== *)
theory Storage
  imports World "HOL-Library.Word"
begin

text \<open>
  \<open>stage2/storage.py\<close>: JSON files written through a temporary file and a rename, and the check
  that decides whether a model file is trusted.

  \<open>atomic_write\<close> is composed of its system calls, each of which may fail, so a crash or an error
  between two of them is a state of the model: \<open>atomic_write_states\<close> lists the states after each
  call. \<open>load_json_file\<close> returns the default on every failure and creates a missing file;
  \<open>save_json_file\<close> keeps the old file on every failure. The permission bits of a file are kept as
  a word.
\<close>

section \<open>Atomic writes\<close>

text \<open>\<open>os.open(tmp, O_WRONLY | O_CREAT | O_EXCL)\<close>, the write, \<open>os.replace\<close> and the clean-up.\<close>

definition open_excl :: "env \<Rightarrow> jpath \<Rightarrow> unit op" where
  "open_excl E p =
     bnd (io_check E (IO_Json p) OSError) (\<lambda>_.
     bnd (gets (\<lambda>s. w_tmp s p)) (\<lambda>t.
     if t \<noteq> None then raise_exn OSError
     else modify (\<lambda>s. s\<lparr>w_tmp := (w_tmp s)(p := Some JBad)\<rparr>)))"

definition write_tmp :: "env \<Rightarrow> jpath \<Rightarrow> json \<Rightarrow> unit op" where
  "write_tmp E p j =
     bnd (io_check E (IO_Json p) OSError) (\<lambda>_.
     modify (\<lambda>s. s\<lparr>w_tmp := (w_tmp s)(p := Some (JVal j))\<rparr>))"

definition os_replace :: "env \<Rightarrow> jpath \<Rightarrow> unit op" where
  "os_replace E p =
     bnd (io_check E (IO_Json p) OSError) (\<lambda>_.
     bnd (gets (\<lambda>s. w_tmp s p)) (\<lambda>t.
     case t of None \<Rightarrow> raise_exn OSError
     | Some f \<Rightarrow> modify (\<lambda>s. s\<lparr>w_json := (w_json s)(p := f), w_tmp := (w_tmp s)(p := None)\<rparr>)))"

definition unlink_tmp :: "jpath \<Rightarrow> world \<Rightarrow> world" where
  "unlink_tmp p s = s\<lparr>w_tmp := (w_tmp s)(p := None)\<rparr>"

definition atomic_write :: "env \<Rightarrow> jpath \<Rightarrow> json \<Rightarrow> unit op" where
  "atomic_write E p j =
     bnd (open_excl E p) (\<lambda>_.
     finally_do (bnd (write_tmp E p j) (\<lambda>_. os_replace E p)) (unlink_tmp p))"

definition atomic_write_states :: "env \<Rightarrow> jpath \<Rightarrow> json \<Rightarrow> world \<Rightarrow> world list" where
  "atomic_write_states E p j s =
     (let s1 = snd (open_excl E p s);
          s2 = snd (write_tmp E p j s1);
          s3 = snd (os_replace E p s2)
      in if fst (open_excl E p s) \<noteq> Inr () then [s, s1]
         else if fst (write_tmp E p j s1) \<noteq> Inr () then [s, s1, s2, unlink_tmp p s2]
         else [s, s1, s2, s3, unlink_tmp p s3])"

section \<open>Loading and saving\<close>

definition load_json_file :: "env \<Rightarrow> jpath \<Rightarrow> json \<Rightarrow> json op" where
  "load_json_file E p dflt =
     bnd (gets (\<lambda>s. w_json s p)) (\<lambda>f.
     bnd (io_ok E (IO_Json p)) (\<lambda>ok.
     if \<not> ok then ret dflt
     else case f of
       JMissing \<Rightarrow> bnd (atomic_write E p dflt) (\<lambda>_. ret dflt)
     | JVal j \<Rightarrow> ret j
     | _ \<Rightarrow> ret dflt))"

definition save_json_file :: "env \<Rightarrow> jpath \<Rightarrow> json \<Rightarrow> unit op" where
  "save_json_file E p j = try_except (atomic_write E p j) (\<lambda>_. ret ())"

section \<open>Trusted models\<close>

type_synonym mode = "16 word"

definition S_IWGRP :: mode where "S_IWGRP = 16"
definition S_IWOTH :: mode where "S_IWOTH = 2"

record file_stat =
  st_uid :: nat
  st_mode :: mode

unbundle bit_operations_syntax

definition check_model_owner_and_mode :: "nat \<Rightarrow> file_stat \<Rightarrow> unit res" where
  "check_model_owner_and_mode euid st =
     (let (allowed, forbidden) =
        (if euid = 0 then ([0], S_IWGRP OR S_IWOTH) else ([0, euid], S_IWOTH))
      in if st_uid st \<notin> set allowed then Inl PermissionError
         else if st_mode st AND forbidden \<noteq> 0 then Inl PermissionError
         else Inr ())"

text \<open>What is at the path of a model: \<open>open\<close> refuses a missing file and a symbolic link. The
  loader \<open>joblib.load\<close> is a parameter.\<close>

record 'b model_node =
  mn_regular :: bool
  mn_stat :: file_stat
  mn_content :: 'b

datatype 'b model_file = NoModel | ModelLink | ModelNode "'b model_node"

definition load_trusted_model ::
  "('b \<Rightarrow> 'm res) \<Rightarrow> nat \<Rightarrow> 'b model_file \<Rightarrow> file_stat \<Rightarrow> 'm res" where
  "load_trusted_model joblib_load euid f dir =
     (case f of
        NoModel \<Rightarrow> Inl OSError
      | ModelLink \<Rightarrow> Inl OSError
      | ModelNode n \<Rightarrow>
          if \<not> mn_regular n then Inl PermissionError
          else case check_model_owner_and_mode euid (mn_stat n) of
            Inl e \<Rightarrow> Inl e
          | Inr _ \<Rightarrow>
              (case check_model_owner_and_mode euid dir of
                 Inl e \<Rightarrow> Inl e
               | Inr _ \<Rightarrow> joblib_load (mn_content n)))"

section \<open>Lemmas\<close>

lemma atomic_write_eq:
  "atomic_write E p j s =
     (if \<not> e_io E (w_io s) (IO_Json p) then (Inl OSError, s\<lparr>w_io := w_io s + 1\<rparr>)
      else if w_tmp s p \<noteq> None then (Inl OSError, s\<lparr>w_io := w_io s + 1\<rparr>)
      else if \<not> e_io E (w_io s + 1) (IO_Json p) then (Inl OSError, s\<lparr>w_io := w_io s + 2, w_tmp := (w_tmp s)(p := None)\<rparr>)
      else if \<not> e_io E (w_io s + 2) (IO_Json p) then (Inl OSError, s\<lparr>w_io := w_io s + 3, w_tmp := (w_tmp s)(p := None)\<rparr>)
      else (Inr (), s\<lparr>w_io := w_io s + 3, w_tmp := (w_tmp s)(p := None), w_json := (w_json s)(p := JVal j)\<rparr>))"
  by (simp add: atomic_write_def open_excl_def write_tmp_def os_replace_def unlink_tmp_def py_eval
      io_check_def io_ok_def)

lemma io_tmp_same: "s\<lparr>w_io := n\<rparr> = s\<lparr>w_io := n, w_tmp := w_tmp s\<rparr>"
  by simp

lemma atomic_write_cases:
  obtains (written) n t where "atomic_write E p j s = (Inr (), s\<lparr>w_io := n, w_tmp := t, w_json := (w_json s)(p := JVal j)\<rparr>)"
  | (failed) n t where "atomic_write E p j s = (Inl OSError, s\<lparr>w_io := n, w_tmp := t\<rparr>)"
  unfolding atomic_write_eq by (metis io_tmp_same)

lemma load_json_file_eq:
  "load_json_file E p d s =
     (let s1 = s\<lparr>w_io := Suc (w_io s)\<rparr>
      in if \<not> e_io E (w_io s) (IO_Json p) then (Inr d, s1)
         else case w_json s p of
           JMissing \<Rightarrow> (case atomic_write E p d s1 of (Inl e, t) \<Rightarrow> (Inl e, t) | (Inr _, t) \<Rightarrow> (Inr d, t))
         | JVal j \<Rightarrow> (Inr j, s1)
         | _ \<Rightarrow> (Inr d, s1))"
  by (simp add: load_json_file_def py_eval io_ok_def split: jfile.split sum.split prod.split)

lemma load_json_file_cases:
  obtains (dflt) n where "load_json_file E p d s = (Inr d, s\<lparr>w_io := n\<rparr>)"
  | (val) n j where "w_json s p = JVal j" "load_json_file E p d s = (Inr j, s\<lparr>w_io := n\<rparr>)"
  | (created) n t where "w_json s p = JMissing"
      "load_json_file E p d s = (Inr d, s\<lparr>w_io := n, w_tmp := t, w_json := (w_json s)(p := JVal d)\<rparr>)"
  | (raised) n t where "w_json s p = JMissing" "load_json_file E p d s = (Inl OSError, s\<lparr>w_io := n, w_tmp := t\<rparr>)"
proof (cases "e_io E (w_io s) (IO_Json p)")
  case False
  then show ?thesis using dflt by (simp add: load_json_file_eq Let_def)
next
  case io: True
  show ?thesis
  proof (cases "w_json s p")
    case JMissing
    show ?thesis
    proof (cases rule: atomic_write_cases [of E p d "s\<lparr>w_io := Suc (w_io s)\<rparr>"])
      case (written n t)
      then show ?thesis using created [where n = n and t = t] JMissing io by (simp add: load_json_file_eq Let_def)
    next
      case (failed n t)
      then show ?thesis using raised [where n = n and t = t] JMissing io by (simp add: load_json_file_eq Let_def)
    qed
  next
    case (JVal j)
    then show ?thesis using val io by (simp add: load_json_file_eq Let_def)
  qed (use dflt io in \<open>simp_all add: load_json_file_eq Let_def\<close>)
qed

text \<open>A file that is there and readable is what is returned, and nothing changes.\<close>

lemma load_json_file_present:
  "w_json s p = JVal j \<Longrightarrow> \<forall>n. e_io E n (IO_Json p) \<Longrightarrow>
   load_json_file E p d s = (Inr j, s\<lparr>w_io := Suc (w_io s)\<rparr>)"
  by (simp add: load_json_file_eq Let_def)

lemma save_json_file_no_exn: "\<exists>s'. save_json_file E p j s = (Inr (), s')"
  by (rule atomic_write_cases [of E p j s]) (simp_all add: save_json_file_def try_except_def)

text \<open>The relations that allow files to be created, and files to be overwritten.\<close>

locale frame_load = frame_io +
  assumes tmp: "R s (s\<lparr>w_tmp := t\<rparr>)"
    and create: "w_json s p = JMissing \<Longrightarrow> R s (s\<lparr>w_json := (w_json s)(p := JVal j)\<rparr>)"
begin

lemma load_json_file: "steps R (load_json_file E p d)"
proof (rule stepsI)
  fix s
  show "R s (snd (load_json_file E p d s))"
  proof (cases rule: load_json_file_cases [of E p d s])
    case (created n t)
    have "R s (s\<lparr>w_io := n, w_tmp := t\<rparr>)" by (blast intro: trans io tmp)
    moreover have "R (s\<lparr>w_io := n, w_tmp := t\<rparr>) (s\<lparr>w_io := n, w_tmp := t, w_json := (w_json s)(p := JVal d)\<rparr>)"
      using create [of "s\<lparr>w_io := n, w_tmp := t\<rparr>"] created by simp
    ultimately show ?thesis using created by (simp add: trans)
  qed (auto intro: trans io tmp)
qed

end

locale frame_save = frame_load +
  assumes overwrite: "R s (s\<lparr>w_json := (w_json s)(p := JVal j)\<rparr>)"
begin

lemma save_json_file: "steps R (save_json_file E p j)"
proof (rule stepsI)
  fix s
  have io_tmp: "R s (s\<lparr>w_io := n, w_tmp := t\<rparr>)" for n t by (blast intro: trans io tmp)
  show "R s (snd (save_json_file E p j s))"
  proof (cases rule: atomic_write_cases [of E p j s])
    case (written n t)
    then show ?thesis
      using trans [OF io_tmp overwrite [of "s\<lparr>w_io := n, w_tmp := t\<rparr>" p j]]
      by (simp add: save_json_file_def try_except_def)
  qed (simp add: save_json_file_def try_except_def io_tmp)
qed

end

section \<open>Properties\<close>

lemma atomic_write_states_eq:
  "atomic_write_states E p j s =
     (let n = w_io s; K = IO_Json p; s1 = s\<lparr>w_io := n + 1\<rparr> in
      if \<not> e_io E n K \<or> w_tmp s p \<noteq> None then [s, s1]
      else let s1 = s1\<lparr>w_tmp := (w_tmp s)(p := Some JBad)\<rparr> in
      if \<not> e_io E (n + 1) K
      then [s, s1, s1\<lparr>w_io := n + 2\<rparr>, s\<lparr>w_io := n + 2, w_tmp := (w_tmp s)(p := None)\<rparr>]
      else let s2 = s1\<lparr>w_io := n + 2, w_tmp := (w_tmp s)(p := Some (JVal j))\<rparr> in
      if \<not> e_io E (n + 2) K
      then [s, s1, s2, s2\<lparr>w_io := n + 3\<rparr>, s\<lparr>w_io := n + 3, w_tmp := (w_tmp s)(p := None)\<rparr>]
      else let s3 = s\<lparr>w_io := n + 3, w_tmp := (w_tmp s)(p := None), w_json := (w_json s)(p := JVal j)\<rparr>
      in [s, s1, s2, s3, s3])"
  by (simp add: atomic_write_states_def open_excl_def write_tmp_def os_replace_def unlink_tmp_def
      py_eval io_check_def io_ok_def Let_def)


lemma atomic_write_lab: "atomic_write lab_env p j (init_world t) =
    (Inr (), (init_world t)\<lparr>w_io := 3, w_json := (\<lambda>_. JMissing)(p := JVal j)\<rparr>)"
  by (simp add: atomic_write_eq lab_env_def init_world_def fun_upd_idem)


text \<open>
  A document that was saved without an error is the document the next load returns, whatever default
  the load is given, and a save that fails leaves the file as it was; neither raises.
\<close>

theorem save_then_load:
  assumes "\<forall>n k. e_io E n k" and "w_tmp s p = None"
  shows "fst (bnd (save_json_file E p j) (\<lambda>_. load_json_file E p d) s) = Inr j"
proof -
  have "save_json_file E p j s = (Inr (), s\<lparr>w_io := w_io s + 3, w_tmp := (w_tmp s)(p := None), w_json := (w_json s)(p := JVal j)\<rparr>)"
    using assms by (simp add: save_json_file_def try_except_def atomic_write_eq)
  then show ?thesis using assms(1) by (simp add: load_json_file_present)
qed

theorem save_then_load_witness:
  "fst (bnd (save_json_file lab_env VICTIMS_PATH (JArr [JStr ''10.0.0.7''])) (\<lambda>_. load_json_file lab_env VICTIMS_PATH JNull)
     (init_world (Fin 0))) = Inr (JArr [JStr ''10.0.0.7''])"
  by (rule save_then_load) (simp_all add: lab_env_def init_world_def)

text \<open>Who may have written a file: its owner, everybody else (bit 1 of the mode), its group (bit 4).\<close>

definition trusted_writer :: "nat \<Rightarrow> file_stat \<Rightarrow> bool" where
  "trusted_writer euid st \<longleftrightarrow>
     st_uid st \<in> {0, euid} \<and> \<not> bit (st_mode st) 1 \<and> (euid = 0 \<longrightarrow> \<not> bit (st_mode st) 4)"

lemma mode_write_bits:
  "m AND S_IWOTH = 0 \<longleftrightarrow> \<not> bit m 1"
  "m AND (S_IWGRP OR S_IWOTH) = 0 \<longleftrightarrow> \<not> bit m 4 \<and> \<not> bit m 1"
  using and_exp_eq_0_iff_not_bit [of m 1] and_exp_eq_0_iff_not_bit [of m 4]
  by (simp_all only: S_IWGRP_def S_IWOTH_def bit.conj_disj_distrib or_eq_0_iff) simp_all

lemma check_model_iff: "check_model_owner_and_mode euid st = (if trusted_writer euid st then Inr () else Inl PermissionError)"
  by (auto simp: check_model_owner_and_mode_def trusted_writer_def mode_write_bits)

text \<open>
  Unpickling a model runs code, so a model file is only unpickled when nobody else could have written it:
  it is a regular file, not a symbolic link, and both it and its directory belong to root or to the user the
  service runs as, without write permission for others, and without write permission for the group when the
  service runs as root. Every other file is refused before its contents are read, and a file that passes is
  loaded.
\<close>

theorem load_trusted_model_iff:
  "load_trusted_model joblib_load euid f dir =
     (case f of
        ModelNode n \<Rightarrow>
          if mn_regular n \<and> trusted_writer euid (mn_stat n) \<and> trusted_writer euid dir
          then joblib_load (mn_content n) else Inl PermissionError
      | _ \<Rightarrow> Inl OSError)"
  by (simp add: load_trusted_model_def check_model_iff split: model_file.split)

end
