(* ===== verification/Config.thy ===== *)
theory Config
  imports Storage
begin

text \<open>
  \<open>stage2/config.py\<close>: the operator-tunable dictionaries with their defaults, the version file and
  the interfaces named in the Stage 1 unit file. A saved dictionary is merged over the defaults, so
  every default key is present; a saved document that is not an object makes the merge raise.
\<close>

definition DEFAULT_ENFORCEMENT_CONFIG :: dict where
  "DEFAULT_ENFORCEMENT_CONFIG =
     [(''dominant_ip_ratio_block_threshold'', JFloat (lit (40 / 100))),
      (''dominant_ip_ratio_extreme_threshold'', JFloat (lit (75 / 100))),
      (''block_rate_floor_pps'', JFloat (lit 300)),
      (''ratelimit_rate_floor_pps'', JFloat (lit 50)),
      (''block_sigma_multiplier'', JFloat (lit 10)),
      (''block_hysteresis_windows'', JInt 2),
      (''block_duration_seconds'', JInt 3600),
      (''ratelimit_duration_seconds'', JInt 3600),
      (''ratelimit_hashlimit_pps'', JInt 50)]"

definition merge_saved :: "dict \<Rightarrow> json \<Rightarrow> dict res" where
  "merge_saved defaults saved = (case saved of JObj d \<Rightarrow> Inr (dict_merge defaults d) | _ \<Rightarrow> Inl TypeError)"

definition get_enforcement_config :: "env \<Rightarrow> dict op" where
  "get_enforcement_config E =
     bnd (load_json_file E ENFORCEMENT_CONFIG_PATH (JObj DEFAULT_ENFORCEMENT_CONFIG)) (\<lambda>saved.
     lift_res (merge_saved DEFAULT_ENFORCEMENT_CONFIG saved))"

definition DEFAULT_ALERTS_CONFIG :: dict where
  "DEFAULT_ALERTS_CONFIG =
     [(''discord_enabled'', JBool False),
      (''discord_webhook_url'', JStr ''''),
      (''email_enabled'', JBool False),
      (''smtp_host'', JStr ''smtp.gmail.com''),
      (''smtp_port'', JInt 587),
      (''smtp_username'', JStr ''''),
      (''smtp_app_password'', JStr ''''),
      (''email_recipients'', JArr []),
      (''telegram_enabled'', JBool False),
      (''telegram_bot_token'', JStr ''''),
      (''telegram_chat_id'', JStr ''''),
      (''webhook_enabled'', JBool False),
      (''webhook_url'', JStr ''''),
      (''webhook_headers'', JObj [])]"

definition get_alerts_config :: "env \<Rightarrow> dict op" where
  "get_alerts_config E =
     bnd (load_json_file E ALERTS_CONFIG_PATH (JObj DEFAULT_ALERTS_CONFIG)) (\<lambda>saved.
     lift_res (merge_saved DEFAULT_ALERTS_CONFIG saved))"

text \<open>\<open>cfg[key]\<close>.\<close>

definition cfg_at :: "dict \<Rightarrow> string \<Rightarrow> json res" where
  "cfg_at cfg k = (case map_of cfg k of None \<Rightarrow> Inl KeyError | Some v \<Rightarrow> Inr v)"

text \<open>The version: the first candidate file that opens, parses and has a \<open>version\<close> entry.\<close>

primrec load_version :: "jfile list \<Rightarrow> json" where
  "load_version [] = JStr ''Unknown''"
| "load_version (f # fs) =
     (case f of JVal j \<Rightarrow> (case subscript j ''version'' of Inr v \<Rightarrow> v | Inl _ \<Rightarrow> load_version fs)
      | _ \<Rightarrow> load_version fs)"

text \<open>The loop over the words of the unit file; the last occurrence of an option wins, and the last
  word is never an option.\<close>

fun scan_interfaces :: "string list \<Rightarrow> string option \<times> string option \<Rightarrow> string option \<times> string option" where
  "scan_interfaces (p # q # ps) (ingress, egress) =
     scan_interfaces (q # ps)
       (if p = ''--interface'' then (Some q, egress)
        else if p = ''--egress-interface'' then (ingress, Some q)
        else (ingress, egress))"
| "scan_interfaces _ acc = acc"

definition get_sniffer_interfaces :: "string option \<Rightarrow> string option \<times> string option" where
  "get_sniffer_interfaces unit_file =
     (case unit_file of None \<Rightarrow> (None, None) | Some t \<Rightarrow> scan_interfaces (split_ws t) (None, None))"

section \<open>Lemmas\<close>

lemma merge_saved_keys:
  "merge_saved defaults saved = Inr cfg \<Longrightarrow> k \<in> fst ` set defaults \<Longrightarrow> \<exists>v. cfg_at cfg k = Inr v"
proof -
  assume m: "merge_saved defaults saved = Inr cfg" and k: "k \<in> fst ` set defaults"
  obtain d where "cfg = dict_merge defaults d" using m by (auto simp: merge_saved_def split: json.splits)
  then have "k \<in> fst ` set cfg" using k dict_merge_keeps_keys [of defaults d] by auto
  then show ?thesis by (auto simp: cfg_at_def map_of_eq_None_iff split: option.split)
qed

lemma get_enforcement_config_keys:
  "get_enforcement_config E s = (Inr cfg, s') \<Longrightarrow> k \<in> fst ` set DEFAULT_ENFORCEMENT_CONFIG \<Longrightarrow> \<exists>v. cfg_at cfg k = Inr v"
  by (auto simp: get_enforcement_config_def py_defs split: prod.splits sum.splits intro: merge_saved_keys)

context frame_load
begin

lemma get_enforcement_config: "steps R (get_enforcement_config E)"
  unfolding get_enforcement_config_def by (intro rules load_json_file)

lemma get_alerts_config: "steps R (get_alerts_config E)"
  unfolding get_alerts_config_def by (intro rules load_json_file)

end

end
