(* ===== verification/Db.thy ===== *)
theory Db
  imports Config
begin

text \<open>
  \<open>stage2/db.py\<close>: the audit log, the metrics history and the playbook tables.

  A writer opens the shared connection, executes its statements and commits; an error anywhere
  closes the connection, which rolls the transaction back, is logged and swallowed (\<open>db_write\<close>). A
  reader opens its own connection and lets an error through (\<open>db_read\<close>). The time of the last purge
  is a Python variable and is not rolled back.

  Shown here: every operation keeps \<^const>\<open>database_ok\<close>, the incident log only grows, the metrics
  history keeps exactly the newest rows when it is purged, and deleting a playbook removes it with
  its runs and events and nothing else.
\<close>

section \<open>Transactions\<close>

definition txn :: "'a op \<Rightarrow> 'a op" where
  "txn m s = (case m s of (Inl e, s') \<Rightarrow> (Inl e, s'\<lparr>w_db := w_db s\<rparr>) | (Inr x, s') \<Rightarrow> (Inr x, s'))"

definition db_write :: "env \<Rightarrow> 'a \<Rightarrow> 'a op \<Rightarrow> 'a op" where
  "db_write E failed m =
     try_except
       (txn (bnd (io_check E IO_Db SqlError) (\<lambda>_.
             bnd m (\<lambda>x.
             bnd (io_check E IO_Db SqlError) (\<lambda>_. ret x)))))
       (\<lambda>_. ret failed)"

definition db_read :: "env \<Rightarrow> (database \<Rightarrow> 'a) \<Rightarrow> 'a op" where
  "db_read E f = bnd (io_check E IO_Db SqlError) (\<lambda>_. gets (\<lambda>s. f (w_db s)))"

definition upd_logs :: "(log_row table \<Rightarrow> log_row table) \<Rightarrow> unit op" where
  "upd_logs f = modify (\<lambda>s. s\<lparr>w_db := (w_db s)\<lparr>db_logs := f (db_logs (w_db s))\<rparr>\<rparr>)"

definition upd_metrics :: "(metrics_row table \<Rightarrow> metrics_row table) \<Rightarrow> unit op" where
  "upd_metrics f = modify (\<lambda>s. s\<lparr>w_db := (w_db s)\<lparr>db_metrics_history := f (db_metrics_history (w_db s))\<rparr>\<rparr>)"

definition upd_label_runs :: "(auto_label_run table \<Rightarrow> auto_label_run table) \<Rightarrow> unit op" where
  "upd_label_runs f = modify (\<lambda>s. s\<lparr>w_db := (w_db s)\<lparr>db_auto_label_runs := f (db_auto_label_runs (w_db s))\<rparr>\<rparr>)"

definition upd_playbooks :: "(playbook_row table \<Rightarrow> playbook_row table) \<Rightarrow> unit op" where
  "upd_playbooks f = modify (\<lambda>s. s\<lparr>w_db := (w_db s)\<lparr>db_playbooks := f (db_playbooks (w_db s))\<rparr>\<rparr>)"

definition upd_runs :: "(playbook_run table \<Rightarrow> playbook_run table) \<Rightarrow> unit op" where
  "upd_runs f = modify (\<lambda>s. s\<lparr>w_db := (w_db s)\<lparr>db_playbook_runs := f (db_playbook_runs (w_db s))\<rparr>\<rparr>)"

definition upd_events :: "(playbook_event table \<Rightarrow> playbook_event table) \<Rightarrow> unit op" where
  "upd_events f = modify (\<lambda>s. s\<lparr>w_db := (w_db s)\<lparr>db_playbook_events := f (db_playbook_events (w_db s))\<rparr>\<rparr>)"

section \<open>The incident log and the metrics history\<close>

definition METRICS_RETENTION_ROWS :: nat where
  "METRICS_RETENTION_ROWS = 1000"

definition PURGE_INTERVAL_SECONDS :: pyfloat where
  "PURGE_INTERVAL_SECONDS = lit 60"

definition log_incident ::
  "env \<Rightarrow> pyfloat \<Rightarrow> json \<Rightarrow> string \<Rightarrow> json \<Rightarrow> pyfloat option \<Rightarrow> pyfloat option \<Rightarrow> unit op" where
  "log_incident E timestamp src_ip classification victim_ip src_rate entropy =
     db_write E ()
       (bnd (lift_res (bind_real_not_null timestamp)) (\<lambda>ts.
        bnd (lift_res (bind_text_not_null src_ip)) (\<lambda>src.
        bnd (lift_res (bind_text victim_ip)) (\<lambda>dst.
        upd_logs (tbl_insert (mk_log (ts, src, dst, bind_real src_rate, bind_real entropy, classification)))))))"

definition record_auto_label_run :: "env \<Rightarrow> pyfloat \<Rightarrow> nat \<Rightarrow> unit op" where
  "record_auto_label_run E timestamp rows_labeled =
     bnd (io_check E IO_Db SqlError) (\<lambda>_.
     db_write E ()
       (bnd (lift_res (bind_real_not_null timestamp)) (\<lambda>ts.
        upd_label_runs (tbl_insert (mk_auto_label_run (ts, rows_labeled))))))"

text \<open>\<open>DELETE ... WHERE id <= (SELECT MAX(id) ...) - ?\<close>; on an empty table the bound is \<open>NULL\<close>.\<close>

definition trim_metrics :: "metrics_row table \<Rightarrow> metrics_row table" where
  "trim_metrics t =
     (case map mh_id (tbl_rows t) of
        [] \<Rightarrow> t
      | ids \<Rightarrow> tbl_delete (\<lambda>r. mh_id r + METRICS_RETENTION_ROWS \<le> Max (set ids)) t)"

definition purge_metrics_conn :: "env \<Rightarrow> bool \<Rightarrow> unit op" where
  "purge_metrics_conn E force =
     bnd (monotonic E) (\<lambda>now.
     bnd (gets last_purge) (\<lambda>lp.
     if \<not> force \<and> (case lp of None \<Rightarrow> False | Some t \<Rightarrow> flt (fsub now t) PURGE_INTERVAL_SECONDS)
     then ret ()
     else bnd (modify (\<lambda>s. s\<lparr>last_purge := Some now\<rparr>)) (\<lambda>_. upd_metrics trim_metrics)))"

definition log_metrics_history :: "env \<Rightarrow> pyfloat \<Rightarrow> pyfloat list \<Rightarrow> json \<Rightarrow> unit op" where
  "log_metrics_history E timestamp values victim_ip =
     db_write E ()
       (bnd (lift_res (bind_real_not_null timestamp)) (\<lambda>ts.
        bnd (lift_res (bind_text victim_ip)) (\<lambda>victim.
        bnd (upd_metrics (tbl_insert (mk_metrics (ts, map (\<lambda>v. bind_real (Some v)) values, victim)))) (\<lambda>_.
        purge_metrics_conn E False))))"

definition purge_metrics_history :: "env \<Rightarrow> unit op" where
  "purge_metrics_history E = db_write E () (purge_metrics_conn E True)"

section \<open>Playbook runs\<close>

definition scope_matches :: "json \<Rightarrow> playbook_row \<Rightarrow> bool" where
  "scope_matches victim_ip p \<longleftrightarrow>
     pb_scope_type p = ''all'' \<or>
     pb_scope_type p = ''host'' \<and> (case pb_scope_value p of None \<Rightarrow> False | Some v \<Rightarrow> victim_ip = JStr v)"

definition get_enabled_playbooks_for_host :: "env \<Rightarrow> json \<Rightarrow> (nat \<times> json option) list op" where
  "get_enabled_playbooks_for_host E victim_ip =
     db_read E (\<lambda>d. map (\<lambda>p. (pb_id p, pb_definition p))
       (filter (\<lambda>p. pb_enabled p \<and> scope_matches victim_ip p) (tbl_rows (db_playbooks d))))"

definition is_running :: "nat \<Rightarrow> json \<Rightarrow> playbook_run \<Rightarrow> bool" where
  "is_running pid host r \<longleftrightarrow> run_playbook_id r = pid \<and> run_target_host r = host \<and> run_status r = ''running''"

definition get_active_playbook_run :: "env \<Rightarrow> nat \<Rightarrow> json \<Rightarrow> playbook_run option op" where
  "get_active_playbook_run E playbook_id target_host =
     db_read E (\<lambda>d. find (is_running playbook_id target_host) (tbl_rows (db_playbook_runs d)))"

definition start_playbook_run ::
  "env \<Rightarrow> nat \<Rightarrow> json \<Rightarrow> string option \<Rightarrow> string \<Rightarrow> pyfloat \<Rightarrow> nat option op" where
  "start_playbook_run E playbook_id target_host target_source trigger_reason now =
     db_write E None
       (bnd (lift_res (bind_real_not_null now)) (\<lambda>ts.
        bnd (lift_res (bind_text_not_null target_host)) (\<lambda>host.
        bnd (upd_runs (tbl_insert (mk_run (playbook_id, host, target_source, trigger_reason, ts)))) (\<lambda>_.
        gets (\<lambda>s. Some (tbl_seq (db_playbook_runs (w_db s))))))))"

definition get_running_playbook_runs :: "env \<Rightarrow> playbook_run list op" where
  "get_running_playbook_runs E =
     db_read E (\<lambda>d. filter (\<lambda>r. run_status r = ''running'') (tbl_rows (db_playbook_runs d)))"

definition get_playbook_definition :: "env \<Rightarrow> nat \<Rightarrow> json option option op" where
  "get_playbook_definition E playbook_id =
     db_read E (\<lambda>d. map_option pb_definition (find (\<lambda>p. pb_id p = playbook_id) (tbl_rows (db_playbooks d))))"

definition record_playbook_event ::
  "env \<Rightarrow> nat \<Rightarrow> nat \<Rightarrow> string \<Rightarrow> string option \<Rightarrow> string \<Rightarrow> pyfloat \<Rightarrow> unit op" where
  "record_playbook_event E rid stage_index stage_type target_source detail now =
     db_write E ()
       (bnd (lift_res (bind_real_not_null now)) (\<lambda>ts.
        upd_events (tbl_insert (mk_event (rid, stage_index, stage_type, ts, target_source, detail)))))"

definition advance_run_row :: "nat option \<Rightarrow> pyfloat \<Rightarrow> playbook_run \<Rightarrow> playbook_run" where
  "advance_run_row next_stage_index now r =
     (case next_stage_index of
        None \<Rightarrow> r\<lparr>run_status := ''completed'', run_updated_at := now\<rparr>
      | Some i \<Rightarrow> r\<lparr>run_stage_index := i, run_updated_at := now\<rparr>)"

definition advance_playbook_run :: "env \<Rightarrow> nat \<Rightarrow> nat option \<Rightarrow> pyfloat \<Rightarrow> unit op" where
  "advance_playbook_run E rid next_stage_index now =
     db_write E ()
       (bnd (lift_res (bind_real_not_null now)) (\<lambda>ts.
        upd_runs (tbl_update (\<lambda>r. run_id r = rid) (advance_run_row next_stage_index ts))))"

section \<open>Editing playbooks\<close>

definition get_all_playbooks :: "env \<Rightarrow> playbook_row list op" where
  "get_all_playbooks E = db_read E (\<lambda>d. sort_key pb_id (tbl_rows (db_playbooks d)))"

definition get_playbook :: "env \<Rightarrow> nat \<Rightarrow> playbook_row option op" where
  "get_playbook E playbook_id = db_read E (\<lambda>d. find (\<lambda>p. pb_id p = playbook_id) (tbl_rows (db_playbooks d)))"

definition create_playbook ::
  "env \<Rightarrow> string \<Rightarrow> string \<Rightarrow> string option \<Rightarrow> bool \<Rightarrow> json \<Rightarrow> pyfloat \<Rightarrow> nat option op" where
  "create_playbook E name scope_type scope_value enabled def now =
     db_write E None
       (bnd (lift_res (bind_real_not_null now)) (\<lambda>ts.
        bnd (upd_playbooks (tbl_insert (mk_playbook (name, scope_type, scope_value, enabled, Some def, ts)))) (\<lambda>_.
        gets (\<lambda>s. Some (tbl_seq (db_playbooks (w_db s)))))))"

definition playbook_exists :: "nat \<Rightarrow> world \<Rightarrow> bool" where
  "playbook_exists pid s = list_ex (\<lambda>p. pb_id p = pid) (tbl_rows (db_playbooks (w_db s)))"

definition update_playbook ::
  "env \<Rightarrow> nat \<Rightarrow> string \<Rightarrow> string \<Rightarrow> string option \<Rightarrow> bool \<Rightarrow> json \<Rightarrow> pyfloat \<Rightarrow> bool op" where
  "update_playbook E pid name scope_type scope_value enabled def now =
     db_write E False
       (bnd (gets (playbook_exists pid)) (\<lambda>found.
        bnd (if found then lift_res (bind_real_not_null now) else ret now) (\<lambda>ts.
        bnd (upd_playbooks (tbl_update (\<lambda>p. pb_id p = pid)
              (\<lambda>p. p\<lparr>pb_name := name, pb_scope_type := scope_type, pb_scope_value := scope_value,
                      pb_enabled := enabled, pb_definition := Some def, pb_updated_at := ts\<rparr>))) (\<lambda>_.
        ret found))))"

definition set_playbook_enabled :: "env \<Rightarrow> nat \<Rightarrow> bool \<Rightarrow> pyfloat \<Rightarrow> bool op" where
  "set_playbook_enabled E pid enabled now =
     db_write E False
       (bnd (gets (playbook_exists pid)) (\<lambda>found.
        bnd (if found then lift_res (bind_real_not_null now) else ret now) (\<lambda>ts.
        bnd (upd_playbooks (tbl_update (\<lambda>p. pb_id p = pid) (\<lambda>p. p\<lparr>pb_enabled := enabled, pb_updated_at := ts\<rparr>))) (\<lambda>_.
        ret found))))"

definition runs_of :: "nat \<Rightarrow> world \<Rightarrow> nat list" where
  "runs_of pid s = map run_id (filter (\<lambda>r. run_playbook_id r = pid) (tbl_rows (db_playbook_runs (w_db s))))"

definition delete_playbook :: "env \<Rightarrow> nat \<Rightarrow> bool op" where
  "delete_playbook E pid =
     db_write E False
       (bnd (gets (runs_of pid)) (\<lambda>run_ids.
        bnd (if run_ids \<noteq> [] then upd_events (tbl_delete (\<lambda>e. ev_run_id e \<in> set run_ids)) else ret ()) (\<lambda>_.
        bnd (upd_runs (tbl_delete (\<lambda>r. run_playbook_id r = pid))) (\<lambda>_.
        bnd (gets (playbook_exists pid)) (\<lambda>found.
        bnd (upd_playbooks (tbl_delete (\<lambda>p. pb_id p = pid))) (\<lambda>_.
        ret found))))))"

text \<open>Run history: the runs whose playbook exists, with its name, newest first.\<close>

definition join_playbook :: "database \<Rightarrow> playbook_run \<Rightarrow> (playbook_run \<times> string) option" where
  "join_playbook d r =
     map_option (\<lambda>p. (r, pb_name p)) (find (\<lambda>p. pb_id p = run_playbook_id r) (tbl_rows (db_playbooks d)))"

definition get_recent_playbook_runs :: "env \<Rightarrow> nat \<Rightarrow> (playbook_run \<times> string) list op" where
  "get_recent_playbook_runs E limit =
     db_read E (\<lambda>d. take limit (py_sorted (\<lambda>(r, _). fneg (run_started_at r))
       (List.map_filter (join_playbook d) (tbl_rows (db_playbook_runs d)))))"

definition get_playbook_events :: "env \<Rightarrow> nat \<Rightarrow> playbook_event list op" where
  "get_playbook_events E rid =
     db_read E (\<lambda>d. sort_key ev_stage_index (filter (\<lambda>e. ev_run_id e = rid) (tbl_rows (db_playbook_events d))))"

definition join_event :: "database \<Rightarrow> playbook_event \<Rightarrow> (playbook_event \<times> json \<times> string) option" where
  "join_event d e =
     (case find (\<lambda>r. run_id r = ev_run_id e) (tbl_rows (db_playbook_runs d)) of
        None \<Rightarrow> None
      | Some r \<Rightarrow> map_option (\<lambda>(_, name). (e, run_target_host r, name)) (join_playbook d r))"

definition get_playbook_events_between :: "env \<Rightarrow> pyfloat \<Rightarrow> pyfloat \<Rightarrow> (playbook_event \<times> json \<times> string) list op" where
  "get_playbook_events_between E start_ts end_ts =
     db_read E (\<lambda>d. py_sorted (\<lambda>(e, _, _). ev_fired_at e)
       (List.map_filter (join_event d)
         (filter (\<lambda>e. fle start_ts (ev_fired_at e) \<and> fle (ev_fired_at e) end_ts) (tbl_rows (db_playbook_events d)))))"

section \<open>What the operations may change\<close>

text \<open>
  A database operation keeps the accounts, appends to the incident log, and keeps the identifiers
  unique; outside the database it only reads the clock and notes the time of a purge.
\<close>

definition db_step :: "database \<Rightarrow> database \<Rightarrow> bool" where
  "db_step d d' \<longleftrightarrow>
     db_users d' = db_users d \<and> (\<exists>rs. tbl_rows (db_logs d') = tbl_rows (db_logs d) @ rs) \<and>
     (database_ok d \<longrightarrow> database_ok d')"

definition db_effect :: "world \<Rightarrow> world \<Rightarrow> bool" where
  "db_effect s s' \<longleftrightarrow>
     s' = s\<lparr>w_tick := w_tick s', w_io := w_io s', last_purge := last_purge s', w_db := w_db s'\<rparr> \<and>
     db_step (w_db s) (w_db s')"

lemma db_step_refl [simp]: "db_step d d"
  by (simp add: db_step_def)

lemma db_step_trans: "db_step d d' \<Longrightarrow> db_step d' d'' \<Longrightarrow> db_step d d''"
  by (auto simp: db_step_def)

lemma db_effect_trans: "db_effect s t \<Longrightarrow> db_effect t u \<Longrightarrow> db_effect s u"
proof -
  assume st: "db_effect s t" and tu: "db_effect t u"
  have "u = s\<lparr>w_tick := w_tick u, w_io := w_io u, last_purge := last_purge u, w_db := w_db u\<rparr>"
    using st tu unfolding db_effect_def by (cases s; cases t; cases u) simp
  then show ?thesis using st tu db_step_trans by (auto simp: db_effect_def)
qed

interpretation dbe: frame_io db_effect
proof
  show "db_effect s s" for s by (simp add: db_effect_def)
  show "db_effect s t \<Longrightarrow> db_effect t u \<Longrightarrow> db_effect s u" for s t u by (rule db_effect_trans)
qed (simp_all add: db_effect_def)

lemma db_effect_txn: "steps db_effect m \<Longrightarrow> steps db_effect (txn m)"
proof (rule stepsI)
  fix s
  assume m: "steps db_effect m"
  obtain r s' where ms: "m s = (r, s')" by fastforce
  then have e: "db_effect s s'" using m by (blast dest: stepsD2)
  show "db_effect s (snd (txn m s))"
  proof (cases r)
    case (Inl x)
    have "s'\<lparr>w_db := w_db s\<rparr> =
        s\<lparr>w_tick := w_tick s', w_io := w_io s', last_purge := last_purge s', w_db := w_db s\<rparr>"
      using e unfolding db_effect_def by (cases s; cases s') simp
    then show ?thesis using Inl ms by (simp add: txn_def db_effect_def)
  qed (use ms e in \<open>simp add: txn_def\<close>)
qed

lemma db_effect_write: "steps db_effect m \<Longrightarrow> steps db_effect (db_write E x m)"
  unfolding db_write_def by (intro dbe.io_rules db_effect_txn)

lemma db_effect_read: "steps db_effect (db_read E f)"
  unfolding db_read_def by (intro dbe.io_rules)

lemma db_effect_upd:
  "(\<And>t. ids_ok log_id t \<Longrightarrow> ids_ok log_id (f1 t)) \<Longrightarrow> (\<And>t. \<exists>rs. tbl_rows (f1 t) = tbl_rows t @ rs) \<Longrightarrow> steps db_effect (upd_logs f1)"
  "(\<And>t. ids_ok mh_id t \<Longrightarrow> ids_ok mh_id (f2 t)) \<Longrightarrow> steps db_effect (upd_metrics f2)"
  "(\<And>t. ids_ok alr_id t \<Longrightarrow> ids_ok alr_id (f3 t)) \<Longrightarrow> steps db_effect (upd_label_runs f3)"
  "(\<And>t. ids_ok pb_id t \<Longrightarrow> ids_ok pb_id (f4 t)) \<Longrightarrow> steps db_effect (upd_playbooks f4)"
  "(\<And>t. ids_ok run_id t \<Longrightarrow> ids_ok run_id (f5 t)) \<Longrightarrow> steps db_effect (upd_runs f5)"
  "(\<And>t. ids_ok ev_id t \<Longrightarrow> ids_ok ev_id (f6 t)) \<Longrightarrow> steps db_effect (upd_events f6)"
  by (simp_all add: steps_def upd_logs_def upd_metrics_def upd_label_runs_def upd_playbooks_def upd_runs_def
      upd_events_def db_effect_def db_step_def database_ok_def)

lemma trim_metrics_ok: "ids_ok mh_id t \<Longrightarrow> ids_ok mh_id (trim_metrics t)"
  by (auto simp: trim_metrics_def metrics_tbl.ok_delete split: list.split)

lemma run_id_advance [simp]: "run_id (advance_run_row i now r) = run_id r"
  by (simp add: advance_run_row_def split: option.split)

lemma tbl_rows_insert: "tbl_rows (tbl_insert mk t) = tbl_rows t @ [mk (Suc (tbl_seq t))]"
  by (simp add: tbl_insert_def)

lemmas db_upd_rules = db_effect_upd logs_tbl.ok_insert metrics_tbl.ok_insert label_runs_tbl.ok_insert
  playbooks_tbl.ok_insert runs_tbl.ok_insert events_tbl.ok_insert playbooks_tbl.ok_update runs_tbl.ok_update
  playbooks_tbl.ok_delete runs_tbl.ok_delete events_tbl.ok_delete trim_metrics_ok

lemma db_effect_purge: "steps db_effect (purge_metrics_conn E b)"
  unfolding purge_metrics_conn_def
  by (intro dbe.io_rules db_upd_rules) (simp_all add: db_effect_def)

lemma db_effect_ops [step_intros]:
  "steps db_effect (log_incident E ts sip cls victim rate ent)"
  "steps db_effect (record_auto_label_run E ts n)"
  "steps db_effect (log_metrics_history E ts vs victim)"
  "steps db_effect (purge_metrics_history E)"
  "steps db_effect (get_enabled_playbooks_for_host E victim)"
  "steps db_effect (get_active_playbook_run E pid host)"
  "steps db_effect (start_playbook_run E pid host tsrc reason ts)"
  "steps db_effect (get_running_playbook_runs E)"
  "steps db_effect (get_playbook_definition E pid)"
  "steps db_effect (record_playbook_event E pid i ty tsrc detail ts)"
  "steps db_effect (advance_playbook_run E pid nxt ts)"
  "steps db_effect (create_playbook E name sct scv en def ts)"
  "steps db_effect (update_playbook E pid name sct scv en def ts)"
  "steps db_effect (set_playbook_enabled E pid en ts)"
  "steps db_effect (delete_playbook E pid)"
  unfolding log_incident_def record_auto_label_run_def log_metrics_history_def purge_metrics_history_def
    get_enabled_playbooks_for_host_def get_active_playbook_run_def start_playbook_run_def
    get_running_playbook_runs_def get_playbook_definition_def record_playbook_event_def
    advance_playbook_run_def create_playbook_def update_playbook_def set_playbook_enabled_def delete_playbook_def
  by (intro db_effect_write db_effect_read dbe.io_rules db_upd_rules db_effect_purge;
      simp add: tbl_rows_insert)+

text \<open>A part of the database that the statements of a transaction do not change is not changed by it, also when
  it is rolled back.\<close>

lemma keep_db_write:
  assumes "steps (keeps (\<lambda>s. f (w_db s))) m"
  shows "steps (keeps (\<lambda>s. f (w_db s))) (db_write E x m)"
proof -
  have t: "steps (keeps (\<lambda>s. f (w_db s))) (txn m')" if m': "steps (keeps (\<lambda>s. f (w_db s))) m'" for m' :: "'c op"
  proof (rule stepsI)
    fix s
    show "keeps (\<lambda>s. f (w_db s)) s (snd (txn m' s))"
      using stepsD [OF m', of s] by (auto simp: txn_def keeps_def split: prod.split sum.split)
  qed
  have io: "steps (keeps (\<lambda>s. f (w_db s))) (io_check E IO_Db SqlError)"
    by (simp add: steps_def keeps_def io_check_def io_ok_def bnd_def if_app)
  show ?thesis unfolding db_write_def by (intro keep.rules t io assms)
qed

lemma keep_db_read: "steps (keeps (\<lambda>s. f (w_db s))) (db_read E g)"
  by (simp add: steps_def keeps_def db_read_def io_check_def io_ok_def bnd_def if_app)

lemma keep_log_incident:
  assumes "\<And>d t. f (d\<lparr>db_logs := t\<rparr>) = f d"
  shows "steps (keeps (\<lambda>s. f (w_db s))) (log_incident E ts ip cls v r en)"
  unfolding log_incident_def upd_logs_def
  by (intro keep_db_write keep.rules) (simp add: keeps_def assms)

text \<open>Any relation that allows a database step allows every database operation.\<close>

locale frame_db = frame_io +
  assumes db: "db_effect s s' \<Longrightarrow> R s s'"
begin

lemma db_op: "steps db_effect m \<Longrightarrow> steps R m"
  by (erule steps_mono) (rule db)

lemmas db_ops = db_effect_ops [THEN db_op]

end

section \<open>Properties\<close>

text \<open>When the database works, a write does what its statements do.\<close>

lemma db_write_ok:
  assumes "\<forall>n. e_io E n IO_Db" and "m (s\<lparr>w_io := Suc (w_io s)\<rparr>) = (Inr x, s')"
  shows "db_write E y m s = (Inr x, s'\<lparr>w_io := Suc (w_io s')\<rparr>)"
  using assms by (simp add: db_write_def txn_def try_except_def io_check_def io_ok_def bnd_def)

lemma db_write_cases:
  assumes "db_write E y m s = (r, s')"
  obtains (failed) "r = Inr y" "w_db s' = w_db s"
  | (written) x t where "m (s\<lparr>w_io := Suc (w_io s)\<rparr>) = (Inr x, t)" "r = Inr x" "s' = t\<lparr>w_io := Suc (w_io t)\<rparr>"
proof (cases "m (s\<lparr>w_io := Suc (w_io s)\<rparr>)")
  case (Pair q t)
  note w = db_write_def txn_def try_except_def io_check_def io_ok_def bnd_def if_app
  show ?thesis
  proof (cases "\<exists>x. q = Inr x \<and> e_io E (w_io s) IO_Db \<and> e_io E (w_io t) IO_Db")
    case True
    then show ?thesis using that(2) assms Pair by (auto simp: w)
  next
    case False
    then show ?thesis using that(1) assms Pair by (auto simp: w split: if_splits sum.splits)
  qed
qed

lemma filter_mono_suffix:
  "sorted_wrt (\<lambda>r r'. f r < (f r' :: nat)) xs \<Longrightarrow> \<exists>old. xs = old @ filter (\<lambda>r. c < f r) xs \<and> (\<forall>r \<in> set old. f r \<le> c)"
proof (induction xs)
  case (Cons x xs)
  show ?case
  proof (cases "c < f x")
    case True
    then have "filter (\<lambda>r. c < f r) (x # xs) = x # xs" using Cons.prems by (auto simp: filter_id_conv intro: less_trans)
    then show ?thesis by (intro exI [of _ "[]"]) simp
  next
    case False
    obtain old where "xs = old @ filter (\<lambda>r. c < f r) xs" and "\<forall>r \<in> set old. f r \<le> c" using Cons by auto
    then show ?thesis using False by (intro exI [of _ "x # old"]) auto
  qed
qed simp

lemma ids_in_range: "sorted_wrt (\<lambda>r r'. f r < (f r' :: nat)) xs \<Longrightarrow> \<forall>r \<in> set xs. c < f r \<and> f r \<le> c + k \<Longrightarrow> length xs \<le> k"
proof -
  assume s: "sorted_wrt (\<lambda>r r'. f r < f r') xs" and r: "\<forall>r \<in> set xs. c < f r \<and> f r \<le> c + k"
  have "distinct (map f xs)" using s by (induction xs) auto
  then have "length xs = card (set (map f xs))" by (metis distinct_card length_map)
  also have "\<dots> \<le> card {c <.. c + k}" using r by (intro card_mono) auto
  finally show ?thesis by simp
qed

lemma trim_metrics_newest:
  assumes ok: "ids_ok mh_id t"
  shows "\<exists>old. tbl_rows t = old @ tbl_rows (trim_metrics t) \<and> length (tbl_rows (trim_metrics t)) \<le> METRICS_RETENTION_ROWS \<and>
           (\<forall>r \<in> set old. \<exists>r' \<in> set (tbl_rows (trim_metrics t)). mh_id r + METRICS_RETENTION_ROWS \<le> mh_id r')"
proof (cases "tbl_rows t = []")
  case True
  then show ?thesis by (simp add: trim_metrics_def)
next
  case False
  define M where "M = Max (mh_id ` set (tbl_rows t))"
  have srt: "sorted_wrt (\<lambda>r r'. mh_id r < mh_id r') (tbl_rows t)" using ok by (simp add: ids_ok_def)
  have rows: "tbl_rows (trim_metrics t) = filter (\<lambda>r. M < mh_id r + METRICS_RETENTION_ROWS) (tbl_rows t)"
    using False by (auto simp: trim_metrics_def tbl_delete_def M_def not_le split: list.split)
  have M: "M \<in> mh_id ` set (tbl_rows t)" and le: "\<forall>r \<in> set (tbl_rows t). mh_id r \<le> M"
    using False by (auto simp: M_def)
  have newest: "\<exists>r' \<in> set (tbl_rows (trim_metrics t)). mh_id r' = M"
    using M by (auto simp: rows METRICS_RETENTION_ROWS_def)
  obtain old where old: "tbl_rows t = old @ tbl_rows (trim_metrics t)" and ole: "\<forall>r \<in> set old. mh_id r + METRICS_RETENTION_ROWS \<le> M"
    using filter_mono_suffix [of "\<lambda>r. mh_id r + METRICS_RETENTION_ROWS" "tbl_rows t" M] srt
    unfolding rows by auto
  have "length (tbl_rows (trim_metrics t)) \<le> METRICS_RETENTION_ROWS"
  proof (rule ids_in_range [where f = "\<lambda>r. mh_id r + METRICS_RETENTION_ROWS" and c = M])
    show "sorted_wrt (\<lambda>r r'. mh_id r + METRICS_RETENTION_ROWS < mh_id r' + METRICS_RETENTION_ROWS) (tbl_rows (trim_metrics t))"
      using srt unfolding rows by (simp add: sorted_wrt_filter)
  qed (use le in \<open>auto simp: rows\<close>)
  then show ?thesis using old ole newest by blast
qed

text \<open>
  Purging the metrics history keeps exactly the newest rows: what remains is the end of the table, at most
  1000 rows, and a row is only removed when a row at least 1000 identifiers newer exists. Everything else in the
  database is untouched.
\<close>

theorem purge_metrics_history_newest:
  assumes io: "\<forall>n. e_io E n IO_Db" and ok: "database_ok (w_db s)"
    and run: "purge_metrics_history E s = (r, s')"
  defines "new \<equiv> tbl_rows (db_metrics_history (w_db s'))"
  shows "(\<exists>old. tbl_rows (db_metrics_history (w_db s)) = old @ new \<and> length new \<le> 1000 \<and>
           (\<forall>r \<in> set old. \<exists>r' \<in> set new. mh_id r + 1000 \<le> mh_id r')) \<and>
         (w_db s')\<lparr>db_metrics_history := db_metrics_history (w_db s)\<rparr> = w_db s"
proof -
  let ?s1 = "s\<lparr>w_io := Suc (w_io s), w_tick := Suc (w_tick s), last_purge := Some (e_mono E (w_tick s))\<rparr>"
  let ?s2 = "?s1\<lparr>w_db := (w_db s)\<lparr>db_metrics_history := trim_metrics (db_metrics_history (w_db s))\<rparr>\<rparr>"
  have "purge_metrics_conn E True (s\<lparr>w_io := Suc (w_io s)\<rparr>) = (Inr (), ?s2)"
    by (simp add: purge_metrics_conn_def monotonic_def upd_metrics_def py_eval)
  then have s': "s' = ?s2\<lparr>w_io := Suc (w_io ?s2)\<rparr>"
    using run db_write_ok [OF io] unfolding purge_metrics_history_def by (metis snd_conv)
  have "ids_ok mh_id (db_metrics_history (w_db s))" using ok by (simp add: database_ok_def)
  from trim_metrics_newest [OF this] show ?thesis by (simp add: new_def s' METRICS_RETENTION_ROWS_def)
qed

theorem purge_metrics_history_newest_witness:
  "let s' = snd (purge_metrics_history lab_env (init_world (Fin 0)))
   in length (tbl_rows (db_metrics_history (w_db s'))) \<le> 1000"
proof -
  have io: "\<forall>n. e_io lab_env n IO_Db" by (simp add: lab_env_def)
  have ok: "database_ok (w_db (init_world (Fin 0)))" by (simp add: init_world_def database_ok_empty)
  obtain r s' where run: "purge_metrics_history lab_env (init_world (Fin 0)) = (r, s')" by fastforce
  show ?thesis
    using purge_metrics_history_newest [OF io ok run] run
    by (auto simp: Let_def)
qed

lemma delete_events_if:
  "(if ids \<noteq> [] then upd_events (tbl_delete (\<lambda>e. ev_run_id e \<in> set ids)) else ret ()) =
   upd_events (tbl_delete (\<lambda>e. ev_run_id e \<in> set ids))"
  by (rule ext) (simp add: upd_events_def tbl_delete_def)

text \<open>
  Deleting a playbook removes the playbook, every run of it and every event of those runs, reports whether
  the playbook existed, and touches nothing else: other playbooks, their runs and events, the accounts, the
  incident log and the metrics history are unchanged. If the database fails it changes nothing.
\<close>

theorem delete_playbook_exact:
  assumes "delete_playbook E pid s = (r, s')"
  defines "d \<equiv> w_db s" and "d' \<equiv> w_db s'"
  shows "(\<exists>found. r = Inr found \<and>
           (d' = d \<and> \<not> found \<or>
            found = (\<exists>p \<in> set (tbl_rows (db_playbooks d)). pb_id p = pid) \<and>
            tbl_rows (db_playbooks d') = filter (\<lambda>p. pb_id p \<noteq> pid) (tbl_rows (db_playbooks d)) \<and>
            tbl_rows (db_playbook_runs d') = filter (\<lambda>q. run_playbook_id q \<noteq> pid) (tbl_rows (db_playbook_runs d)) \<and>
            tbl_rows (db_playbook_events d') =
              filter (\<lambda>e. \<nexists>q. q \<in> set (tbl_rows (db_playbook_runs d)) \<and> run_playbook_id q = pid \<and> run_id q = ev_run_id e)
                (tbl_rows (db_playbook_events d)) \<and>
            d'\<lparr>db_playbooks := db_playbooks d, db_playbook_runs := db_playbook_runs d,
               db_playbook_events := db_playbook_events d\<rparr> = d))"
  using assms(1) unfolding delete_playbook_def
proof (cases rule: db_write_cases)
  case (written x t)
  have x: "x = playbook_exists pid s" and t: "w_db t = (w_db s)
      \<lparr>db_playbook_events := tbl_delete (\<lambda>e. ev_run_id e \<in> set (runs_of pid s)) (db_playbook_events (w_db s)),
       db_playbook_runs := tbl_delete (\<lambda>r. run_playbook_id r = pid) (db_playbook_runs (w_db s)),
       db_playbooks := tbl_delete (\<lambda>p. pb_id p = pid) (db_playbooks (w_db s))\<rparr>"
    using written(1) unfolding delete_events_if
    by (auto simp: py_eval upd_events_def upd_runs_def upd_playbooks_def runs_of_def playbook_exists_def
        tbl_delete_def)
  have ev: "(ev_run_id e \<in> set (runs_of pid s)) =
      (\<exists>q. q \<in> set (tbl_rows (db_playbook_runs (w_db s))) \<and> run_playbook_id q = pid \<and> run_id q = ev_run_id e)" for e
    unfolding runs_of_def by (auto simp: image_iff)
  show ?thesis
    using written(2,3)
    by (simp add: d_def d'_def x t tbl_delete_def playbook_exists_def list_ex_iff)
      (auto simp: ev intro!: filter_cong)
qed (auto simp: d_def d'_def)

theorem delete_playbook_exact_witness:
  "\<exists>found. fst (delete_playbook lab_env 1 (init_world (Fin 0))) = Inr found"
proof -
  obtain r s' where run: "delete_playbook lab_env 1 (init_world (Fin 0)) = (r, s')" by fastforce
  from delete_playbook_exact [OF run] obtain found where "r = Inr found" by blast
  with run show ?thesis by simp
qed

end
