(* ===== verification/Enforcement.thy ===== *)
theory Enforcement
  imports Db
begin

text \<open>
  \<open>stage2/enforcement.py\<close>: blocks, rate limits and releases through ipset, the iptables rules they rely
  on, the table of attack sources and its reconstruction from the incident log, and reading the kernel
  sets back.

  Every command line is the list of arguments the source passes to \<open>subprocess.run\<close>; what the commands
  answer is a parameter. Addresses and victims are dynamic values, because they may come from JSON files:
  an address that is not a string makes \<open>subprocess.run\<close> raise, and the handlers catch that.
\<close>

section \<open>Attack sources\<close>

definition CLASS_BLOCKED :: string where "CLASS_BLOCKED = ''Blocked''"
definition CLASS_RATELIMITED :: string where "CLASS_RATELIMITED = ''Rate Limited''"
definition CLASS_RATELIMITED_FLASH :: string where "CLASS_RATELIMITED_FLASH = ''Rate Limited (Flash Crowd)''"
definition CLASS_RELEASED :: string where "CLASS_RELEASED = ''Released''"

definition DDOS_CLASSIFICATIONS :: "string list" where
  "DDOS_CLASSIFICATIONS = [CLASS_BLOCKED]"

definition DDOS_SOURCES_MAX :: nat where
  "DDOS_SOURCES_MAX = 4096"

text \<open>A key that cannot be hashed is refused.\<close>

definition check_hash :: "json \<Rightarrow> unit op" where
  "check_hash k = (if hashable k then ret () else raise_exn TypeError)"

text \<open>\<open>int(DDOS_SOURCES_MAX * 0.9)\<close> entries are kept, the newest first.\<close>

definition prune_keep :: nat where
  "prune_keep = (case py_int (fmul (Fin (of_nat DDOS_SOURCES_MAX)) (lit (9 / 10))) of Inr i \<Rightarrow> nat i | Inl _ \<Rightarrow> 0)"

definition prune_sources :: "(json \<times> ddos_source) list \<Rightarrow> (json \<times> ddos_source) list" where
  "prune_sources d =
     (if length d \<le> DDOS_SOURCES_MAX then d
      else take prune_keep (py_sorted (\<lambda>(_, r). fneg (dsrc_timestamp r)) d))"

definition note_source ::
  "json \<Rightarrow> string \<Rightarrow> json \<Rightarrow> pyfloat option \<Rightarrow> pyfloat \<Rightarrow> (json \<times> ddos_source) list \<Rightarrow> (json \<times> ddos_source) list" where
  "note_source ip classification victim_ip src_rate when d =
     (if classification \<notin> set DDOS_CLASSIFICATIONS then AList.delete ip d
      else prune_sources
        (AList.update ip \<lparr>dsrc_victim_ip = victim_ip, dsrc_rate = src_rate, dsrc_timestamp = when,
                          dsrc_action = classification\<rparr> d))"

definition record_ddos_source :: "json \<Rightarrow> string \<Rightarrow> json \<Rightarrow> pyfloat option \<Rightarrow> pyfloat \<Rightarrow> unit op" where
  "record_ddos_source ip classification victim_ip src_rate when =
     bnd (check_hash ip) (\<lambda>_.
     modify (\<lambda>s. s\<lparr>ddos_sources := note_source ip classification victim_ip src_rate when (ddos_sources s)\<rparr>))"

text \<open>The rows of the three enforcement classes, newest first, at most four times the bound.\<close>

definition enforcement_rows :: "database \<Rightarrow> log_row list" where
  "enforcement_rows d =
     take (DDOS_SOURCES_MAX * 4)
       (rev (sort_key log_id
         (filter (\<lambda>r. log_classification r \<in> {CLASS_BLOCKED, CLASS_RATELIMITED, CLASS_RATELIMITED_FLASH})
           (tbl_rows (db_logs d)))))"

fun restore_rows :: "json list \<Rightarrow> log_row list \<Rightarrow> unit op" where
  "restore_rows seen [] = ret ()"
| "restore_rows seen (r # rs) =
     (if log_src_ip r \<in> set seen then restore_rows seen rs
      else bnd (record_ddos_source (log_src_ip r) (log_classification r) (log_dst_ip r) (log_rate r) (log_timestamp r))
             (\<lambda>_. restore_rows (log_src_ip r # seen) rs))"

definition load_ddos_sources :: "env \<Rightarrow> unit op" where
  "load_ddos_sources E =
     bnd (try_except (bnd (db_read E enforcement_rows) (\<lambda>rs. ret (Some rs))) (\<lambda>_. ret None)) (\<lambda>rows.
     case rows of None \<Rightarrow> ret () | Some rs \<Rightarrow> restore_rows [] rs)"

section \<open>The victim\<close>

definition unknown_addrs :: "json set" where
  "unknown_addrs = {JStr ''Unknown'', JStr ''0.0.0.0'', JStr ''::''}"

text \<open>\<open>[v["ip"] for v in victims if v.get("active")]\<close>, then its first element or the first victim.\<close>

fun active_ips :: "json list \<Rightarrow> json list res" where
  "active_ips [] = Inr []"
| "active_ips (v # vs) =
     (case obj_get v ''active'' JNull of
        Inl e \<Rightarrow> Inl e
      | Inr a \<Rightarrow>
          if py_truthy a
          then (case subscript v ''ip'' of
                  Inl e \<Rightarrow> Inl e
                | Inr ip \<Rightarrow> (case active_ips vs of Inl e \<Rightarrow> Inl e | Inr ips \<Rightarrow> Inr (ip # ips)))
          else active_ips vs)"

definition pick_victim :: "json \<Rightarrow> json option res" where
  "pick_victim victims =
     (case iter_list victims of
        Inl e \<Rightarrow> Inl e
      | Inr vs \<Rightarrow>
          (case active_ips vs of
             Inl e \<Rightarrow> Inl e
           | Inr (ip # _) \<Rightarrow> Inr (Some ip)
           | Inr [] \<Rightarrow>
               (case vs of [] \<Rightarrow> Inr None
                | v # _ \<Rightarrow> (case subscript v ''ip'' of Inl e \<Rightarrow> Inl e | Inr ip \<Rightarrow> Inr (Some ip)))))"

text \<open>Reading the victims file; unlike \<^const>\<open>load_json_file\<close> this follows a symbolic link.\<close>

definition read_victims :: "env \<Rightarrow> json option op" where
  "read_victims E =
     bnd (gets (\<lambda>s. w_json s VICTIMS_PATH)) (\<lambda>f.
     if f = JMissing then ret None
     else try_except
       (bnd (io_check E (IO_Json VICTIMS_PATH) OSError) (\<lambda>_.
        case f of
          JVal j \<Rightarrow> lift_res (pick_victim j)
        | JLink j \<Rightarrow> lift_res (pick_victim j)
        | _ \<Rightarrow> raise_exn OSError))
       (\<lambda>_. ret None))"

definition resolve_victim_ip :: "env \<Rightarrow> json \<Rightarrow> json op" where
  "resolve_victim_ip E victim_ip =
     (if py_truthy victim_ip \<and> victim_ip \<notin> unknown_addrs then ret victim_ip
      else bnd (read_victims E) (\<lambda>v.
           case v of
             Some ip \<Rightarrow> ret ip
           | None \<Rightarrow>
               gets (\<lambda>s. case last_metrics_by_target s of [] \<Rightarrow> JStr ''Unknown'' | (k, _) # _ \<Rightarrow> k)))"

section \<open>iptables rules\<close>

definition hashlimit_cmd :: "string \<Rightarrow> string \<Rightarrow> json \<Rightarrow> string list" where
  "hashlimit_cmd op chain pps =
     [''iptables'', op, chain, ''-m'', ''set'', ''--match-set'', ''ddos_ratelimit'', ''src'',
      ''-m'', ''hashlimit'', ''--hashlimit-above'', py_str pps @ ''/sec'', ''--hashlimit-burst'', ''20'',
      ''--hashlimit-name'', ''ddoslimit'', ''--hashlimit-mode'', ''srcip'', ''-j'', ''DROP'']"

definition blocklist_cmd :: "string \<Rightarrow> string \<Rightarrow> string list" where
  "blocklist_cmd op chain =
     [''iptables'', op, chain, ''-m'', ''set'', ''--match-set'', ''ddos_blocklist'', ''src'', ''-j'', ''DROP'']"

definition chains :: "string list" where
  "chains = [''INPUT'', ''FORWARD'']"

text \<open>The pattern of the source: \<open>-C\<close> checks, and the rule is inserted if it is not there.\<close>

definition ensure_rule :: "env \<Rightarrow> (string \<Rightarrow> string list) \<Rightarrow> unit op" where
  "ensure_rule E cmd =
     bnd (run_cmd E (cmd ''-C'')) (\<lambda>check.
     if returncode check \<noteq> 0 then bnd (run_cmd E (cmd ''-I'')) (\<lambda>_. ret ()) else ret ())"

definition ensure_hashlimit_rule :: "env \<Rightarrow> json \<Rightarrow> unit op" where
  "ensure_hashlimit_rule E pps = for_each (\<lambda>chain. ensure_rule E (\<lambda>op. hashlimit_cmd op chain pps)) chains"

definition update_ratelimit_hashlimit :: "env \<Rightarrow> json \<Rightarrow> json \<Rightarrow> unit op" where
  "update_ratelimit_hashlimit E old_pps new_pps =
     (if py_eq old_pps new_pps then ret ()
      else bnd (for_each (\<lambda>chain. bnd (run_cmd E (hashlimit_cmd ''-D'' chain old_pps)) (\<lambda>_. ret ())) chains)
             (\<lambda>_. ensure_hashlimit_rule E new_pps))"

definition create_set_cmd :: "string \<Rightarrow> string list" where
  "create_set_cmd set_name = [''ipset'', ''create'', set_name, ''hash:ip'', ''timeout'', ''3600'']"

definition setup_ipset :: "env \<Rightarrow> unit op" where
  "setup_ipset E =
     try_except
       (bnd (run_cmd E (create_set_cmd ''ddos_blocklist'')) (\<lambda>_.
        bnd (ensure_rule E (\<lambda>op. blocklist_cmd op ''INPUT'')) (\<lambda>_.
        bnd (ensure_rule E (\<lambda>op. blocklist_cmd op ''FORWARD'')) (\<lambda>_.
        bnd (run_cmd E (create_set_cmd ''ddos_ratelimit'')) (\<lambda>_.
        bnd (get_enforcement_config E) (\<lambda>cfg.
        bnd (lift_res (cfg_at cfg ''ratelimit_hashlimit_pps'')) (\<lambda>pps.
        ensure_hashlimit_rule E pps)))))))
       (\<lambda>_. ret ())"

section \<open>Block, rate limit, release\<close>

definition ipset_add :: "env \<Rightarrow> string \<Rightarrow> json \<Rightarrow> json \<Rightarrow> proc op" where
  "ipset_add E set_name ip duration =
     bnd (lift_res (str_arg ip)) (\<lambda>a.
     run_cmd E [''ipset'', ''add'', set_name, a, ''timeout'', py_str duration, ''-exist''])"

definition debounced :: "json \<Rightarrow> pyfloat \<Rightarrow> world \<Rightarrow> bool" where
  "debounced ip now s =
     (case map_of (recently_blocked s) ip of None \<Rightarrow> False | Some t \<Rightarrow> flt (fsub now t) (lit 10))"

definition note_action :: "json \<Rightarrow> pyfloat \<Rightarrow> world \<Rightarrow> world" where
  "note_action ip now s = s\<lparr>recently_blocked := AList.update ip now (recently_blocked s)\<rparr>"

text \<open>\<open>if ip in load_json_file(path, []): ... else: ...\<close>\<close>

definition if_listed :: "env \<Rightarrow> jpath \<Rightarrow> json \<Rightarrow> unit op \<Rightarrow> unit op \<Rightarrow> unit op" where
  "if_listed E p ip yes no =
     bnd (load_json_file E p (JArr [])) (\<lambda>l.
     bnd (lift_res (py_in ip l)) (\<lambda>found. if found then yes else no))"

definition ratelimit_ip ::
  "env \<Rightarrow> json \<Rightarrow> json \<Rightarrow> json \<Rightarrow> pyfloat option \<Rightarrow> string \<Rightarrow> pyfloat option \<Rightarrow> unit op" where
  "ratelimit_ip E ip duration victim_ip src_rate classification entropy =
     bnd (time_time E) (\<lambda>now.
     bnd (check_hash ip) (\<lambda>_.
     bnd (gets (debounced ip now)) (\<lambda>recent.
     if recent then ret ()
     else bnd (resolve_victim_ip E victim_ip) (\<lambda>victim.
       finally_do
         (try_except
            (if_listed E WHITELIST_PATH ip (ret ())
              (bnd (ipset_add E ''ddos_ratelimit'' ip duration) (\<lambda>res.
               if returncode res = 0
               then bnd (get_enforcement_config E) (\<lambda>cfg.
                    bnd (lift_res (cfg_at cfg ''ratelimit_hashlimit_pps'')) (\<lambda>_.
                    bnd (log_incident E now ip classification victim src_rate entropy) (\<lambda>_.
                    record_ddos_source ip classification victim src_rate now)))
               else ret ())))
            (\<lambda>_. ret ()))
         (note_action ip now)))))"

definition block_ip ::
  "env \<Rightarrow> json \<Rightarrow> json \<Rightarrow> json \<Rightarrow> pyfloat option \<Rightarrow> pyfloat option \<Rightarrow> unit op" where
  "block_ip E ip duration victim_ip src_rate entropy =
     bnd (time_time E) (\<lambda>now.
     bnd (check_hash ip) (\<lambda>_.
     bnd (gets (debounced ip now)) (\<lambda>recent.
     if recent then ret ()
     else bnd (resolve_victim_ip E victim_ip) (\<lambda>victim.
       finally_do
         (try_except
            (if_listed E WHITELIST_PATH ip (ret ())
              (if_listed E SHARED_IPS_PATH ip
                (ratelimit_ip E ip duration victim src_rate CLASS_RATELIMITED entropy)
                (bnd (ipset_add E ''ddos_blocklist'' ip duration) (\<lambda>res.
                 if returncode res = 0
                 then bnd (log_incident E now ip CLASS_BLOCKED victim src_rate entropy) (\<lambda>_.
                      record_ddos_source ip CLASS_BLOCKED victim src_rate now)
                 else ret ()))))
            (\<lambda>_. ret ()))
         (note_action ip now)))))"

definition unblock_ip :: "env \<Rightarrow> json \<Rightarrow> json \<Rightarrow> bool op" where
  "unblock_ip E ip victim_ip =
     bnd (resolve_victim_ip E victim_ip) (\<lambda>victim.
     try_except
       (bnd (lift_res (str_arg ip)) (\<lambda>a.
        bnd (run_cmd E [''ipset'', ''del'', ''ddos_blocklist'', a]) (\<lambda>res1.
        bnd (run_cmd E [''ipset'', ''del'', ''ddos_ratelimit'', a]) (\<lambda>res2.
        if returncode res1 = 0 \<or> returncode res2 = 0
        then bnd (time_time E) (\<lambda>now.
             bnd (log_incident E now ip CLASS_RELEASED victim None None) (\<lambda>_. ret True))
        else ret False))))
       (\<lambda>_. ret False))"

section \<open>Reading the kernel sets\<close>

text \<open>The two counters of \<open>ipset list\<close>; a line that does not parse leaves its counter.\<close>

fun maxelem_of :: "string list \<Rightarrow> int option" where
  "maxelem_of [] = None"
| "maxelem_of (p # ps) =
     (if p = ''maxelem''
      then (case ps of [] \<Rightarrow> None | q # _ \<Rightarrow> (case read_int q of Inr n \<Rightarrow> Some n | Inl _ \<Rightarrow> None))
      else maxelem_of ps)"

definition capacity_line :: "string \<Rightarrow> int \<times> int \<Rightarrow> int \<times> int" where
  "capacity_line line acc =
     (case acc of (maxelem, entries) \<Rightarrow>
        if contains_str ''maxelem'' line
        then (case maxelem_of (split_ws line) of None \<Rightarrow> maxelem | Some n \<Rightarrow> n, entries)
        else if starts_with line ''Number of entries:''
        then (maxelem, case read_int (last (split_on (CHR '':'') line)) of Inr n \<Rightarrow> n | Inl _ \<Rightarrow> entries)
        else (maxelem, entries))"

definition ipset_usage :: "string \<Rightarrow> int \<times> int" where
  "ipset_usage out = fold capacity_line (splitlines out) (65536, 0)"

definition check_ipset_capacity :: "env \<Rightarrow> unit op" where
  "check_ipset_capacity E =
     try_except
       (bnd (run_cmd E [''ipset'', ''list'', ''ddos_blocklist'']) (\<lambda>res.
        if returncode res = 0
        then case ipset_usage (stdout res) of (maxelem, entries) \<Rightarrow>
          if 0 < maxelem
          then let usage = fl_round (of_int entries / of_int maxelem);
                   ratio = show_int entries @ ''/'' @ show_int maxelem
               in if \<not> is_finite usage then raise_exn OverflowError
                  else modify (\<lambda>s. s\<lparr>w_log := w_log s @
                    [if flt (lit (80 / 100)) usage
                     then ''[!!!] IPSET CAPACITY ALERT: ddos_blocklist is at '' @ fmt_percent 1 usage @ '' capacity ('' @ ratio @ '' entries). New attackers may fail to block.''
                     else ''[+] ipset capacity status: '' @ ratio @ '' entries ('' @ fmt_percent 1 usage @ '')'']\<rparr>)
          else ret ()
        else ret ()))
       (\<lambda>_. ret ())"

text \<open>The members of a set: the lines after \<open>Members:\<close>, each an address and, if the set has
  timeouts, the seconds left. One timeout that is not a number discards the whole answer.\<close>

fun after_members :: "string list \<Rightarrow> string list option" where
  "after_members [] = None"
| "after_members (l # ls) = (if starts_with l ''Members:'' then Some ls else after_members ls)"

definition member_line :: "string \<Rightarrow> (string \<times> int) option res" where
  "member_line line =
     (case split_ws (strip line) of
        [] \<Rightarrow> Inr None
      | ip # rest \<Rightarrow>
          (case rest of
             t # secs # _ \<Rightarrow>
               if t = ''timeout'' then (case read_int secs of Inl e \<Rightarrow> Inl e | Inr n \<Rightarrow> Inr (Some (ip, n)))
               else Inr (Some (ip, 3600))
           | _ \<Rightarrow> Inr (Some (ip, 3600))))"

fun member_lines :: "string list \<Rightarrow> (string \<times> int) list res" where
  "member_lines [] = Inr []"
| "member_lines (l # ls) =
     (case member_line l of
        Inl e \<Rightarrow> Inl e
      | Inr None \<Rightarrow> member_lines ls
      | Inr (Some m) \<Rightarrow> (case member_lines ls of Inl e \<Rightarrow> Inl e | Inr ms \<Rightarrow> Inr (m # ms)))"

definition parse_members :: "string \<Rightarrow> (string \<times> int) list res" where
  "parse_members out =
     (case after_members (split_on (CHR ''\<newline>'') out) of None \<Rightarrow> Inr [] | Some ls \<Rightarrow> member_lines ls)"

definition get_ipset_members :: "env \<Rightarrow> string \<Rightarrow> (string \<times> int) list op" where
  "get_ipset_members E set_name =
     try_except
       (bnd (run_cmd E [''ipset'', ''list'', set_name]) (\<lambda>res.
        if returncode res \<noteq> 0 then ret [] else lift_res (parse_members (stdout res))))
       (\<lambda>_. ret [])"

definition get_blocked_ips :: "env \<Rightarrow> (string \<times> int) list op" where
  "get_blocked_ips E = get_ipset_members E ''ddos_blocklist''"

definition get_ratelimited_ips :: "env \<Rightarrow> (string \<times> int) list op" where
  "get_ratelimited_ips E = get_ipset_members E ''ddos_ratelimit''"

section \<open>What an action may change\<close>

text \<open>\<open>listed s p ip\<close>: the readable list at \<open>p\<close> contains the address.\<close>

definition listed :: "world \<Rightarrow> jpath \<Rightarrow> string \<Rightarrow> bool" where
  "listed s p ip \<longleftrightarrow> (\<exists>j. w_json s p = JVal j \<and> py_in (JStr ip) j = Inr True)"

text \<open>A command respects the lists: it does not block an address of the whitelist or of the shared
  addresses, and does not rate-limit one of the whitelist.\<close>

definition adds_to :: "string \<Rightarrow> string list \<Rightarrow> string option" where
  "adds_to set_name c =
     (case c of prog # verb # n # ip # _ \<Rightarrow>
        if prog = ''ipset'' \<and> verb = ''add'' \<and> n = set_name then Some ip else None
      | _ \<Rightarrow> None)"

definition respects_lists :: "world \<Rightarrow> string list \<Rightarrow> bool" where
  "respects_lists s c \<longleftrightarrow>
     (\<forall>ip. adds_to ''ddos_blocklist'' c = Some ip \<longrightarrow> \<not> listed s WHITELIST_PATH ip \<and> \<not> listed s SHARED_IPS_PATH ip) \<and>
     (\<forall>ip. adds_to ''ddos_ratelimit'' c = Some ip \<longrightarrow> \<not> listed s WHITELIST_PATH ip)"

definition enf_frame :: "world \<Rightarrow> world \<Rightarrow> bool" where
  "enf_frame s s' \<longleftrightarrow>
     s' = s\<lparr>w_tick := w_tick s', w_io := w_io s', w_cmds := w_cmds s', w_json := w_json s', w_tmp := w_tmp s',
            w_db := w_db s', last_purge := last_purge s', recently_blocked := recently_blocked s',
            ddos_sources := ddos_sources s'\<rparr>"

definition enf_step :: "world \<Rightarrow> world \<Rightarrow> bool" where
  "enf_step s s' \<longleftrightarrow>
     enf_frame s s' \<and> (\<forall>p. w_json s p \<noteq> JMissing \<longrightarrow> w_json s' p = w_json s p) \<and> db_step (w_db s) (w_db s') \<and>
     (\<exists>cs. w_cmds s' = w_cmds s @ cs \<and> (\<forall>c \<in> set cs. respects_lists s c))"

lemma enf_frame_trans: "enf_frame s t \<Longrightarrow> enf_frame t u \<Longrightarrow> enf_frame s u"
  unfolding enf_frame_def by (cases s; cases t; cases u) simp

lemma listed_kept: "(\<And>p. w_json s p \<noteq> JMissing \<Longrightarrow> w_json t p = w_json s p) \<Longrightarrow> listed s p ip \<Longrightarrow> listed t p ip"
  unfolding listed_def by (metis jfile.distinct(5))

lemma respects_lists_mono:
  "(\<And>p. w_json s p \<noteq> JMissing \<Longrightarrow> w_json t p = w_json s p) \<Longrightarrow> respects_lists t c \<Longrightarrow> respects_lists s c"
  unfolding respects_lists_def using listed_kept by blast

lemma enf_step_trans:
  assumes st: "enf_step s t" and tu: "enf_step t u"
  shows "enf_step s u"
proof -
  have files: "w_json s p \<noteq> JMissing \<Longrightarrow> w_json t p = w_json s p" for p using st by (simp add: enf_step_def)
  have files': "w_json t p \<noteq> JMissing \<Longrightarrow> w_json u p = w_json t p" for p using tu by (simp add: enf_step_def)
  obtain cs ds where cs: "w_cmds t = w_cmds s @ cs" "\<forall>c \<in> set cs. respects_lists s c"
    and ds: "w_cmds u = w_cmds t @ ds" "\<forall>c \<in> set ds. respects_lists t c"
    using st tu by (auto simp: enf_step_def)
  have "w_cmds u = w_cmds s @ (cs @ ds)" "\<forall>c \<in> set (cs @ ds). respects_lists s c"
    using cs ds respects_lists_mono [of s t, OF files] by auto
  moreover have "enf_frame s u" using st tu enf_frame_trans by (auto simp: enf_step_def)
  moreover have "db_step (w_db s) (w_db u)" using st tu db_step_trans by (auto simp: enf_step_def)
  moreover have "\<forall>p. w_json s p \<noteq> JMissing \<longrightarrow> w_json u p = w_json s p" using files files' by metis
  ultimately show ?thesis unfolding enf_step_def by blast
qed

interpretation enf: frame_db enf_step
proof
  show "enf_step s t \<Longrightarrow> enf_step t u \<Longrightarrow> enf_step s u" for s t u by (rule enf_step_trans)
  show "enf_step s s'" if "db_effect s s'" for s s'
  proof -
    have "enf_frame s s'" using that unfolding db_effect_def enf_frame_def by (cases s; cases s') simp
    moreover have "w_json s' = w_json s" "w_cmds s' = w_cmds s"
      using that unfolding db_effect_def by (cases s; cases s'; simp)+
    ultimately show ?thesis using that by (simp add: enf_step_def db_effect_def)
  qed
qed (simp_all add: enf_step_def enf_frame_def)

interpretation enf: frame_load enf_step
  by unfold_locales (simp_all add: enf_step_def enf_frame_def)


lemma enf_cmd: "(\<And>s. respects_lists s c) \<Longrightarrow> steps enf_step (run_cmd E c)"
  by (simp add: steps_def run_cmd_def enf_step_def enf_frame_def)

lemma adds_to_none [simp]:
  "adds_to n (''iptables'' # c) = None" "adds_to n (''ipset'' # ''create'' # c) = None"
  "adds_to n (''ipset'' # ''del'' # c) = None" "adds_to n (''ipset'' # ''list'' # c) = None"
  by (auto simp: adds_to_def split: list.split)

lemma enf_note_source: "steps enf_step (record_ddos_source ip cls v r w)"
  unfolding record_ddos_source_def check_hash_def
  by (intro enf.rules) (simp add: enf_step_def enf_frame_def)

lemma enf_read_victims: "steps enf_step (read_victims E)"
proof -
  have "steps enf_step (case f of JVal j \<Rightarrow> lift_res (pick_victim j) | JLink j \<Rightarrow> lift_res (pick_victim j)
      | _ \<Rightarrow> raise_exn OSError)" for f
    by (cases f) (auto intro: enf.rules)
  then show ?thesis unfolding read_victims_def by (intro enf.io_rules)
qed

lemma enf_resolve: "steps enf_step (resolve_victim_ip E v)"
  unfolding resolve_victim_ip_def by (intro enf.rules enf_read_victims)

lemma enf_note_action: "enf_step s (note_action ip now s)"
  by (simp add: enf_step_def enf_frame_def note_action_def)

lemma enf_check_hash: "steps enf_step (check_hash ip)"
  unfolding check_hash_def by (intro enf.rules)

text \<open>The reads of the two lists: what was not found there is not listed.\<close>

lemma load_list_unlisted:
  assumes "\<forall>n. e_io E n (IO_Json p)" and "load_json_file E p (JArr []) s = (Inr wl, t)"
    and "py_in (JStr ip) wl \<noteq> Inr True"
  shows "\<not> listed t p ip"
proof (cases "w_json s p")
  case JMissing
  with assms show ?thesis
    by (auto simp: load_json_file_eq Let_def listed_def atomic_write_eq split: if_splits)
next
  case (JVal j)
  with assms show ?thesis by (auto simp: load_json_file_eq Let_def listed_def)
qed (use assms in \<open>auto simp: load_json_file_eq Let_def listed_def\<close>)


lemma bnd_at:
  "enf_step s (snd (m s)) \<Longrightarrow> (\<And>x t. m s = (Inr x, t) \<Longrightarrow> enf_step t (snd (f x t))) \<Longrightarrow> enf_step s (snd (bnd m f s))"
  by (cases "m s") (auto simp: bnd_def intro: enf_step_trans split: sum.split)

text \<open>The lists can be read whenever they are asked for.\<close>

definition lists_readable :: "env \<Rightarrow> bool" where
  "lists_readable E \<longleftrightarrow> (\<forall>n. e_io E n (IO_Json WHITELIST_PATH) \<and> e_io E n (IO_Json SHARED_IPS_PATH))"

lemma ipset_add_at:
  assumes "\<And>a. ip = JStr a \<Longrightarrow> respects_lists s [''ipset'', ''add'', n, a, ''timeout'', py_str d, ''-exist'']"
  shows "enf_step s (snd (ipset_add E n ip d s))"
  using assms
  by (cases ip) (simp_all add: ipset_add_def str_arg_def bnd_def lift_res_def run_cmd_def enf_step_def enf_frame_def)

lemma respects_ratelimit: "\<not> listed s WHITELIST_PATH a \<Longrightarrow> respects_lists s (''ipset'' # ''add'' # ''ddos_ratelimit'' # a # r)"
  by (simp add: respects_lists_def adds_to_def)

lemma respects_block:
  "\<not> listed s WHITELIST_PATH a \<Longrightarrow> \<not> listed s SHARED_IPS_PATH a \<Longrightarrow> respects_lists s (''ipset'' # ''add'' # ''ddos_blocklist'' # a # r)"
  by (simp add: respects_lists_def adds_to_def)

lemma load_keeps_other: "load_json_file E q d s = (r, t) \<Longrightarrow> p \<noteq> q \<Longrightarrow> listed t p ip = listed s p ip"
  by (cases rule: load_json_file_cases [of E q d s]) (auto simp: listed_def)

lemma if_listed_at:
  assumes io: "\<forall>n. e_io E n (IO_Json p)" and yes: "steps enf_step yes"
    and no: "\<And>t. (\<And>a. ip = JStr a \<Longrightarrow> \<not> listed t p a) \<Longrightarrow> (\<And>q a. q \<noteq> p \<Longrightarrow> listed t q a = listed s q a) \<Longrightarrow>
                 enf_step t (snd (no t))"
  shows "enf_step s (snd (if_listed E p ip yes no s))"
  unfolding if_listed_def
proof (rule bnd_at)
  fix l t
  assume l: "load_json_file E p (JArr []) s = (Inr l, t)"
  show "enf_step t (snd (bnd (lift_res (py_in ip l)) (\<lambda>found. if found then yes else no) t))"
  proof (cases "py_in ip l")
    case (Inr found)
    have "enf_step t (snd (no t))" if "\<not> found"
      by (rule no) (use load_list_unlisted [OF io l] load_keeps_other [OF l] Inr that in auto)
    then show ?thesis using Inr stepsD [OF yes] by simp
  qed (simp add: bnd_def enf.refl)
qed (rule stepsD [OF enf.load_json_file])

lemma enf_ratelimit:
  assumes "lists_readable E"
  shows "steps enf_step (ratelimit_ip E ip d v r cls en)"
proof -
  have "steps enf_step (if_listed E WHITELIST_PATH ip (ret ()) (bnd (ipset_add E ''ddos_ratelimit'' ip d) k))"
    if k: "\<And>res. steps enf_step (k res)" for k :: "proc \<Rightarrow> unit op"
    by (rule stepsI, rule if_listed_at, use assms in \<open>simp add: lists_readable_def\<close>, rule enf.ret,
        rule bnd_at, rule ipset_add_at) (use stepsD [OF k] respects_ratelimit in auto)
  note guarded = this
  show ?thesis
    unfolding ratelimit_ip_def
    by (intro enf.io_rules enf_check_hash enf_resolve enf_note_action guarded enf.get_enforcement_config
        enf.db_ops enf_note_source)
qed

lemma enf_block:
  assumes "lists_readable E"
  shows "steps enf_step (block_ip E ip d v r en)"
proof -
  have io: "\<forall>n. e_io E n (IO_Json WHITELIST_PATH)" "\<forall>n. e_io E n (IO_Json SHARED_IPS_PATH)"
    using assms by (auto simp: lists_readable_def)
  have "steps enf_step (if_listed E WHITELIST_PATH ip (ret ())
      (if_listed E SHARED_IPS_PATH ip rl (bnd (ipset_add E ''ddos_blocklist'' ip d) k)))"
    if rl: "steps enf_step rl" and k: "\<And>res. steps enf_step (k res)" for rl and k :: "proc \<Rightarrow> unit op"
    by (rule stepsI, rule if_listed_at [OF io(1) enf.ret], rule if_listed_at [OF io(2) rl],
        rule bnd_at, rule ipset_add_at) (use stepsD [OF k] respects_block in auto)
  note guarded = this
  show ?thesis
    unfolding block_ip_def
    by (intro enf.io_rules enf_check_hash enf_resolve enf_note_action guarded enf_ratelimit assms
        enf.db_ops enf_note_source)
qed

lemma enf_unblock: "steps enf_step (unblock_ip E ip v)"
  unfolding unblock_ip_def
  by (intro enf.io_rules enf_resolve enf_cmd enf.db_ops) (simp_all add: respects_lists_def)

lemma enf_ensure_rule:
  "(\<And>op n. adds_to n (cmd op) = None) \<Longrightarrow> steps enf_step (ensure_rule E cmd)"
  unfolding ensure_rule_def by (intro enf.io_rules enf_cmd) (simp_all add: respects_lists_def)

lemma enf_hashlimit:
  "steps enf_step (ensure_hashlimit_rule E pps)" "steps enf_step (update_ratelimit_hashlimit E old new)"
  "steps enf_step (setup_ipset E)"
  unfolding ensure_hashlimit_rule_def update_ratelimit_hashlimit_def setup_ipset_def
  by (intro enf.io_rules enf.for_each enf_ensure_rule enf_cmd enf.get_enforcement_config;
      simp add: respects_lists_def hashlimit_cmd_def blocklist_cmd_def create_set_cmd_def)+

lemma enf_members: "steps enf_step (get_ipset_members E n)"
  unfolding get_ipset_members_def by (intro enf.io_rules enf_cmd) (simp add: respects_lists_def)

section \<open>Relations that an action preserves\<close>

definition known_victim :: "json \<Rightarrow> bool" where
  "known_victim v \<longleftrightarrow> py_truthy v \<and> v \<notin> unknown_addrs"

lemma resolve_known: "known_victim v \<Longrightarrow> resolve_victim_ip E v = ret v"
  by (simp add: known_victim_def resolve_victim_ip_def)

text \<open>Resolving the victim and reading a list stay within every relation that allows them.\<close>

context frame_io
begin

lemma check_hash: "steps R (check_hash ip)"
  unfolding check_hash_def by (intro rules)

lemma read_victims: "steps R (read_victims E)"
proof -
  have "steps R (case f of JVal j \<Rightarrow> lift_res (pick_victim j) | JLink j \<Rightarrow> lift_res (pick_victim j) | _ \<Rightarrow> raise_exn OSError)" for f
    by (cases f) (auto intro: rules)
  then show ?thesis unfolding read_victims_def by (intro io_rules)
qed

lemma resolve_victim_ip: "steps R (resolve_victim_ip E v)"
  unfolding resolve_victim_ip_def by (intro rules read_victims)

end

context frame_load
begin

lemma if_listed: "steps R yes \<Longrightarrow> steps R no \<Longrightarrow> steps R (if_listed E p ip yes no)"
  unfolding if_listed_def by (intro rules load_json_file)

end

locale frame_enf = frame_load +
  assumes cmds: "R s (s\<lparr>w_cmds := w_cmds s @ [c]\<rparr>)"
    and recent: "R s (s\<lparr>recently_blocked := m\<rparr>)"
begin

lemma run_cmd: "steps R (run_cmd E c)"
  by (simp add: steps_def run_cmd_def cmds)

lemma ipset_add: "steps R (ipset_add E n ip d)"
  unfolding ipset_add_def by (intro rules run_cmd)

lemma note_action: "R s (note_action ip now s)"
  by (simp add: note_action_def recent)

lemmas enf_rules = io_rules ipset_add check_hash note_action if_listed get_enforcement_config

lemma ratelimit_known:
  assumes "known_victim v"
    and "\<And>n. steps R (bnd (log_incident E (e_clock E n) ip cls v r en) (\<lambda>_. record_ddos_source ip cls v r (e_clock E n)))"
  shows "steps R (ratelimit_ip E ip d v r cls en)"
  unfolding ratelimit_ip_def resolve_known [OF assms(1)] bnd_ret
  by (intro time_time_bnd enf_rules assms(2))

lemma block_known:
  assumes "known_victim v"
    and "\<And>n cls. cls \<in> {CLASS_BLOCKED, CLASS_RATELIMITED} \<Longrightarrow>
           steps R (bnd (log_incident E (e_clock E n) ip cls v r en) (\<lambda>_. record_ddos_source ip cls v r (e_clock E n)))"
  shows "steps R (block_ip E ip d v r en)"
  unfolding block_ip_def resolve_known [OF assms(1)] bnd_ret
  by (intro time_time_bnd enf_rules ratelimit_known assms(1) assms(2)) simp_all

end

text \<open>The relations that also allow the incident log to be written and the table of sources to change.\<close>

locale frame_act = frame_enf +
  assumes incident: "steps R (log_incident E ts ip cls v r en)"
    and sources: "R s (s\<lparr>ddos_sources := d\<rparr>)"
begin

lemma record_ddos_source: "steps R (record_ddos_source ip cls v r w)"
  unfolding record_ddos_source_def by (intro rules check_hash) (rule sources)

lemma ratelimit_ip: "steps R (ratelimit_ip E ip d v r cls en)"
  unfolding ratelimit_ip_def by (intro enf_rules resolve_victim_ip incident record_ddos_source)

lemma block_ip: "steps R (block_ip E ip d v r en)"
  unfolding block_ip_def by (intro enf_rules resolve_victim_ip incident record_ddos_source ratelimit_ip)

lemma unblock_ip: "steps R (unblock_ip E ip v)"
  unfolding unblock_ip_def by (intro io_rules resolve_victim_ip run_cmd incident)

end

end
