(* ===== verification/Alerts.thy ===== *)
theory Alerts
  imports Enforcement
begin

text \<open>
  \<open>stage2/alerts.py\<close>: the bounded queue between the receive loop and the alert worker, the four
  channels, what the dashboard is shown of the alert settings, and the redaction of credentials from
  error texts.

  A request to a service is recorded in the state when it is attempted, and its answer is a parameter:
  the n-th attempt gets the n-th answer. The regular expressions and \<open>str.replace\<close> are written out as
  scanners. The text of an exception is a parameter.
\<close>

section \<open>Redaction\<close>

definition token_char :: "char \<Rightarrow> bool" where
  "token_char c =
     (is_digit c \<or> (let n = of_char c :: nat in 65 \<le> n \<and> n \<le> 90 \<or> 97 \<le> n \<and> n \<le> 122) \<or> c = CHR ''_'' \<or> c = CHR ''-'')"

text \<open>The length of a match of \<open>prefix\d+sep[A-Za-z0-9_-]+\<close> at the start of the text; the
  classes around the separator exclude it, so greedy matching needs no backtracking.\<close>

definition token_match :: "string \<Rightarrow> char \<Rightarrow> string \<Rightarrow> nat option" where
  "token_match pre sep s =
     (if \<not> starts_with s pre then None
      else let r = drop (length pre) s; ds = takeWhile is_digit r; r' = drop (length ds) r
           in if ds = [] then None
              else case r' of
                c # r'' \<Rightarrow>
                  if c = sep \<and> takeWhile token_char r'' \<noteq> []
                  then Some (length pre + length ds + 1 + length (takeWhile token_char r''))
                  else None
              | [] \<Rightarrow> None)"

text \<open>\<open>re.sub\<close> and \<open>str.replace\<close>: matches from left to right, not overlapping. A match is a
  positive length.\<close>

function sub_matches :: "(string \<Rightarrow> nat option) \<Rightarrow> string \<Rightarrow> string \<Rightarrow> string" where
  "sub_matches f new [] = []"
| "sub_matches f new (c # cs) =
     (case f (c # cs) of
        None \<Rightarrow> c # sub_matches f new cs
      | Some n \<Rightarrow> new @ sub_matches f new (drop (max 1 n) (c # cs)))"
  by pat_completeness auto
termination by (relation "measure (\<lambda>(f, new, s). length s)") auto

definition literal_match :: "string \<Rightarrow> string \<Rightarrow> nat option" where
  "literal_match old s = (if starts_with s old then Some (length old) else None)"

definition str_replace :: "string \<Rightarrow> string \<Rightarrow> string \<Rightarrow> string" where
  "str_replace old new s = sub_matches (literal_match old) new s"

definition webhook_path_sub :: "string \<Rightarrow> string" where
  "webhook_path_sub = sub_matches (token_match ''/api/webhooks/'' (CHR ''/'')) ''/api/webhooks/REDACTED''"

definition telegram_token_sub :: "string \<Rightarrow> string" where
  "telegram_token_sub = sub_matches (token_match ''bot'' (CHR '':'')) ''botREDACTED''"

text \<open>\<open>text.replace(secret, "REDACTED")\<close> unless the setting is empty; a setting that is neither empty
  nor a string makes \<open>replace\<close> raise.\<close>

definition redact_value :: "json \<Rightarrow> string \<Rightarrow> string res" where
  "redact_value v text =
     (if \<not> py_truthy v then Inr text
      else case v of JStr s \<Rightarrow> Inr (str_replace s ''REDACTED'' text) | _ \<Rightarrow> Inl TypeError)"

fun redact_values :: "json list \<Rightarrow> string \<Rightarrow> string res" where
  "redact_values [] text = Inr text"
| "redact_values (v # vs) text = (case redact_value v text of Inl e \<Rightarrow> Inl e | Inr t \<Rightarrow> redact_values vs t)"

definition header_values :: "json \<Rightarrow> json list res" where
  "header_values h =
     (if \<not> py_truthy h then Inr [] else case h of JObj d \<Rightarrow> Inr (map snd d) | _ \<Rightarrow> Inl AttributeError)"

definition redact_secrets :: "string \<Rightarrow> dict \<Rightarrow> string res" where
  "redact_secrets text cfg =
     (let t = telegram_token_sub (webhook_path_sub text);
          get = (\<lambda>k. dict_get cfg k JNull)
      in case redact_values [get ''smtp_app_password'', get ''smtp_username'', get ''webhook_url''] t of
           Inl e \<Rightarrow> Inl e
         | Inr t \<Rightarrow> (case header_values (get ''webhook_headers'') of Inl e \<Rightarrow> Inl e | Inr vs \<Rightarrow> redact_values vs t))"

section \<open>Reporting a channel once\<close>

definition report_failure :: "string \<Rightarrow> string \<Rightarrow> unit op" where
  "report_failure channel message =
     bnd (gets (\<lambda>s. map_of (reported_down s) channel)) (\<lambda>d.
     case d of
       None \<Rightarrow> raise_exn KeyError
     | Some down \<Rightarrow>
         if \<not> down
         then modify (\<lambda>s. s\<lparr>w_log := w_log s @ [''[-] '' @ message], reported_down := AList.update channel True (reported_down s)\<rparr>)
         else ret ())"

definition capitalize :: "string \<Rightarrow> string" where
  "capitalize s =
     (let up = (\<lambda>c. let n = of_char c :: nat in if 97 \<le> n \<and> n \<le> 122 then char_of (n - 32) else c);
          low = (\<lambda>c. let n = of_char c :: nat in if 65 \<le> n \<and> n \<le> 90 then char_of (n + 32) else c)
      in case s of [] \<Rightarrow> [] | c # cs \<Rightarrow> up c # map low cs)"

definition report_recovered :: "string \<Rightarrow> unit op" where
  "report_recovered channel =
     bnd (gets (\<lambda>s. map_of (reported_down s) channel)) (\<lambda>d.
     case d of
       None \<Rightarrow> raise_exn KeyError
     | Some down \<Rightarrow>
         if down
         then modify (\<lambda>s. s\<lparr>w_log := w_log s @ [''[+] '' @ capitalize channel @ '' alerts are working again.''],
                            reported_down := AList.update channel False (reported_down s)\<rparr>)
         else ret ())"

section \<open>Channels\<close>

text \<open>One request: it is recorded, and the answer follows. The checks on the answer and the handler of an
  exception are shared by the channels: the response text is cut to 200 characters and redacted.\<close>

definition send_request :: "env \<Rightarrow> outgoing \<Rightarrow> http_response op" where
  "send_request E m s = (e_send E (length (w_sent s)), s\<lparr>w_sent := w_sent s @ [m]\<rparr>)"

definition on_exception :: "env \<Rightarrow> dict \<Rightarrow> string \<Rightarrow> string \<Rightarrow> py_exn \<Rightarrow> (bool \<times> string) op" where
  "on_exception E cfg channel what e =
     bnd (lift_res (redact_secrets (e_exn_text E e) cfg)) (\<lambda>err.
     bnd (report_failure channel (what @ err)) (\<lambda>_. ret (False, err)))"

definition post_alert :: "env \<Rightarrow> dict \<Rightarrow> string \<Rightarrow> string \<Rightarrow> string \<Rightarrow> outgoing \<Rightarrow> (bool \<times> string) op" where
  "post_alert E cfg channel answered what m =
     try_except
       (bnd (send_request E m) (\<lambda>resp.
        if 300 \<le> status_code resp
        then bnd (lift_res (redact_secrets (take 200 (resp_text resp)) cfg)) (\<lambda>body.
             let err = answered @ show_int (status_code resp)
             in bnd (report_failure channel (err @ '': '' @ body)) (\<lambda>_. ret (False, err)))
        else bnd (report_recovered channel) (\<lambda>_. ret (True, []))))
       (on_exception E cfg channel what)"

text \<open>\<open>not cfg[k1] or not cfg[k2] or ...\<close>, negated: the settings are read in order up to the first
  one that is empty.\<close>

primrec cfg_all :: "dict \<Rightarrow> string list \<Rightarrow> bool res" where
  "cfg_all cfg [] = Inr True"
| "cfg_all cfg (k # ks) = (case cfg_at cfg k of Inl e \<Rightarrow> Inl e | Inr v \<Rightarrow> if py_truthy v then cfg_all cfg ks else Inr False)"

definition send_discord_alert :: "env \<Rightarrow> string \<Rightarrow> (bool \<times> string) op" where
  "send_discord_alert E message =
     bnd (get_alerts_config E) (\<lambda>cfg.
     bnd (lift_res (cfg_all cfg [''discord_enabled'', ''discord_webhook_url''])) (\<lambda>on.
     if \<not> on then ret (False, ''Discord alerts are not enabled/configured.'')
     else post_alert E cfg ''discord'' ''Discord webhook returned HTTP '' ''Failed to send Discord alert: ''
            (Discord (dict_get cfg ''discord_webhook_url'' JNull) message)))"

text \<open>\<open>", ".join(recipients)\<close> raises unless every recipient is a string.\<close>

definition check_recipients :: "json \<Rightarrow> unit res" where
  "check_recipients r =
     (case iter_list r of Inl e \<Rightarrow> Inl e
      | Inr xs \<Rightarrow> if list_all (\<lambda>x. case x of JStr _ \<Rightarrow> True | _ \<Rightarrow> False) xs then Inr () else Inl TypeError)"

text \<open>Connecting, \<open>starttls\<close>, \<open>login\<close> and \<open>sendmail\<close> are one request.\<close>

definition smtp_send :: "env \<Rightarrow> dict \<Rightarrow> string \<Rightarrow> string \<Rightarrow> (bool \<times> string) op" where
  "smtp_send E cfg subject body =
     bnd (lift_res (cfg_at cfg ''smtp_username'')) (\<lambda>user.
     bnd (lift_res (cfg_at cfg ''email_recipients'')) (\<lambda>recipients.
     bnd (lift_res (check_recipients recipients)) (\<lambda>_.
     bnd (lift_res (cfg_at cfg ''smtp_host'')) (\<lambda>host.
     bnd (lift_res (cfg_at cfg ''smtp_port'')) (\<lambda>port.
     bnd (send_request E (Email host port user recipients subject body)) (\<lambda>_.
     bnd (report_recovered ''email'') (\<lambda>_. ret (True, []))))))))"

definition send_email_alert :: "env \<Rightarrow> string \<Rightarrow> string \<Rightarrow> (bool \<times> string) op" where
  "send_email_alert E subject body =
     bnd (get_alerts_config E) (\<lambda>cfg.
     bnd (lift_res (cfg_all cfg [''email_enabled'', ''smtp_username'', ''smtp_app_password'', ''email_recipients''])) (\<lambda>on.
     if \<not> on then ret (False, ''Email alerts are not enabled/fully configured.'')
     else try_except (smtp_send E cfg subject body) (on_exception E cfg ''email'' ''Failed to send email alert: '')))"

definition send_telegram_alert :: "env \<Rightarrow> string \<Rightarrow> (bool \<times> string) op" where
  "send_telegram_alert E message =
     bnd (get_alerts_config E) (\<lambda>cfg.
     bnd (lift_res (cfg_at cfg ''telegram_bot_token'')) (\<lambda>token.
     bnd (lift_res (cfg_at cfg ''telegram_chat_id'')) (\<lambda>chat_id.
     bnd (lift_res (cfg_all cfg [''telegram_enabled'', ''telegram_bot_token'', ''telegram_chat_id''])) (\<lambda>on.
     if \<not> on then ret (False, ''Telegram alerts are not enabled/configured.'')
     else post_alert E cfg ''telegram'' ''Telegram API returned HTTP '' ''Failed to send Telegram alert: ''
            (Telegram token chat_id message)))))"

definition send_webhook_alert :: "env \<Rightarrow> string \<Rightarrow> string \<Rightarrow> (bool \<times> string) op" where
  "send_webhook_alert E subject message =
     bnd (get_alerts_config E) (\<lambda>cfg.
     bnd (lift_res (cfg_at cfg ''webhook_url'')) (\<lambda>url.
     bnd (lift_res (cfg_all cfg [''webhook_enabled'', ''webhook_url''])) (\<lambda>on.
     if \<not> on then ret (False, ''Webhook alerts are not enabled/configured.'')
     else let h = dict_get cfg ''webhook_headers'' JNull
          in post_alert E cfg ''webhook'' ''Webhook returned HTTP '' ''Failed to send webhook alert: ''
               (Webhook url (if py_truthy h then h else JObj []) subject message))))"

section \<open>The queue\<close>

definition ALERT_CHANNELS :: "string list" where
  "ALERT_CHANNELS = [''discord'', ''email'', ''telegram'', ''webhook'', ''all'']"

definition ALERT_QUEUE_MAX :: nat where
  "ALERT_QUEUE_MAX = 100"

definition dispatch_alert :: "string \<Rightarrow> string \<Rightarrow> string \<Rightarrow> unit op" where
  "dispatch_alert subject message channel =
     modify (\<lambda>s.
       let ch = (if channel \<notin> set ALERT_CHANNELS then ''all'' else channel)
       in if length (alert_queue s) < ALERT_QUEUE_MAX
          then s\<lparr>alert_queue := alert_queue s @ [(subject, message, ch)]\<rparr>
          else s\<lparr>w_log := w_log s @ [''[!] Alert queue full, dropping alert: '' @ subject]\<rparr>)"

definition process_alert :: "env \<Rightarrow> string \<Rightarrow> string \<Rightarrow> string \<Rightarrow> unit op" where
  "process_alert E subject message channel =
     (let on = (\<lambda>c m. if channel \<in> {c, ''all''} then bnd m (\<lambda>_. ret ()) else ret ())
      in bnd (on ''discord'' (send_discord_alert E (''**'' @ subject @ ''**\<newline>'' @ message))) (\<lambda>_.
         bnd (on ''email'' (send_email_alert E subject message)) (\<lambda>_.
         bnd (on ''telegram'' (send_telegram_alert E (subject @ ''\<newline>\<newline>'' @ message))) (\<lambda>_.
         on ''webhook'' (send_webhook_alert E subject message)))))"

text \<open>One turn of the worker: the oldest alert is taken out, then delivered. On an empty queue the thread
  waits, which is the turn not happening.\<close>

definition alert_worker_step :: "env \<Rightarrow> unit op" where
  "alert_worker_step E =
     bnd (gets alert_queue) (\<lambda>q.
     case q of
       [] \<Rightarrow> ret ()
     | (subject, message, channel) # rest \<Rightarrow>
         bnd (modify (\<lambda>s. s\<lparr>alert_queue := rest\<rparr>)) (\<lambda>_. process_alert E subject message channel))"

text \<open>The loop of the worker thread, for a number of turns; an exception ends the thread.\<close>

primrec worker_turns :: "env \<Rightarrow> nat \<Rightarrow> unit op" where
  "worker_turns E 0 = ret ()"
| "worker_turns E (Suc n) = bnd (alert_worker_step E) (\<lambda>_. worker_turns E n)"

section \<open>The settings page\<close>

definition dict_pop :: "dict \<Rightarrow> string \<Rightarrow> json \<Rightarrow> json \<times> dict" where
  "dict_pop d k v0 = (dict_get d k v0, AList.delete k d)"

definition hide :: "string \<Rightarrow> string \<Rightarrow> dict \<Rightarrow> dict" where
  "hide k shown d = (case dict_pop d k (JStr []) of (v, d') \<Rightarrow> AList.update shown (JBool (py_truthy v)) d')"

text \<open>\<open>sorted(...)\<close> of header names: byte order.\<close>

fun str_less :: "string \<Rightarrow> string \<Rightarrow> bool" where
  "str_less [] ys = (ys \<noteq> [])"
| "str_less (x # xs) [] = False"
| "str_less (x # xs) (y # ys) = ((of_char x :: nat) < of_char y \<or> x = y \<and> str_less xs ys)"

primrec str_insort :: "string \<Rightarrow> string list \<Rightarrow> string list" where
  "str_insort x [] = [x]"
| "str_insort x (y # ys) = (if str_less y x then y # str_insort x ys else x # y # ys)"

definition str_sorted :: "string list \<Rightarrow> string list" where
  "str_sorted xs = foldr str_insort xs []"

definition redact :: "dict \<Rightarrow> dict res" where
  "redact cfg =
     (let safe = hide ''webhook_url'' ''webhook_url_set''
                  (hide ''telegram_bot_token'' ''telegram_bot_token_set''
                  (hide ''discord_webhook_url'' ''discord_webhook_url_set''
                  (hide ''smtp_app_password'' ''smtp_app_password_set'' cfg)));
          (h, safe') = dict_pop safe ''webhook_headers'' JNull
      in case (if py_truthy h then h else JObj []) of
           JObj hs \<Rightarrow> Inr (AList.update ''webhook_header_names'' (JArr (map JStr (str_sorted (map fst hs)))) safe')
         | _ \<Rightarrow> Inl AttributeError)"

definition get_alerts_config_api :: "env \<Rightarrow> dict op" where
  "get_alerts_config_api E = bnd (get_alerts_config E) (\<lambda>cfg. lift_res (redact cfg))"

text \<open>The payload: the fields the request set; an unset field is \<open>null\<close>.\<close>

definition update_alerts_config :: "env \<Rightarrow> dict \<Rightarrow> dict op" where
  "update_alerts_config E payload =
     bnd (get_alerts_config E) (\<lambda>current.
     let new_config = dict_merge current (filter (\<lambda>(_, v). v \<noteq> JNull) payload)
     in bnd (save_json_file E ALERTS_CONFIG_PATH (JObj new_config)) (\<lambda>_.
        lift_res (redact new_config)))"

definition test_result :: "bool \<times> string \<Rightarrow> json" where
  "test_result r = (case r of (ok, err) \<Rightarrow> JStr (if ok then ''ok'' else ''failed: '' @ err))"

definition send_test_alert :: "env \<Rightarrow> string \<Rightarrow> dict op" where
  "send_test_alert E channel =
     (if channel \<notin> set ALERT_CHANNELS
      then raise_exn (HTTPException 400 ''channel must be 'discord', 'email', 'telegram', 'webhook', or 'all'.'')
      else bnd (get_alerts_config E) (\<lambda>cfg.
        let wanted = (\<lambda>c. channel \<in> {c, ''all''});
            on = (\<lambda>c k. if wanted c then cfg_all cfg [k] else Inr False);
            run = (\<lambda>b c m acc. if b then bnd m (\<lambda>r. ret (acc @ [(c, test_result r)])) else ret acc)
        in bnd (lift_res (on ''discord'' ''discord_enabled'')) (\<lambda>d.
           bnd (lift_res (on ''email'' ''email_enabled'')) (\<lambda>e.
           bnd (lift_res (on ''telegram'' ''telegram_enabled'')) (\<lambda>t.
           bnd (lift_res (on ''webhook'' ''webhook_enabled'')) (\<lambda>w.
           if \<not> (d \<or> e \<or> t \<or> w) then raise_exn (HTTPException 400 ''That channel is not enabled.'')
           else bnd (run d ''discord'' (send_discord_alert E ''**FLOD System Test Alert**\<newline>This is a test message, if you're reading this, Discord alerting is working.'') []) (\<lambda>a.
                bnd (run e ''email'' (send_email_alert E ''FLOD System Test Alert'' ''This is a test message from the FLOD System dashboard. If you're reading this, email alerting is working.'') a) (\<lambda>a.
                bnd (run t ''telegram'' (send_telegram_alert E ''FLOD System Test Alert\<newline>\<newline>This is a test message, if you're reading this, Telegram alerting is working.'') a) (\<lambda>a.
                run w ''webhook'' (send_webhook_alert E ''FLOD System Test Alert'' ''This is a test message from the FLOD System dashboard. If you're reading this, the webhook is working.'') a)))))))))"

end
