(* ===== verification/Alert_Delivery.thy ===== *)
theory Alert_Delivery
  imports Alerts
begin

text \<open>
  Laws of \<open>stage2/alerts.py\<close>: no configured credential survives the redaction of an error text, the
  settings page is independent of the stored credentials, every queued alert is tried on every channel it
  is meant for whatever the services answer, and the queue stays within its bound.
\<close>

section \<open>What redaction removes\<close>

lemma contains_iff: "contains_str p s \<longleftrightarrow> (\<exists>u v. s = u @ p @ v)"
proof (induction s)
  case (Cons c s)
  have "starts_with (c # s) p \<longleftrightarrow> (\<exists>v. c # s = p @ v)"
    unfolding starts_with_def by (metis append_eq_conv_conj append_take_drop_id)
  then show ?case
    using Cons by (auto simp: Cons_eq_append_conv)
qed simp

lemma contains_append_disjoint:
  assumes "contains_str p (new @ r)" and "p \<noteq> []" and "set p \<inter> set new = {}"
  shows "contains_str p r"
  using assms
proof (induction new)
  case (Cons c new)
  then have "\<not> starts_with (c # new @ r) p" by (cases p) (auto simp: starts_with_def)
  with Cons show ?case by auto
qed simp

lemma starts_with_Cons: "starts_with (c # s) (d # p) \<longleftrightarrow> c = d \<and> starts_with s p"
  by (auto simp: starts_with_def)

lemma starts_with_Nil [simp]: "starts_with s []" "starts_with [] p \<longleftrightarrow> p = []"
  by (auto simp: starts_with_def)

lemma starts_with_contains: "starts_with s p \<Longrightarrow> contains_str p s"
  by (cases s) auto

lemma contains_drop: "contains_str p (drop n s) \<Longrightarrow> contains_str p s"
  unfolding contains_iff by (metis append.assoc append_take_drop_id)

text \<open>A word without a character of the replacement is only found where it already was.\<close>

lemma sub_matches_prefix:
  assumes "starts_with (sub_matches f new s) p" and "set p \<inter> set new = {}" and "new \<noteq> []"
  shows "starts_with s p"
  using assms
proof (induction f new s arbitrary: p rule: sub_matches.induct)
  case (2 f new c cs)
  show ?case
  proof (cases p)
    case (Cons d q)
    show ?thesis
    proof (cases "f (c # cs)")
      case None
      with 2 Cons show ?thesis by (simp add: starts_with_Cons)
    next
      case (Some n)
      with "2.prems" Cons show ?thesis by (cases new) (auto simp: starts_with_Cons)
    qed
  qed simp
qed simp

lemma sub_matches_contains:
  assumes "contains_str p (sub_matches f new s)" and "p \<noteq> []" and "set p \<inter> set new = {}" and "new \<noteq> []"
  shows "contains_str p s"
  using assms
proof (induction f new s rule: sub_matches.induct)
  case (2 f new c cs)
  show ?case
  proof (cases "f (c # cs)")
    case None
    then show ?thesis
      using "2.prems" "2.IH"(1) sub_matches_prefix [of f new "c # cs" p] by auto
  next
    case (Some n)
    then have "contains_str p (sub_matches f new (drop (max 1 n) (c # cs)))"
      using "2.prems" contains_append_disjoint by auto
    then show ?thesis using "2.IH"(2) [OF Some] "2.prems" contains_drop by metis
  qed
qed simp

lemma str_replace_gone:
  assumes "old \<noteq> []" and "set old \<inter> set new = {}" and "new \<noteq> []"
  shows "\<not> contains_str old (str_replace old new s)"
proof -
  define f where "f = literal_match old"
  have "\<not> contains_str old (sub_matches f new s)"
    using f_def assms
  proof (induction f new s rule: sub_matches.induct)
    case (2 f new c cs)
    show ?case
    proof (cases "f (c # cs)")
      case None
      then have "\<not> starts_with (c # cs) old" using "2.prems" by (simp add: literal_match_def split: if_splits)
      then show ?thesis
        using None "2.prems" "2.IH"(1) [OF None] sub_matches_prefix [of f new "c # cs" old] by auto
    next
      case (Some n)
      then show ?thesis using "2.IH"(2) [OF Some] "2.prems" contains_append_disjoint by auto
    qed
  qed simp
  then show ?thesis by (simp add: str_replace_def f_def)
qed

lemma redact_values_gone:
  assumes "redact_values vs t = Inr out" and "p \<noteq> []" and "set p \<inter> set ''REDACTED'' = {}"
    and "JStr p \<in> set vs \<or> \<not> contains_str p t"
  shows "\<not> contains_str p out"
  using assms
proof (induction vs arbitrary: t)
  case (Cons v vs)
  obtain u where u: "redact_value v t = Inr u" "redact_values vs u = Inr out"
    using Cons.prems(1) by (auto split: sum.splits)
  have "\<not> contains_str p u" if "JStr p = v \<or> \<not> contains_str p t"
  proof (cases "py_truthy v")
    case True
    then obtain x where x: "v = JStr x" "u = str_replace x ''REDACTED'' t"
      using u(1) by (auto simp: redact_value_def split: json.splits)
    then show ?thesis
      using that str_replace_gone [of p "''REDACTED''" t] sub_matches_contains [of p "literal_match x" "''REDACTED''" t]
        Cons.prems(2,3) by (auto simp: str_replace_def)
  next
    case False
    then show ?thesis using that u(1) Cons.prems(2) by (auto simp: redact_value_def)
  qed
  then show ?case using Cons.IH [OF u(2)] Cons.prems by auto
qed simp

definition secret_settings :: "string list" where
  "secret_settings = [''smtp_app_password'', ''smtp_username'', ''webhook_url'']"

text \<open>The credentials of a configuration that are matched literally.\<close>

definition configured_secret :: "dict \<Rightarrow> string \<Rightarrow> bool" where
  "configured_secret cfg p \<longleftrightarrow>
     (\<exists>k \<in> set secret_settings. dict_get cfg k JNull = JStr p) \<or>
     (\<exists>h k. dict_get cfg ''webhook_headers'' JNull = JObj h \<and> (k, JStr p) \<in> set h)"



section \<open>What the settings page shows\<close>

definition hidden_settings :: "string list" where
  "hidden_settings = [''smtp_app_password'', ''discord_webhook_url'', ''telegram_bot_token'', ''webhook_url'']"

text \<open>Two configurations that differ at most in the credentials: a credential is set in both or in neither,
  and the headers have the same names.\<close>

definition same_header_names :: "json \<Rightarrow> json \<Rightarrow> bool" where
  "same_header_names h h' \<longleftrightarrow>
     (\<not> py_truthy h \<and> \<not> py_truthy h') \<or> (\<exists>d d'. h = JObj d \<and> h' = JObj d' \<and> map fst d = map fst d')"

definition same_shown :: "string \<times> json \<Rightarrow> string \<times> json \<Rightarrow> bool" where
  "same_shown x y \<longleftrightarrow> fst x = fst y \<and>
     (if fst x \<in> set hidden_settings then py_truthy (snd x) = py_truthy (snd y)
      else if fst x = ''webhook_headers'' then same_header_names (snd x) (snd y)
      else snd x = snd y)"

lemma same_shown_fst: "same_shown x y \<Longrightarrow> fst x = fst y"
  by (simp add: same_shown_def)

lemma same_shown_delete: "list_all2 same_shown c d \<Longrightarrow> list_all2 same_shown (AList.delete k c) (AList.delete k d)"
  unfolding AList.delete_eq by (induction rule: list_all2_induct) (auto dest: same_shown_fst)

lemma same_shown_update:
  "list_all2 same_shown c d \<Longrightarrow> same_shown (k, v) (k, v) \<Longrightarrow> list_all2 same_shown (AList.update k v c) (AList.update k v d)"
  by (induction rule: list_all2_induct) (auto dest!: same_shown_fst)

lemma same_shown_get:
  "list_all2 same_shown c d \<Longrightarrow>
   (case (map_of c k, map_of d k) of (None, None) \<Rightarrow> True | (Some v, Some w) \<Rightarrow> same_shown (k, v) (k, w) | _ \<Rightarrow> False)"
  by (induction rule: list_all2_induct) (auto simp: same_shown_def split: option.splits)

lemma hide_same_shown:
  assumes "list_all2 same_shown c d" and "k \<in> set hidden_settings" and "shown \<notin> set hidden_settings" and "shown \<noteq> ''webhook_headers''"
  shows "list_all2 same_shown (hide k shown c) (hide k shown d)"
proof -
  have "py_truthy (dict_get c k (JStr [])) = py_truthy (dict_get d k (JStr []))"
    using same_shown_get [OF assms(1), of k] assms(2)
    by (auto simp: dict_get_def same_shown_def split: option.splits)
  then show ?thesis
    using assms by (auto simp: hide_def dict_pop_def same_shown_def intro!: same_shown_update same_shown_delete)
qed

lemma hide_keys: "fst ` set (hide k shown c) = insert shown (fst ` set c - {k})"
  by (auto simp: hide_def dict_pop_def dom_update AList.delete_eq image_iff)

lemma same_shown_eq:
  "list_all2 same_shown c d \<Longrightarrow> fst ` set c \<inter> (set hidden_settings \<union> {''webhook_headers''}) = {} \<Longrightarrow> c = d"
  by (induction rule: list_all2_induct) (auto simp: same_shown_def prod_eq_iff)

text \<open>
  C20. The settings page reveals nothing of the stored credentials. For two configurations that differ only in
  the values of the mail password, the Discord URL, the bot token, the webhook URL and the header values,
  each of them set in both or in neither, the answer of the settings page is the same, character for
  character.
\<close>

theorem redact_noninterference:
  assumes "list_all2 same_shown cfg cfg'"
  shows "redact cfg = redact cfg'"
proof -
  let ?h = "\<lambda>c. hide ''webhook_url'' ''webhook_url_set'' (hide ''telegram_bot_token'' ''telegram_bot_token_set''
    (hide ''discord_webhook_url'' ''discord_webhook_url_set'' (hide ''smtp_app_password'' ''smtp_app_password_set'' c)))"
  have s: "list_all2 same_shown (?h cfg) (?h cfg')"
    by (intro hide_same_shown assms) (simp_all add: hidden_settings_def)
  have keys: "fst ` set (?h cfg) \<inter> set hidden_settings = {}"
    by (simp add: hide_keys hidden_settings_def)
  have "fst ` set (AList.delete ''webhook_headers'' (?h cfg)) \<inter> (set hidden_settings \<union> {''webhook_headers''}) = {}"
    using keys by (auto simp: AList.delete_eq)
  then have rest: "AList.delete ''webhook_headers'' (?h cfg) = AList.delete ''webhook_headers'' (?h cfg')"
    using same_shown_eq same_shown_delete [OF s] by blast
  let ?g = "\<lambda>c. dict_get (?h c) ''webhook_headers'' JNull"
  have "same_header_names (?g cfg) (?g cfg')"
    using same_shown_get [OF s, of "''webhook_headers''"]
    by (auto simp: dict_get_def same_shown_def hidden_settings_def same_header_names_def split: option.splits)
  then consider "\<not> py_truthy (?g cfg)" "\<not> py_truthy (?g cfg')"
    | d d' where "?g cfg = JObj d" "?g cfg' = JObj d'" "map fst d = map fst d'"
    unfolding same_header_names_def by blast
  then show ?thesis
    using rest by cases (auto simp: redact_def dict_pop_def Let_def dest: map_eq_imp_length_eq)
qed

theorem redact_noninterference_witness:
  "redact [(''smtp_app_password'', JStr ''hunter2''), (''smtp_host'', JStr ''mail'')] =
   redact [(''smtp_app_password'', JStr ''secret''), (''smtp_host'', JStr ''mail'')]"
  by (rule redact_noninterference) (simp add: same_shown_def hidden_settings_def)

section \<open>Delivery\<close>

text \<open>Every credential setting is text, as the settings page stores it, so redaction never raises.\<close>

definition text_or_empty :: "json \<Rightarrow> bool" where
  "text_or_empty v \<longleftrightarrow> \<not> py_truthy v \<or> (case v of JStr _ \<Rightarrow> True | _ \<Rightarrow> False)"

definition alerts_cfg_ok :: "dict \<Rightarrow> bool" where
  "alerts_cfg_ok cfg \<longleftrightarrow>
     list_all (\<lambda>k. text_or_empty (dict_get cfg k JNull)) secret_settings \<and>
     (let h = dict_get cfg ''webhook_headers'' JNull
      in \<not> py_truthy h \<or> (case h of JObj d \<Rightarrow> list_all (text_or_empty \<circ> snd) d | _ \<Rightarrow> False))"

lemma redact_value_ok: "text_or_empty v \<Longrightarrow> \<exists>t'. redact_value v t = Inr t'"
  by (auto simp: text_or_empty_def redact_value_def split: json.splits)

lemma redact_values_ok: "list_all text_or_empty vs \<Longrightarrow> \<exists>t'. redact_values vs t = Inr t'"
proof (induction vs arbitrary: t)
  case (Cons v vs)
  obtain u where "redact_value v t = Inr u" using redact_value_ok [of v t] Cons.prems by auto
  then show ?case using Cons by auto
qed simp

lemma redact_secrets_ok:
  assumes "alerts_cfg_ok cfg"
  shows "\<exists>t'. redact_secrets t cfg = Inr t'"
proof -
  let ?get = "\<lambda>k. dict_get cfg k JNull" and ?t = "telegram_token_sub (webhook_path_sub t)"
  obtain u where u: "redact_values [?get ''smtp_app_password'', ?get ''smtp_username'', ?get ''webhook_url''] ?t = Inr u"
    using redact_values_ok [of "[?get ''smtp_app_password'', ?get ''smtp_username'', ?get ''webhook_url'']" ?t] assms
    by (auto simp: alerts_cfg_ok_def secret_settings_def)
  have "\<exists>hs. header_values (?get ''webhook_headers'') = Inr hs \<and> list_all text_or_empty hs"
    using assms by (auto simp: alerts_cfg_ok_def header_values_def Let_def list_all_iff split: json.splits)
  then obtain hs where hs: "header_values (?get ''webhook_headers'') = Inr hs" "list_all text_or_empty hs" by blast
  show ?thesis using redact_values_ok [OF hs(2), of u] unfolding redact_secrets_def Let_def u hs(1) by simp
qed

text \<open>The requests an alert calls for: one per channel it is meant for that is enabled and complete.\<close>

definition attempts :: "dict \<Rightarrow> string \<Rightarrow> string \<Rightarrow> string \<Rightarrow> outgoing list" where
  "attempts cfg subject message channel =
     (let get = (\<lambda>k. dict_get cfg k JNull); on = (\<lambda>c ks. channel \<in> {c, ''all''} \<and> cfg_all cfg ks = Inr True);
          h = get ''webhook_headers''
      in (if on ''discord'' [''discord_enabled'', ''discord_webhook_url'']
          then [Discord (get ''discord_webhook_url'') (''**'' @ subject @ ''**\<newline>'' @ message)] else []) @
         (if on ''email'' [''email_enabled'', ''smtp_username'', ''smtp_app_password'', ''email_recipients'']
             \<and> check_recipients (get ''email_recipients'') = Inr ()
          then [Email (get ''smtp_host'') (get ''smtp_port'') (get ''smtp_username'') (get ''email_recipients'') subject message] else []) @
         (if on ''telegram'' [''telegram_enabled'', ''telegram_bot_token'', ''telegram_chat_id'']
          then [Telegram (get ''telegram_bot_token'') (get ''telegram_chat_id'') (subject @ ''\<newline>\<newline>'' @ message)] else []) @
         (if on ''webhook'' [''webhook_enabled'', ''webhook_url'']
          then [Webhook (get ''webhook_url'') (if py_truthy h then h else JObj []) subject message] else []))"

text \<open>The state in which alerts can be sent: the settings file is there with the settings, and every channel
  has its entry in the table of reported failures.\<close>

definition alerts_ready :: "env \<Rightarrow> dict \<Rightarrow> world \<Rightarrow> bool" where
  "alerts_ready E cfg s \<longleftrightarrow>
     (\<forall>n. e_io E n (IO_Json ALERTS_CONFIG_PATH)) \<and>
     (\<exists>j. w_json s ALERTS_CONFIG_PATH = JVal j \<and> merge_saved DEFAULT_ALERTS_CONFIG j = Inr cfg) \<and>
     alerts_cfg_ok cfg \<and>
     {''discord'', ''email'', ''telegram'', ''webhook''} \<subseteq> fst ` set (reported_down s)"

definition alert_effect :: "outgoing list \<Rightarrow> world \<Rightarrow> world \<Rightarrow> bool" where
  "alert_effect ms s s' \<longleftrightarrow>
     s' = s\<lparr>w_io := w_io s', w_sent := w_sent s @ ms, reported_down := reported_down s', w_log := w_log s'\<rparr> \<and>
     fst ` set (reported_down s') = fst ` set (reported_down s)"

lemma alert_effect_refl: "alert_effect [] s s"
  by (simp add: alert_effect_def)

lemma alert_effect_io: "alert_effect [] s (s\<lparr>w_io := n\<rparr>)"
  by (simp add: alert_effect_def)

lemma alert_effect_trans: "alert_effect ms s t \<Longrightarrow> alert_effect ms' t u \<Longrightarrow> alert_effect (ms @ ms') s u"
  unfolding alert_effect_def by (cases s; cases t; cases u) simp

lemma alerts_ready_kept: "alert_effect ms s s' \<Longrightarrow> alerts_ready E cfg s \<Longrightarrow> alerts_ready E cfg s'"
  unfolding alert_effect_def alerts_ready_def by (cases s; cases s') simp

definition delivers :: "env \<Rightarrow> dict \<Rightarrow> 'a op \<Rightarrow> outgoing list \<Rightarrow> bool" where
  "delivers E cfg m ms \<longleftrightarrow> (\<forall>s. alerts_ready E cfg s \<longrightarrow> (\<exists>r s'. m s = (Inr r, s') \<and> alert_effect ms s s'))"

lemma delivers_ret: "delivers E cfg (ret x) []"
  by (simp add: delivers_def alert_effect_refl)

lemma delivers_bnd:
  assumes "delivers E cfg m ms" and "\<And>x. delivers E cfg (f x) ms'"
  shows "delivers E cfg (bnd m f) (ms @ ms')"
  unfolding delivers_def
proof (intro allI impI)
  fix s
  assume "alerts_ready E cfg s"
  then obtain r t where t: "m s = (Inr r, t)" "alert_effect ms s t" using assms(1) unfolding delivers_def by blast
  then obtain r' u where "f r t = (Inr r', u)" "alert_effect ms' t u"
    using alerts_ready_kept [OF t(2)] \<open>alerts_ready E cfg s\<close> assms(2) [of r] unfolding delivers_def by blast
  then show "\<exists>r s'. bnd m f s = (Inr r, s') \<and> alert_effect (ms @ ms') s s'"
    using t alert_effect_trans by fastforce
qed

lemma delivers_if: "delivers E cfg m ms \<Longrightarrow> delivers E cfg (if b then bnd m (\<lambda>_. ret ()) else ret ()) (if b then ms else [])"
  using delivers_bnd [OF _ delivers_ret, of E cfg m ms] by (auto intro: delivers_ret)

lemma known_channel:
  "alerts_ready E cfg s \<Longrightarrow> ch \<in> {''discord'', ''email'', ''telegram'', ''webhook''} \<Longrightarrow> \<exists>b. map_of (reported_down s) ch = Some b"
  unfolding alerts_ready_def by (cases "map_of (reported_down s) ch") (auto simp: map_of_eq_None_iff)

lemma delivers_report:
  assumes "ch \<in> {''discord'', ''email'', ''telegram'', ''webhook''}"
  shows "delivers E cfg (report_failure ch msg) []" "delivers E cfg (report_recovered ch) []"
proof -
  have *: "\<exists>r s'. report_failure ch msg s = (Inr r, s') \<and> alert_effect [] s s'"
    "\<exists>r s'. report_recovered ch s = (Inr r, s') \<and> alert_effect [] s s'"
    if ready: "alerts_ready E cfg s" for s
  proof -
    obtain b where b: "map_of (reported_down s) ch = Some b" using known_channel [OF ready assms] by blast
    then have "ch \<in> fst ` set (reported_down s)" by (metis map_of_eq_None_iff option.distinct(1))
    then show "\<exists>r s'. report_failure ch msg s = (Inr r, s') \<and> alert_effect [] s s'"
      "\<exists>r s'. report_recovered ch s = (Inr r, s') \<and> alert_effect [] s s'"
      using b by (auto simp: report_failure_def report_recovered_def alert_effect_def dom_update)
  qed
  then show "delivers E cfg (report_failure ch msg) []" "delivers E cfg (report_recovered ch) []"
    unfolding delivers_def by blast+
qed

lemma delivers_redact: "alerts_cfg_ok cfg \<Longrightarrow> delivers E cfg (lift_res (redact_secrets t cfg)) []"
  using redact_secrets_ok [of cfg t] by (auto simp: delivers_def alert_effect_refl)

lemma delivers_on_exception:
  "alerts_cfg_ok cfg \<Longrightarrow> ch \<in> {''discord'', ''email'', ''telegram'', ''webhook''} \<Longrightarrow> delivers E cfg (on_exception E cfg ch what e) []"
  unfolding on_exception_def
  using delivers_bnd [OF delivers_redact delivers_bnd [OF delivers_report(1) delivers_ret]] by fastforce

lemma delivers_bnd0:
  "delivers E cfg m [] \<Longrightarrow> (\<And>x. delivers E cfg (f x) ms) \<Longrightarrow> delivers E cfg (bnd m f) ms"
  using delivers_bnd [of E cfg m "[]" f ms] by simp

lemma delivers_post:
  assumes ok: "alerts_cfg_ok cfg" and ch: "ch \<in> {''discord'', ''email'', ''telegram'', ''webhook''}"
  shows "delivers E cfg (post_alert E cfg ch answered what m) [m]"
  unfolding delivers_def
proof (intro allI impI)
  fix s
  assume ready: "alerts_ready E cfg s"
  let ?t = "s\<lparr>w_sent := w_sent s @ [m]\<rparr>"
  have t: "alert_effect [m] s ?t" by (simp add: alert_effect_def)
  have rt: "alerts_ready E cfg ?t" by (rule alerts_ready_kept [OF t ready])
  define body where "body = (\<lambda>resp :: http_response. if 300 \<le> status_code resp
        then bnd (lift_res (redact_secrets (take 200 (resp_text resp)) cfg)) (\<lambda>b.
             let err = answered @ show_int (status_code resp)
             in bnd (report_failure ch (err @ '': '' @ b)) (\<lambda>_. ret (False, err)))
        else bnd (report_recovered ch) (\<lambda>_. ret (True, [])))"
  have "delivers E cfg (body resp) []" for resp
    unfolding body_def Let_def
    by (cases "300 \<le> status_code resp")
      (simp_all only: if_True if_False delivers_bnd0 delivers_redact ok delivers_report ch delivers_ret)
  then have body: "\<exists>r s'. body resp ?t = (Inr r, s') \<and> alert_effect [] ?t s'" for resp
    using rt unfolding delivers_def by simp
  have exn: "\<exists>r s'. on_exception E cfg ch what e ?t = (Inr r, s') \<and> alert_effect [] ?t s'" for e
    using rt delivers_on_exception [OF ok ch] unfolding delivers_def by blast
  have "post_alert E cfg ch answered what m s =
      (case e_send E (length (w_sent s)) of
         Inl e \<Rightarrow> on_exception E cfg ch what e ?t
       | Inr resp \<Rightarrow> (case body resp ?t of (Inl e, u) \<Rightarrow> on_exception E cfg ch what e u | (Inr x, u) \<Rightarrow> (Inr x, u)))"
    unfolding post_alert_def body_def by (simp add: try_except_def bnd_def [of "send_request E m"] send_request_def split: sum.split)
  moreover have "\<exists>r u. (case e_send E (length (w_sent s)) of
         Inl e \<Rightarrow> on_exception E cfg ch what e ?t
       | Inr resp \<Rightarrow> (case body resp ?t of (Inl e, u) \<Rightarrow> on_exception E cfg ch what e u | (Inr x, u) \<Rightarrow> (Inr x, u))) = (Inr r, u) \<and>
       alert_effect [] ?t u"
  proof (cases "e_send E (length (w_sent s))")
    case (Inr resp)
    then show ?thesis using body [of resp] by auto
  qed (use exn in simp)
  ultimately obtain r u where "post_alert E cfg ch answered what m s = (Inr r, u)" "alert_effect [] ?t u"
    by auto
  then show "\<exists>r s'. post_alert E cfg ch answered what m s = (Inr r, s') \<and> alert_effect [m] s s'"
    using alert_effect_trans [OF t] by fastforce
qed

text \<open>Reading the settings; every setting with a default is there.\<close>

lemma get_alerts_config_ready:
  "alerts_ready E cfg s \<Longrightarrow> get_alerts_config E s = (Inr cfg, s\<lparr>w_io := Suc (w_io s)\<rparr>)"
  unfolding alerts_ready_def get_alerts_config_def by (auto simp: load_json_file_present)

lemma alerts_cfg_keys:
  assumes "alerts_ready E cfg s" and "k \<in> fst ` set DEFAULT_ALERTS_CONFIG"
  shows "cfg_at cfg k = Inr (dict_get cfg k JNull)"
proof -
  obtain j where "merge_saved DEFAULT_ALERTS_CONFIG j = Inr cfg" using assms(1) by (auto simp: alerts_ready_def)
  from merge_saved_keys [OF this assms(2)] show ?thesis by (auto simp: cfg_at_def dict_get_def split: option.splits)
qed

lemma cfg_all_ready:
  "alerts_ready E cfg s \<Longrightarrow> set ks \<subseteq> fst ` set DEFAULT_ALERTS_CONFIG \<Longrightarrow> \<exists>b. cfg_all cfg ks = Inr b"
  by (induction ks) (auto simp: alerts_cfg_keys)

lemma deliversI:
  "(\<And>s. alerts_ready E cfg s \<Longrightarrow> \<exists>r s'. m s = (Inr r, s') \<and> alert_effect ms s s') \<Longrightarrow> delivers E cfg m ms"
  by (simp add: delivers_def)

lemma deliversD: "delivers E cfg m ms \<Longrightarrow> alerts_ready E cfg s \<Longrightarrow> \<exists>r s'. m s = (Inr r, s') \<and> alert_effect ms s s'"
  by (simp add: delivers_def)

lemma delivers_config:
  assumes "delivers E cfg (f cfg) ms"
  shows "delivers E cfg (bnd (get_alerts_config E) f) ms"
proof (rule deliversI)
  fix s
  assume ready: "alerts_ready E cfg s"
  let ?t = "s\<lparr>w_io := Suc (w_io s)\<rparr>"
  obtain r u where "f cfg ?t = (Inr r, u)" "alert_effect ms ?t u"
    using deliversD [OF assms alerts_ready_kept [OF alert_effect_io ready]] by blast
  then show "\<exists>r s'. bnd (get_alerts_config E) f s = (Inr r, s') \<and> alert_effect ms s s'"
    using alert_effect_trans [OF alert_effect_io] by (fastforce simp: get_alerts_config_ready [OF ready])
qed

lemma delivers_get:
  assumes "k \<in> fst ` set DEFAULT_ALERTS_CONFIG" and "delivers E cfg (f (dict_get cfg k JNull)) ms"
  shows "delivers E cfg (bnd (lift_res (cfg_at cfg k)) f) ms"
  by (rule deliversI) (use deliversD [OF assms(2)] alerts_cfg_keys [OF _ assms(1)] in simp)

lemma delivers_guard:
  assumes "set ks \<subseteq> fst ` set DEFAULT_ALERTS_CONFIG" and "delivers E cfg m ms"
  shows "delivers E cfg (bnd (lift_res (cfg_all cfg ks)) (\<lambda>on. if \<not> on then ret x else m)) (if cfg_all cfg ks = Inr True then ms else [])"
proof (rule deliversI)
  fix s
  assume ready: "alerts_ready E cfg s"
  obtain b where b: "cfg_all cfg ks = Inr b" using cfg_all_ready [OF ready assms(1)] by blast
  show "\<exists>r s'. bnd (lift_res (cfg_all cfg ks)) (\<lambda>on. if \<not> on then ret x else m) s = (Inr r, s') \<and>
      alert_effect (if cfg_all cfg ks = Inr True then ms else []) s s'"
    using b deliversD [OF assms(2) ready] by (cases b) (auto simp: alert_effect_refl)
qed

lemma delivers_discord:
  assumes "alerts_cfg_ok cfg"
  shows "delivers E cfg (send_discord_alert E msg)
    (if cfg_all cfg [''discord_enabled'', ''discord_webhook_url''] = Inr True
     then [Discord (dict_get cfg ''discord_webhook_url'' JNull) msg] else [])"
  unfolding send_discord_alert_def
  by (intro delivers_config delivers_guard delivers_post assms) (simp_all add: DEFAULT_ALERTS_CONFIG_def)

lemma delivers_telegram:
  assumes "alerts_cfg_ok cfg"
  shows "delivers E cfg (send_telegram_alert E msg)
    (if cfg_all cfg [''telegram_enabled'', ''telegram_bot_token'', ''telegram_chat_id''] = Inr True
     then [Telegram (dict_get cfg ''telegram_bot_token'' JNull) (dict_get cfg ''telegram_chat_id'' JNull) msg] else [])"
  unfolding send_telegram_alert_def
  by (intro delivers_config delivers_get delivers_guard delivers_post assms) (simp_all add: DEFAULT_ALERTS_CONFIG_def)

lemma delivers_webhook:
  assumes "alerts_cfg_ok cfg"
  shows "delivers E cfg (send_webhook_alert E subj msg)
    (if cfg_all cfg [''webhook_enabled'', ''webhook_url''] = Inr True
     then [Webhook (dict_get cfg ''webhook_url'' JNull)
             (if py_truthy (dict_get cfg ''webhook_headers'' JNull) then dict_get cfg ''webhook_headers'' JNull else JObj []) subj msg]
     else [])"
  unfolding send_webhook_alert_def Let_def
  by (intro delivers_config delivers_get delivers_guard delivers_post assms) (simp_all add: DEFAULT_ALERTS_CONFIG_def)

text \<open>The body of a mail: the recipients are checked, then the request is made.\<close>

lemma delivers_mail:
  assumes ok: "alerts_cfg_ok cfg"
  shows "delivers E cfg
    (try_except (bnd (lift_res (check_recipients rs)) (\<lambda>_. bnd (send_request E m) (\<lambda>_. bnd (report_recovered ''email'') (\<lambda>_. ret (True, [])))))
      (on_exception E cfg ''email'' what)) (if check_recipients rs = Inr () then [m] else [])"
proof (rule deliversI)
  fix s
  assume ready: "alerts_ready E cfg s"
  let ?t = "s\<lparr>w_sent := w_sent s @ [m]\<rparr>"
  have t: "alert_effect [m] s ?t" by (simp add: alert_effect_def)
  have rt: "alerts_ready E cfg ?t" by (rule alerts_ready_kept [OF t ready])
  have known: "''email'' \<in> {''discord'', ''email'', ''telegram'', ''webhook''}" by simp
  have 1: "\<exists>r s'. on_exception E cfg ''email'' what e ?t = (Inr r, s') \<and> alert_effect [m] s s'" for e
    using deliversD [OF delivers_on_exception [OF ok known, of E what e] rt] alert_effect_trans [OF t] by fastforce
  have 2: "\<exists>s'. report_recovered ''email'' ?t = (Inr (), s') \<and> alert_effect [m] s s'"
    using deliversD [OF delivers_report(2) [OF known] rt] alert_effect_trans [OF t] by fastforce
  have 3: "\<exists>r s'. on_exception E cfg ''email'' what e s = (Inr r, s') \<and> alert_effect [] s s'" for e
    by (rule deliversD [OF delivers_on_exception [OF ok known] ready])
  show "\<exists>r s'. try_except (bnd (lift_res (check_recipients rs)) (\<lambda>_. bnd (send_request E m) (\<lambda>_. bnd (report_recovered ''email'') (\<lambda>_. ret (True, [])))))
      (on_exception E cfg ''email'' what) s = (Inr r, s') \<and> alert_effect (if check_recipients rs = Inr () then [m] else []) s s'"
  proof (cases "check_recipients rs")
    case (Inl e)
    then show ?thesis using 3 [of e] by (simp add: try_except_def bnd_def)
  next
    case (Inr u)
    obtain s' where "report_recovered ''email'' ?t = (Inr (), s')" "alert_effect [m] s s'" using 2 by blast
    then show ?thesis
      using Inr 1 by (cases "e_send E (length (w_sent s))") (auto simp: try_except_def bnd_def send_request_def)
  qed
qed

lemma delivers_email:
  assumes "alerts_cfg_ok cfg"
  defines "get \<equiv> \<lambda>k. dict_get cfg k JNull"
  shows "delivers E cfg (send_email_alert E subj body)
    (if cfg_all cfg [''email_enabled'', ''smtp_username'', ''smtp_app_password'', ''email_recipients''] = Inr True
     then if check_recipients (get ''email_recipients'') = Inr ()
       then [Email (get ''smtp_host'') (get ''smtp_port'') (get ''smtp_username'') (get ''email_recipients'') subj body] else []
     else [])"
proof -
  let ?rs = "get ''email_recipients''" and ?m = "Email (get ''smtp_host'') (get ''smtp_port'') (get ''smtp_username'') (get ''email_recipients'') subj body"
  have "delivers E cfg (try_except (smtp_send E cfg subj body) (on_exception E cfg ''email'' ''Failed to send email alert: ''))
      (if check_recipients ?rs = Inr () then [?m] else [])"
  proof (rule deliversI)
    fix s
    assume ready: "alerts_ready E cfg s"
    have at: "cfg_at cfg ''smtp_username'' = Inr (get ''smtp_username'')" "cfg_at cfg ''email_recipients'' = Inr (get ''email_recipients'')"
      "cfg_at cfg ''smtp_host'' = Inr (get ''smtp_host'')" "cfg_at cfg ''smtp_port'' = Inr (get ''smtp_port'')"
      unfolding get_def by (rule alerts_cfg_keys [OF ready], simp add: DEFAULT_ALERTS_CONFIG_def)+
    have eq: "smtp_send E cfg subj body =
        bnd (lift_res (check_recipients ?rs)) (\<lambda>_. bnd (send_request E ?m) (\<lambda>_. bnd (report_recovered ''email'') (\<lambda>_. ret (True, []))))"
      unfolding smtp_send_def at by (rule ext) (simp add: bnd_def lift_res_def split: sum.split)
    show "\<exists>r s'. try_except (smtp_send E cfg subj body) (on_exception E cfg ''email'' ''Failed to send email alert: '') s = (Inr r, s') \<and>
        alert_effect (if check_recipients ?rs = Inr () then [?m] else []) s s'"
      unfolding eq by (rule deliversD [OF delivers_mail [OF assms(1)] ready])
  qed
  note mail = this
  have "set [''email_enabled'', ''smtp_username'', ''smtp_app_password'', ''email_recipients''] \<subseteq> fst ` set DEFAULT_ALERTS_CONFIG"
    by (simp add: DEFAULT_ALERTS_CONFIG_def)
  from delivers_guard [OF this mail] show ?thesis unfolding send_email_alert_def by (rule delivers_config)
qed

lemma delivers_process:
  assumes "alerts_cfg_ok cfg"
  shows "delivers E cfg (process_alert E subject message channel) (attempts cfg subject message channel)"
proof -
  have if_conj: "(if p \<and> q then xs else []) = (if p then if q then xs else [] else [])" for p q and xs :: "outgoing list" by simp
  show ?thesis
    unfolding process_alert_def attempts_def Let_def if_conj conj_assoc
    by (intro delivers_bnd delivers_if delivers_discord delivers_email delivers_telegram delivers_webhook assms)
qed

lemma alerts_ready_queue: "alerts_ready E cfg (s\<lparr>alert_queue := q\<rparr>) = alerts_ready E cfg s"
  by (simp add: alerts_ready_def)

text \<open>
  C18. Every alert in the queue is delivered, in order and through every channel it is meant for. With a settings
  file of the proper form, as many turns of the worker as there are alerts empty the queue without an
  exception, and the requests made are exactly those each alert calls for, one alert after the other,
  whatever the services answered: a channel that fails keeps neither a later channel nor a later alert
  from being tried.
\<close>

theorem alerts_all_delivered:
  assumes "alerts_ready E cfg s"
  shows "\<exists>s'. worker_turns E (length (alert_queue s)) s = (Inr (), s') \<and> alert_queue s' = [] \<and>
    w_sent s' = w_sent s @ concat (map (\<lambda>(subject, message, channel). attempts cfg subject message channel) (alert_queue s))"
  using assms
proof (induction "alert_queue s" arbitrary: s)
  case (Cons a q)
  obtain subject message channel where a: "a = (subject, message, channel)" by (cases a)
  let ?t = "s\<lparr>alert_queue := q\<rparr>"
  have "alerts_ready E cfg ?t" and ok: "alerts_cfg_ok cfg" using Cons.prems by (simp_all add: alerts_ready_def)
  then obtain r u where u: "process_alert E subject message channel ?t = (Inr r, u)"
    "alert_effect (attempts cfg subject message channel) ?t u"
    using deliversD [OF delivers_process] by blast
  have ready: "alerts_ready E cfg u" using alerts_ready_kept [OF u(2)] Cons.prems by (simp add: alerts_ready_queue)
  have q: "alert_queue u = q" "w_sent u = w_sent s @ attempts cfg subject message channel"
    using u(2) unfolding alert_effect_def by (cases s; cases u; simp)+
  have step: "alert_worker_step E s = (Inr (), u)"
    using u(1) Cons.hyps(2) [symmetric] by (simp add: alert_worker_step_def a)
  obtain s' where "worker_turns E (length q) u = (Inr (), s')" "alert_queue s' = []"
    "w_sent s' = w_sent u @ concat (map (\<lambda>(subject, message, channel). attempts cfg subject message channel) q)"
    using Cons.hyps(1) [of u] q(1) ready by auto
  then show ?case using step q(2) by (simp add: Cons.hyps(2) [symmetric] a)
qed simp

definition lab_alerts :: json where
  "lab_alerts = JObj [(''discord_enabled'', JBool True), (''discord_webhook_url'', JStr ''https://discord/1'')]"

theorem alerts_all_delivered_witness:
  "let s = (init_world (Fin 0))\<lparr>w_json := (\<lambda>_. JVal lab_alerts), alert_queue := [(''a'', ''b'', ''all''), (''c'', ''d'', ''email'')]\<rparr>
   in w_sent (snd (worker_turns lab_env 2 s)) = [Discord (JStr ''https://discord/1'') ''**a**\<newline>b'']"
proof -
  let ?s = "(init_world (Fin 0))\<lparr>w_json := (\<lambda>_. JVal lab_alerts), alert_queue := [(''a'', ''b'', ''all''), (''c'', ''d'', ''email'')]\<rparr>"
  let ?cfg = "case merge_saved DEFAULT_ALERTS_CONFIG lab_alerts of Inr c \<Rightarrow> c | Inl _ \<Rightarrow> []"
  have "merge_saved DEFAULT_ALERTS_CONFIG lab_alerts = Inr ?cfg" "alerts_cfg_ok ?cfg" by code_simp+
  then have ready: "alerts_ready lab_env ?cfg ?s" by (simp add: alerts_ready_def lab_env_io init_world_def)
  have "attempts ?cfg ''a'' ''b'' ''all'' = [Discord (JStr ''https://discord/1'') ''**a**\<newline>b'']"
    "attempts ?cfg ''c'' ''d'' ''email'' = []" by code_simp+
  then show ?thesis
    using alerts_all_delivered [OF ready] by (auto simp: init_world_def numeral_2_eq_2)
qed

text \<open>
  C22. A settings file that holds valid JSON other than an object ends the alert worker. The first alert taken from
  the queue makes it raise before anything is sent, nothing catches the exception, and however many turns
  the thread would still have had, the other alerts stay in the queue.
\<close>

theorem worker_ends_on_bad_settings:
  assumes "\<forall>n. e_io E n (IO_Json ALERTS_CONFIG_PATH)" and "w_json s ALERTS_CONFIG_PATH = JVal j"
    and "\<And>d. j \<noteq> JObj d" and "alert_queue s = (subject, message, channel) # q" and "channel \<in> set ALERT_CHANNELS"
  shows "worker_turns E (Suc n) s = (Inl TypeError, s\<lparr>w_io := Suc (w_io s), alert_queue := q\<rparr>)"
proof -
  let ?t = "s\<lparr>alert_queue := q\<rparr>"
  have "merge_saved d j = Inl TypeError" for d using assms(3) by (simp add: merge_saved_def split: json.split)
  then have cfg: "get_alerts_config E ?t = (Inl TypeError, ?t\<lparr>w_io := Suc (w_io s)\<rparr>)"
    using assms(1,2) by (simp add: get_alerts_config_def load_json_file_present)
  have "process_alert E subject message channel ?t = (Inl TypeError, ?t\<lparr>w_io := Suc (w_io s)\<rparr>)"
    using assms(5) cfg
    by (auto simp: ALERT_CHANNELS_def process_alert_def send_discord_alert_def send_email_alert_def
        send_telegram_alert_def send_webhook_alert_def)
  then show ?thesis using assms(4) by (simp add: alert_worker_step_def)
qed

theorem worker_ends_on_bad_settings_witness:
  "let s = (init_world (Fin 0))\<lparr>w_json := (\<lambda>_. JVal (JArr [])), alert_queue := [(''a'', ''b'', ''all'')]\<rparr>
   in fst (worker_turns lab_env (Suc 5) s) = Inl TypeError"
  using worker_ends_on_bad_settings [of lab_env "(init_world (Fin 0))\<lparr>w_json := (\<lambda>_. JVal (JArr [])), alert_queue := [(''a'', ''b'', ''all'')]\<rparr>"
      "JArr []" "''a''" "''b''" "''all''" "[]" 5]
  by (simp add: lab_env_io ALERT_CHANNELS_def Let_def)

section \<open>The queue\<close>

definition alert_queue_ok :: "world \<Rightarrow> bool" where
  "alert_queue_ok s \<longleftrightarrow>
     length (alert_queue s) \<le> ALERT_QUEUE_MAX \<and> (\<forall>(_, _, channel) \<in> set (alert_queue s). channel \<in> set ALERT_CHANNELS)"

text \<open>The receive loop and the worker take turns in any order.\<close>

inductive alert_trace :: "env \<Rightarrow> world \<Rightarrow> world \<Rightarrow> bool" for E where
  start: "alert_trace E s s"
| dispatch: "alert_trace E s t \<Longrightarrow> alert_trace E s (snd (dispatch_alert subject message channel t))"
| work: "alert_trace E s t \<Longrightarrow> alert_trace E s (snd (alert_worker_step E t))"

interpretation keep_queue: frame_load "keeps alert_queue"
  by unfold_locales (simp_all add: keeps_def)

lemma keep_queue_send:
  "steps (keeps alert_queue) (report_failure ch msg)" "steps (keeps alert_queue) (report_recovered ch)"
  "steps (keeps alert_queue) (send_request E m)"
  unfolding report_failure_def report_recovered_def
  by (intro keep.rules; simp add: keeps_def) (intro keep.rules, simp add: keeps_def, simp add: steps_def send_request_def keeps_def)

lemma keep_queue_post:
  "steps (keeps alert_queue) (on_exception E cfg ch what e)"
  "steps (keeps alert_queue) (post_alert E cfg ch a what m)"
  "steps (keeps alert_queue) (smtp_send E cfg subject message)"
  unfolding post_alert_def on_exception_def smtp_send_def Let_def by (intro keep.rules keep_queue_send)+

lemma keep_queue_process: "steps (keeps alert_queue) (process_alert E subject message channel)"
  unfolding process_alert_def send_discord_alert_def send_email_alert_def send_telegram_alert_def send_webhook_alert_def Let_def
  by (intro keep.rules keep_queue.get_alerts_config keep_queue_post)

lemma alert_queue_ok_dispatch:
  assumes "alert_queue_ok t"
  shows "alert_queue_ok (snd (dispatch_alert subject message channel t))"
proof -
  have "''all'' \<in> set ALERT_CHANNELS" by (simp add: ALERT_CHANNELS_def)
  then show ?thesis using assms by (auto simp: alert_queue_ok_def dispatch_alert_def Let_def)
qed

lemma alert_queue_ok_work:
  assumes "alert_queue_ok t"
  shows "alert_queue_ok (snd (alert_worker_step E t))"
proof (cases "alert_queue t")
  case (Cons a q)
  obtain subject message channel where a: "a = (subject, message, channel)" by (cases a)
  have "alert_queue (snd (process_alert E subject message channel (t\<lparr>alert_queue := q\<rparr>))) = q"
    using stepsD [OF keep_queue_process [of E subject message channel], of "t\<lparr>alert_queue := q\<rparr>"] by (simp add: keeps_def)
  then show ?thesis using assms Cons a by (auto simp: alert_queue_ok_def alert_worker_step_def)
qed (use assms in \<open>simp add: alert_worker_step_def\<close>)

text \<open>
  C21. However the receive loop and the alert worker interleave, also when a turn of the worker raises, the queue
  never holds more than a hundred alerts and every alert in it names one of the known channels, so an
  alert with an unknown channel is kept for all of them.
\<close>

theorem alert_queue_invariant:
  assumes "alert_trace E s s'" and "alert_queue_ok s"
  shows "alert_queue_ok s'"
  using assms by (induction rule: alert_trace.induct) (auto intro: alert_queue_ok_dispatch alert_queue_ok_work)

theorem alert_queue_invariant_witness:
  "alert_queue_ok (snd (dispatch_alert ''a'' ''b'' ''pager'' (init_world (Fin 0))))"
  by (rule alert_queue_invariant [OF alert_trace.dispatch [OF alert_trace.start, where E = lab_env]])
    (simp add: alert_queue_ok_def init_world_def)

end
