(* ===== verification/Playbooks.thy ===== *)
theory Playbooks
  imports Alerts
begin

text \<open>
  \<open>stage2/playbooks.py\<close>: validation of playbook definitions, trigger evaluation, starting runs, advancing
  them stage by stage, and the three kinds of stage.

  A stored definition is the value its JSON text denotes, \<open>None\<close> if it does not parse. Building and
  rendering a report is a parameter that either works or raises; a written report is its path.
\<close>

section \<open>Definitions\<close>

definition TRIGGER_TYPES :: "string list" where
  "TRIGGER_TYPES = [''tier_reached'', ''persistence'', ''scale'']"

definition STAGE_TYPES :: "string list" where
  "STAGE_TYPES = [''escalate'', ''notify'', ''report'']"

definition TRIGGER_MODES :: "string list" where
  "TRIGGER_MODES = [''any'', ''all'']"

definition NOTIFY_CHANNELS :: "string list" where
  "NOTIFY_CHANNELS = [''all'', ''discord'', ''email'', ''telegram'', ''webhook'']"

text \<open>\<open>x in S\<close> for a set of strings, which hashes \<open>x\<close>.\<close>

definition in_names :: "json \<Rightarrow> string list \<Rightarrow> bool res" where
  "in_names x names = (if hashable x then Inr (x \<in> JStr ` set names) else Inl TypeError)"

definition one_of :: "string \<Rightarrow> string list \<Rightarrow> string" where
  "one_of what names =
     what @ '' must be one of ['' @ concat (map (\<lambda>(i, n). (if i = 0 then [] else '', '') @ CHR 0x27 # n @ [CHR 0x27])
       (enumerate 0 (str_sorted names))) @ '']''"

definition check_type :: "string \<Rightarrow> string list \<Rightarrow> json \<Rightarrow> unit res" where
  "check_type what names x =
     (case x of
        JObj d \<Rightarrow>
          (case in_names (dict_get d ''type'' JNull) names of
             Inl e \<Rightarrow> Inl e
           | Inr ok \<Rightarrow> if ok then Inr () else Inl (DefinitionError (one_of what names)))
      | _ \<Rightarrow> Inl (DefinitionError (one_of what names)))"

definition valid_delay :: "json \<Rightarrow> bool" where
  "valid_delay j = (case j of JInt i \<Rightarrow> \<not> i < 0 | JFloat x \<Rightarrow> \<not> flt x (Fin 0) | _ \<Rightarrow> False)"

definition check_stage :: "json \<Rightarrow> unit res" where
  "check_stage s =
     (case check_type ''stage type'' STAGE_TYPES s of
        Inl e \<Rightarrow> Inl e
      | Inr _ \<Rightarrow>
          (case s of
             JObj d \<Rightarrow>
               if \<not> valid_delay (dict_get d ''delay_seconds'' (JInt 0))
               then Inl (DefinitionError ''stage delay_seconds must be a non-negative number'')
               else if map_of d ''type'' = Some (JStr ''notify'')
               then (case map_of d ''channel'' of
                       None \<Rightarrow> Inr ()
                     | Some c \<Rightarrow>
                         (case in_names c NOTIFY_CHANNELS of
                            Inl e \<Rightarrow> Inl e
                          | Inr ok \<Rightarrow> if ok then Inr () else Inl (DefinitionError (one_of ''notify channel'' NOTIFY_CHANNELS))))
               else Inr ()
           | _ \<Rightarrow> Inl TypeError))"

primrec check_all :: "('a \<Rightarrow> unit res) \<Rightarrow> 'a list \<Rightarrow> unit res" where
  "check_all f [] = Inr ()"
| "check_all f (x # xs) = (case f x of Inl e \<Rightarrow> Inl e | Inr _ \<Rightarrow> check_all f xs)"

definition validate_definition :: "json \<Rightarrow> json res" where
  "validate_definition definition =
     (case definition of
        JObj d \<Rightarrow>
          (case dict_get d ''triggers'' JNull of
             JArr (t # ts) \<Rightarrow>
               (case dict_get d ''stages'' JNull of
                  JArr (s # ss) \<Rightarrow>
                    (case in_names (dict_get d ''trigger_mode'' (JStr ''any'')) TRIGGER_MODES of
                       Inl e \<Rightarrow> Inl e
                     | Inr False \<Rightarrow> Inl (DefinitionError (one_of ''trigger_mode'' TRIGGER_MODES))
                     | Inr True \<Rightarrow>
                         (case check_all (check_type ''trigger type'' TRIGGER_TYPES) (t # ts) of
                            Inl e \<Rightarrow> Inl e
                          | Inr _ \<Rightarrow> (case check_all check_stage (s # ss) of Inl e \<Rightarrow> Inl e | Inr _ \<Rightarrow> Inr definition)))
                | _ \<Rightarrow> Inl (DefinitionError ''definition needs at least one stage''))
           | _ \<Rightarrow> Inl (DefinitionError ''definition needs at least one trigger''))
      | _ \<Rightarrow> Inl (DefinitionError ''definition must be a JSON object''))"

section \<open>Triggers\<close>

text \<open>\<open>n >= trigger.get(key, 1)\<close>\<close>

definition at_least :: "nat \<Rightarrow> json \<Rightarrow> bool res" where
  "at_least n j = (case need_num j of Inl e \<Rightarrow> Inl e | Inr x \<Rightarrow> Inr (fle x (Fin (of_nat n))))"

definition trigger_fires :: "json \<Rightarrow> nat \<Rightarrow> nat \<Rightarrow> nat \<Rightarrow> bool res" where
  "trigger_fires trigger tier_reached consecutive_windows hosts_under_attack =
     (case trigger of
        JObj d \<Rightarrow>
          (let ttype = dict_get d ''type'' JNull
           in if ttype = JStr ''tier_reached'' then at_least tier_reached (dict_get d ''min_tier'' (JInt 1))
              else if ttype = JStr ''persistence'' then at_least consecutive_windows (dict_get d ''consecutive_windows'' (JInt 1))
              else if ttype = JStr ''scale'' then at_least hosts_under_attack (dict_get d ''min_hosts_simultaneously'' (JInt 1))
              else Inr False)
      | _ \<Rightarrow> Inl AttributeError)"

primrec map_res :: "('a \<Rightarrow> 'b res) \<Rightarrow> 'a list \<Rightarrow> 'b list res" where
  "map_res f [] = Inr []"
| "map_res f (x # xs) =
     (case f x of Inl e \<Rightarrow> Inl e | Inr y \<Rightarrow> (case map_res f xs of Inl e \<Rightarrow> Inl e | Inr ys \<Rightarrow> Inr (y # ys)))"

definition evaluate_triggers :: "json \<Rightarrow> nat \<Rightarrow> nat \<Rightarrow> nat \<Rightarrow> bool res" where
  "evaluate_triggers definition tier_reached consecutive_windows hosts_under_attack =
     (case subscript definition ''triggers'' of
        Inl e \<Rightarrow> Inl e
      | Inr ts \<Rightarrow>
          (case iter_list ts of
             Inl e \<Rightarrow> Inl e
           | Inr xs \<Rightarrow>
               (case map_res (\<lambda>t. trigger_fires t tier_reached consecutive_windows hosts_under_attack) xs of
                  Inl e \<Rightarrow> Inl e
                | Inr results \<Rightarrow>
                    (case obj_get definition ''trigger_mode'' (JStr ''any'') of
                       Inl e \<Rightarrow> Inl e
                     | Inr mode \<Rightarrow> Inr (if mode = JStr ''all'' then list_all id results else list_ex id results)))))"

section \<open>Starting runs\<close>

text \<open>\<open>validate_definition(json.loads(...))\<close> under \<open>except (DefinitionError, json.JSONDecodeError)\<close>:
  a bad definition is skipped, any other exception is let through.\<close>

definition load_definition :: "json option \<Rightarrow> json option res" where
  "load_definition stored =
     (case stored of
        None \<Rightarrow> Inr None
      | Some j \<Rightarrow>
          (case validate_definition j of
             Inr d \<Rightarrow> Inr (Some d)
           | Inl (DefinitionError _) \<Rightarrow> Inr None
           | Inl e \<Rightarrow> Inl e))"

definition start_reason :: "nat \<Rightarrow> nat \<Rightarrow> nat \<Rightarrow> string" where
  "start_reason tier_reached consecutive_windows hosts_under_attack =
     ''tier='' @ show_nat tier_reached @ '' consecutive='' @ show_nat consecutive_windows @
     '' hosts_under_attack='' @ show_nat hosts_under_attack"

definition check_playbook ::
  "env \<Rightarrow> json \<Rightarrow> nat \<Rightarrow> nat \<Rightarrow> nat \<Rightarrow> string option \<Rightarrow> pyfloat \<Rightarrow> nat \<times> json option \<Rightarrow> unit op" where
  "check_playbook E victim_ip tier_reached consecutive_windows hosts_under_attack target_source now pb =
     (case pb of (playbook_id, definition_json) \<Rightarrow>
        bnd (get_active_playbook_run E playbook_id victim_ip) (\<lambda>active.
        if active \<noteq> None then ret ()
        else bnd (lift_res (load_definition definition_json)) (\<lambda>d.
          case d of
            None \<Rightarrow> ret ()
          | Some definition \<Rightarrow>
              bnd (lift_res (evaluate_triggers definition tier_reached consecutive_windows hosts_under_attack)) (\<lambda>fires.
              if fires
              then bnd (start_playbook_run E playbook_id victim_ip target_source
                     (start_reason tier_reached consecutive_windows hosts_under_attack) now) (\<lambda>_. ret ())
              else ret ()))))"

definition check_and_start_runs ::
  "env \<Rightarrow> json \<Rightarrow> nat \<Rightarrow> nat \<Rightarrow> nat \<Rightarrow> string option \<Rightarrow> pyfloat \<Rightarrow> unit op" where
  "check_and_start_runs E victim_ip tier_reached consecutive_windows hosts_under_attack target_source now =
     bnd (get_enabled_playbooks_for_host E victim_ip) (\<lambda>pbs.
     for_each (check_playbook E victim_ip tier_reached consecutive_windows hosts_under_attack target_source now) pbs)"

section \<open>Stages\<close>

definition unattributable :: "string option \<Rightarrow> bool" where
  "unattributable src = (case src of None \<Rightarrow> True | Some s \<Rightarrow> s = [] \<or> JStr s \<in> unknown_addrs)"

definition execute_escalate :: "env \<Rightarrow> dict \<Rightarrow> json \<Rightarrow> string option \<Rightarrow> string op" where
  "execute_escalate E stage target_host target_source =
     (case target_source of
        None \<Rightarrow> ret ''no attributable source, escalate stage skipped''
      | Some src \<Rightarrow>
          if unattributable (Some src) then ret ''no attributable source, escalate stage skipped''
          else let tier = dict_get stage ''target_tier'' (JInt 1)
            in bnd (get_enforcement_config E) (\<lambda>cfg.
               bnd (lift_res (need_num tier)) (\<lambda>t.
               if fle t (Fin 2)
               then bnd (lift_res (cfg_at cfg ''block_duration_seconds'')) (\<lambda>d.
                    bnd (block_ip E (JStr src) d target_host None None) (\<lambda>_.
                    ret (''blocked '' @ src @ '' (tier '' @ py_str tier @ '')'')))
               else bnd (lift_res (cfg_at cfg ''ratelimit_duration_seconds'')) (\<lambda>d.
                    bnd (ratelimit_ip E (JStr src) d target_host None CLASS_RATELIMITED None) (\<lambda>_.
                    ret (''rate-limited '' @ src @ '' (tier '' @ py_str tier @ '')''))))))"

text \<open>A channel that is not a string is no known channel either.\<close>

definition execute_notify :: "dict \<Rightarrow> json \<Rightarrow> string option \<Rightarrow> string op" where
  "execute_notify stage target_host target_source =
     (let channel = dict_get stage ''channel'' (JStr ''all'');
          message = ''Playbook stage fired against '' @ py_str target_host @
            (case target_source of None \<Rightarrow> [] | Some s \<Rightarrow> if s = [] then [] else '', source '' @ s) @ ''.''
      in bnd (dispatch_alert (''FLOD System: playbook escalation for '' @ py_str target_host) message
                (case channel of JStr c \<Rightarrow> c | _ \<Rightarrow> ''all'')) (\<lambda>_.
         ret (''notified ('' @ py_str channel @ '')'')))"

text \<open>\<open>_atomic_write_bytes\<close>: opening the temporary file, writing it and renaming it may each fail; the
  report is there only after the rename.\<close>

definition atomic_write_bytes :: "env \<Rightarrow> string \<Rightarrow> unit op" where
  "atomic_write_bytes E path =
     bnd (io_check E IO_Report OSError) (\<lambda>_.
     bnd (io_check E IO_Report OSError) (\<lambda>_.
     bnd (io_check E IO_Report OSError) (\<lambda>_.
     modify (\<lambda>s. s\<lparr>w_reports := w_reports s @ [path]\<rparr>))))"

definition render_report :: "env \<Rightarrow> unit op" where
  "render_report E s = (e_render E (length (w_reports s)), s)"

definition execute_report :: "env \<Rightarrow> json \<Rightarrow> string op" where
  "execute_report E target_host =
     bnd (try_except (bnd (render_report E) (\<lambda>_. ret None))
            (\<lambda>e. ret (Some (''report generation failed: '' @ e_exn_text E e)))) (\<lambda>failed.
     case failed of
       Some detail \<Rightarrow> ret detail
     | None \<Rightarrow>
         bnd (io_check E IO_Report OSError) (\<lambda>_.
         bnd (time_time E) (\<lambda>now.
         bnd (lift_res (py_int now)) (\<lambda>i.
         let path = PLAYBOOK_REPORTS_DIR (e_conf E) @ ''/playbook_report_'' @ py_str target_host @ ''_'' @ show_int i @ ''.pdf''
         in bnd (atomic_write_bytes E path) (\<lambda>_. ret path)))))"

definition execute_stage :: "env \<Rightarrow> dict \<Rightarrow> json \<Rightarrow> string option \<Rightarrow> string op" where
  "execute_stage E stage target_host target_source =
     bnd (lift_res (subscript (JObj stage) ''type'')) (\<lambda>ty.
     if ty = JStr ''escalate'' then execute_escalate E stage target_host target_source
     else if ty = JStr ''notify'' then execute_notify stage target_host target_source
     else if ty = JStr ''report'' then execute_report E target_host
     else ret (''unknown stage type '' @ py_str ty))"

section \<open>Advancing runs\<close>

text \<open>The body of the loop over the running runs, for a valid definition.\<close>

definition advance_stage :: "env \<Rightarrow> pyfloat \<Rightarrow> playbook_run \<Rightarrow> json list \<Rightarrow> unit op" where
  "advance_stage E now r stages =
     (if length stages \<le> run_stage_index r then advance_playbook_run E (run_id r) None now
      else case stages ! run_stage_index r of
        JObj stage \<Rightarrow>
          bnd (lift_res (need_num (dict_get stage ''delay_seconds'' (JInt 0)))) (\<lambda>delay.
          if flt (fsub now (run_updated_at r)) delay then ret ()
          else bnd (execute_stage E stage (run_target_host r) (run_target_source r)) (\<lambda>detail.
               bnd (lift_res (subscript (JObj stage) ''type'')) (\<lambda>ty.
               bnd (record_playbook_event E (run_id r) (run_stage_index r) (py_str ty) (run_target_source r) detail now) (\<lambda>_.
               let next_index = run_stage_index r + 1
               in advance_playbook_run E (run_id r) (if next_index < length stages then Some next_index else None) now))))
      | _ \<Rightarrow> raise_exn AttributeError)"

definition advance_run :: "env \<Rightarrow> pyfloat \<Rightarrow> playbook_run \<Rightarrow> unit op" where
  "advance_run E now r =
     bnd (get_playbook_definition E (run_playbook_id r)) (\<lambda>definition_json.
     case definition_json of
       None \<Rightarrow> ret ()
     | Some stored \<Rightarrow>
         bnd (lift_res (load_definition stored)) (\<lambda>d.
         case d of
           None \<Rightarrow> ret ()
         | Some definition \<Rightarrow>
             bnd (lift_res (subscript definition ''stages'')) (\<lambda>st.
             bnd (lift_res (iter_list st)) (\<lambda>stages. advance_stage E now r stages))))"

definition advance_runs :: "env \<Rightarrow> pyfloat \<Rightarrow> unit op" where
  "advance_runs E now =
     bnd (get_running_playbook_runs E) (\<lambda>rs. for_each (advance_run E now) rs)"

end
