(* ===== verification/Py_Csv.thy ===== *)
theory Py_Csv
  imports Py_Prelude
begin

text \<open>
  The \<open>csv\<close> module with its default dialect: \<open>csv.writer\<close> quotes a field that contains a comma, a quote
  or a line break and ends rows with a carriage return and a line feed; \<open>csv.reader\<close> is the state machine
  of its C implementation, on text opened with \<open>newline=""\<close>.

  Reading back what was written gives the rows, whatever the fields contain.
\<close>

definition csv_special :: "char \<Rightarrow> bool" where
  "csv_special c \<longleftrightarrow> c = CHR '','' \<or> c = CHR 0x22 \<or> c = CHR 0x0D \<or> c = CHR 0x0A"

definition csv_field :: "string \<Rightarrow> string" where
  "csv_field f =
     (if list_ex csv_special f
      then CHR 0x22 # concat (map (\<lambda>c. if c = CHR 0x22 then [c, c] else [c]) f) @ [CHR 0x22]
      else f)"

primrec csv_fields :: "string list \<Rightarrow> string" where
  "csv_fields [] = []"
| "csv_fields (f # fs) = csv_field f @ (if fs = [] then [] else CHR '','' # csv_fields fs)"

definition csv_row :: "string list \<Rightarrow> string" where
  "csv_row r = (if r = [[]] then [CHR 0x22, CHR 0x22] else csv_fields r) @ [CHR 0x0D, CHR 0x0A]"

definition csv_write :: "string list list \<Rightarrow> string" where
  "csv_write rows = concat (map csv_row rows)"

text \<open>The reader: between rows, at the start of a field, in a field, in a quoted field, after a quote in one.
  The field and the row read so far are kept in reverse.\<close>

datatype csv_state = Start_Record | Start_Field | In_Field | In_Quoted | Quote_In_Quoted

definition skip_lf :: "char \<Rightarrow> string \<Rightarrow> string" where
  "skip_lf c cs = (case cs of d # ds \<Rightarrow> if c = CHR 0x0D \<and> d = CHR 0x0A then ds else cs | [] \<Rightarrow> [])"

lemma length_skip_lf [simp]: "length (skip_lf c cs) \<le> length cs"
  by (auto simp: skip_lf_def split: list.split)

function csv_parse :: "csv_state \<Rightarrow> string \<Rightarrow> string list \<Rightarrow> string \<Rightarrow> string list list" where
  "csv_parse st fld row [] = (if st = Start_Record then [] else [rev (rev fld # row)])"
| "csv_parse st fld row (c # cs) =
     (let newline = (c = CHR 0x0D \<or> c = CHR 0x0A) in
      case st of
        Start_Record \<Rightarrow>
          if newline then [] # csv_parse Start_Record [] [] (skip_lf c cs)
          else if c = CHR 0x22 then csv_parse In_Quoted [] [] cs
          else if c = CHR '','' then csv_parse Start_Field [] [[]] cs
          else csv_parse In_Field [c] [] cs
      | Start_Field \<Rightarrow>
          if newline then rev ([] # row) # csv_parse Start_Record [] [] (skip_lf c cs)
          else if c = CHR 0x22 then csv_parse In_Quoted [] row cs
          else if c = CHR '','' then csv_parse Start_Field [] ([] # row) cs
          else csv_parse In_Field [c] row cs
      | In_Field \<Rightarrow>
          if newline then rev (rev fld # row) # csv_parse Start_Record [] [] (skip_lf c cs)
          else if c = CHR '','' then csv_parse Start_Field [] (rev fld # row) cs
          else csv_parse In_Field (c # fld) row cs
      | In_Quoted \<Rightarrow>
          if c = CHR 0x22 then csv_parse Quote_In_Quoted fld row cs
          else csv_parse In_Quoted (c # fld) row cs
      | Quote_In_Quoted \<Rightarrow>
          if c = CHR 0x22 then csv_parse In_Quoted (c # fld) row cs
          else if newline then rev (rev fld # row) # csv_parse Start_Record [] [] (skip_lf c cs)
          else if c = CHR '','' then csv_parse Start_Field [] (rev fld # row) cs
          else csv_parse In_Field (c # fld) row cs)"
  by pat_completeness auto
termination by (relation "measure (\<lambda>(st, fld, row, cs). length cs)") (auto simp: le_imp_less_Suc)

declare csv_parse.simps(2) [simp del]

definition csv_read :: "string \<Rightarrow> string list list" where
  "csv_read t = csv_parse Start_Record [] [] t"

section \<open>Round trip\<close>

lemma parse_plain:
  assumes "\<not> list_ex csv_special f" and "sep = CHR '','' \<or> sep = CHR 0x0D"
  shows "csv_parse In_Field fld row (f @ sep # cs) = csv_parse In_Field (rev f @ fld) row (sep # cs)"
  using assms(1)
proof (induction f arbitrary: fld)
  case (Cons c f)
  then show ?case by (simp add: csv_parse.simps(2) [of In_Field _ _ c] csv_special_def)
qed simp

lemma parse_quoted:
  "csv_parse In_Quoted fld row (concat (map (\<lambda>c. if c = CHR 0x22 then [c, c] else [c]) f) @ CHR 0x22 # cs) =
   csv_parse Quote_In_Quoted (rev f @ fld) row cs"
  by (induction f arbitrary: fld) (simp_all add: csv_parse.simps(2))

text \<open>A field followed by a comma or by the end of the row.\<close>

lemma parse_field_comma:
  assumes "st = Start_Field \<or> st = Start_Record \<and> row = []"
  shows "csv_parse st [] row (csv_field f @ CHR '','' # cs) = csv_parse Start_Field [] (f # row) cs"
proof (cases "list_ex csv_special f")
  case True
  then show ?thesis
    using assms by (auto simp: csv_field_def csv_parse.simps(2) [of _ _ _ "CHR 0x22"] parse_quoted)
      (simp_all add: csv_parse.simps(2))
next
  case False
  show ?thesis
  proof (cases f)
    case Nil
    then show ?thesis using assms by (auto simp: csv_field_def csv_parse.simps(2))
  next
    case (Cons c g)
    then have c: "\<not> csv_special c" "\<not> list_ex csv_special g" using False by auto
    have "csv_parse st [] row (f @ CHR '','' # cs) = csv_parse In_Field [c] row (g @ CHR '','' # cs)"
      using assms c(1) Cons by (auto simp: csv_parse.simps(2) [of _ _ _ c] csv_special_def)
    then show ?thesis
      using False parse_plain [OF c(2), of "CHR '',''" "[c]" row cs] Cons by (simp add: csv_field_def csv_parse.simps(2))
  qed
qed

lemma parse_field_end:
  assumes "st = Start_Field \<or> st = Start_Record \<and> row = [] \<and> csv_field f \<noteq> []"
  shows "csv_parse st [] row (csv_field f @ CHR 0x0D # CHR 0x0A # cs) = rev (f # row) # csv_parse Start_Record [] [] cs"
proof (cases "list_ex csv_special f")
  case True
  then show ?thesis
    using assms by (auto simp: csv_field_def csv_parse.simps(2) [of _ _ _ "CHR 0x22"] parse_quoted)
      (simp_all add: csv_parse.simps(2) skip_lf_def)
next
  case False
  show ?thesis
  proof (cases f)
    case Nil
    then show ?thesis using assms by (auto simp: csv_field_def csv_parse.simps(2) skip_lf_def)
  next
    case (Cons c g)
    then have c: "\<not> csv_special c" "\<not> list_ex csv_special g" using False by auto
    have "csv_parse st [] row (f @ CHR 0x0D # CHR 0x0A # cs) = csv_parse In_Field [c] row (g @ CHR 0x0D # CHR 0x0A # cs)"
      using assms c(1) Cons by (auto simp: csv_parse.simps(2) [of _ _ _ c] csv_special_def)
    then show ?thesis
      using False parse_plain [OF c(2), of "CHR 0x0D" "[c]" row "CHR 0x0A # cs"] Cons
      by (simp add: csv_field_def csv_parse.simps(2) skip_lf_def)
  qed
qed

lemma parse_fields:
  "fs \<noteq> [] \<Longrightarrow>
   csv_parse Start_Field [] row (csv_fields fs @ CHR 0x0D # CHR 0x0A # cs) = rev (rev fs @ row) # csv_parse Start_Record [] [] cs"
proof (induction fs arbitrary: row)
  case (Cons f fs)
  show ?case
  proof (cases fs)
    case Nil
    then show ?thesis by (simp add: parse_field_end)
  next
    case (Cons g gs)
    then show ?thesis using Cons.IH [of "f # row"] by (simp add: parse_field_comma)
  qed
qed simp

lemma csv_field_Nil [simp]: "csv_field f = [] \<longleftrightarrow> f = []"
  by (auto simp: csv_field_def)

lemma parse_row: "csv_parse Start_Record [] [] (csv_row r @ cs) = r # csv_parse Start_Record [] [] cs"
proof (cases r)
  case Nil
  then show ?thesis by (simp add: csv_row_def csv_parse.simps(2) skip_lf_def)
next
  case (Cons f fs)
  show ?thesis
  proof (cases "r = [[]]")
    case True
    then show ?thesis by (simp add: csv_row_def csv_parse.simps(2) skip_lf_def)
  next
    case False
    then show ?thesis
      using Cons parse_fields [of fs "[f]"] parse_field_end [of Start_Record "[]" f cs]
      by (cases "fs = []") (auto simp: csv_row_def parse_field_comma)
  qed
qed

lemma csv_read_append: "csv_read (csv_write rows @ t) = rows @ csv_read t"
  by (induction rows) (simp_all add: csv_write_def csv_read_def parse_row)

lemma csv_read_write [simp]: "csv_read (csv_write rows) = rows"
  using csv_read_append [of rows "[]"] by (simp add: csv_read_def)

lemma csv_write_append: "csv_write (xs @ ys) = csv_write xs @ csv_write ys"
  by (simp add: csv_write_def)

end
