(* ===== verification/Wire.thy ===== *)
theory Wire
  imports Py_Float "HOL-Library.Word"
begin

text \<open>
  The feature vector on the socket: \<open>FeatureVector::to_bytes\<close> of \<open>stage1/src/ipc.rs\<close> on one side, the
  framing by \<open>recv\<close>, \<open>struct.unpack("<23d16s16s")\<close> and \<open>decode_ip\<close> of \<open>stage2/ipc_receiver.py\<close> on
  the other.

  A \<open>f64\<close> of Stage 1 is its 64 bits; Stage 2 reads them as a Python float. A connection is the bytes the
  peer sends before it closes, together with how many bytes each \<open>recv\<close> happens to find, so what a read
  returns is a prefix of what was asked for of any positive length.

  Shown here: a window arrives as it was sent, whatever the chunks, field by field, with the addresses as
  text; incomplete data at the end of a connection is dropped, and reading always ends.
\<close>

section \<open>Floats and bytes\<close>

type_synonym byte = "8 word"

definition le_int :: "byte list \<Rightarrow> int" where
  "le_int bs = horner_sum uint 256 bs"

definition le_bytes :: "nat \<Rightarrow> int \<Rightarrow> byte list" where
  "le_bytes n x = map (\<lambda>i. word_of_int (x div 256 ^ i)) [0 ..< n]"

text \<open>The value of the 64 bits of a double: sign, eleven bits of exponent, 52 bits of fraction.\<close>

definition float_of_bits :: "int \<Rightarrow> pyfloat" where
  "float_of_bits x =
     (let e = x div 2 ^ 52 mod 2 ^ 11; m = x mod 2 ^ 52; neg = (x div 2 ^ 63 = 1);
          mag = (if e = 0 then of_int m * pow2 (- 1074) else of_int (2 ^ 52 + m) * pow2 (e - 1075))
      in if e = 2047 then (if m \<noteq> 0 then NaN else if neg then NInf else PInf)
         else Fin (if neg then - mag else mag))"

section \<open>Stage 1: the feature vector\<close>

datatype ip_addr = V4 "byte list" | V6 "byte list"

text \<open>The fields in the order of the wire; \<open>'f\<close> is the type of a number and \<open>'a\<close> of an address.\<close>

record ('f, 'a) feature_vector =
  fv_entropy :: 'f
  fv_ewma_rate :: 'f
  fv_mean_h :: 'f
  fv_mean_r :: 'f
  fv_sigma_h :: 'f
  fv_sigma_r :: 'f
  fv_proto_ratio :: 'f
  fv_dominant_ip_ratio :: 'f
  fv_timestamp :: 'f
  fv_proto_tcp :: 'f
  fv_proto_udp :: 'f
  fv_proto_icmp :: 'f
  fv_proto_sctp :: 'f
  fv_proto_gre :: 'f
  fv_proto_esp :: 'f
  fv_k_multiplier :: 'f
  fv_cooldown_counter :: 'f
  fv_egress_rate :: 'f
  fv_drop_ratio :: 'f
  fv_source_port_entropy :: 'f
  fv_ttl_variance :: 'f
  fv_fingerprint_diversity :: 'f
  fv_is_warmup :: 'f
  fv_dominant_ip :: 'a
  fv_victim_ip :: 'a

definition to_ipv6_mapped :: "byte list \<Rightarrow> byte list" where
  "to_ipv6_mapped v4 = replicate 10 0 @ [255, 255] @ v4"

definition ip_octets :: "ip_addr \<Rightarrow> byte list" where
  "ip_octets ip = (case ip of V4 v4 \<Rightarrow> to_ipv6_mapped v4 | V6 v6 \<Rightarrow> v6)"

definition fv_floats :: "('f, 'a) feature_vector \<Rightarrow> 'f list" where
  "fv_floats v =
     [fv_entropy v, fv_ewma_rate v, fv_mean_h v, fv_mean_r v, fv_sigma_h v, fv_sigma_r v, fv_proto_ratio v,
      fv_dominant_ip_ratio v, fv_timestamp v, fv_proto_tcp v, fv_proto_udp v, fv_proto_icmp v, fv_proto_sctp v,
      fv_proto_gre v, fv_proto_esp v, fv_k_multiplier v, fv_cooldown_counter v, fv_egress_rate v, fv_drop_ratio v,
      fv_source_port_entropy v, fv_ttl_variance v, fv_fingerprint_diversity v, fv_is_warmup v]"

definition to_bytes :: "(64 word, ip_addr) feature_vector \<Rightarrow> byte list" where
  "to_bytes v =
     concat (map (\<lambda>w. le_bytes 8 (uint w)) (fv_floats v)) @ ip_octets (fv_dominant_ip v) @ ip_octets (fv_victim_ip v)"

section \<open>Stage 2: reading windows\<close>

definition PAYLOAD_SIZE :: nat where
  "PAYLOAD_SIZE = 23 * 8 + 16 + 16"

record conn =
  c_data :: "byte list"
  c_avail :: "nat \<Rightarrow> nat"
  c_calls :: nat

text \<open>\<open>conn.recv(n)\<close>: at least one byte while there are any, never more than \<open>n\<close>, and the empty answer
  once the peer has closed.\<close>

definition recv :: "nat \<Rightarrow> conn \<Rightarrow> byte list \<times> conn" where
  "recv n c =
     (let k = min n (Suc (c_avail c (c_calls c)))
      in (take k (c_data c), c\<lparr>c_data := drop k (c_data c), c_calls := Suc (c_calls c)\<rparr>))"

text \<open>The loop that completes a short read; it ends because a chunk is never empty before the end.\<close>

function complete :: "byte list \<Rightarrow> conn \<Rightarrow> byte list \<times> conn" where
  "complete data c =
     (if length data < PAYLOAD_SIZE
      then case recv (PAYLOAD_SIZE - length data) c of
        (chunk, c') \<Rightarrow> if chunk = [] then (data, c') else complete (data @ chunk) c'
      else (data, c))"
  by pat_completeness auto
termination
  by (relation "measure (\<lambda>(data, c). PAYLOAD_SIZE - length data)") (auto intro!: diff_less_mono2)

declare complete.simps [simp del]

definition recv_window :: "conn \<Rightarrow> (byte list \<times> conn) option" where
  "recv_window c =
     (case recv PAYLOAD_SIZE c of
        (data, c') \<Rightarrow>
          if data = [] then None
          else if length data < PAYLOAD_SIZE
          then (case complete data c' of (d, c'') \<Rightarrow> if length d < PAYLOAD_SIZE then None else Some (d, c''))
          else Some (data, c'))"

definition chunk_at :: "nat \<Rightarrow> byte list \<Rightarrow> byte list" where
  "chunk_at i data = take 8 (drop (8 * i) data)"

text \<open>\<open>struct.unpack\<close> refuses any other length.\<close>

definition unpack :: "byte list \<Rightarrow> (pyfloat list \<times> byte list \<times> byte list) res" where
  "unpack data =
     (if length data \<noteq> PAYLOAD_SIZE then Inl ValueError
      else Inr (map (\<lambda>i. float_of_bits (le_int (chunk_at i data))) [0 ..< 23],
                take 16 (drop 184 data), drop 200 data))"

section \<open>Addresses\<close>

text \<open>The text of an address: four decimal numbers, or eight hexadecimal groups with the first longest
  run of two or more zero groups left out.\<close>

definition hex_digit :: "nat \<Rightarrow> char" where
  "hex_digit d = (if d < 10 then digit_char d else char_of (87 + d))"

fun show_hex :: "nat \<Rightarrow> string" where
  "show_hex n = (if n < 16 then [hex_digit n] else show_hex (n div 16) @ [hex_digit (n mod 16)])"

declare show_hex.simps [simp del]

primrec join :: "string \<Rightarrow> string list \<Rightarrow> string" where
  "join sep [] = []"
| "join sep (x # xs) = x @ (if xs = [] then [] else sep @ join sep xs)"

definition show_ipv4 :: "byte list \<Rightarrow> string" where
  "show_ipv4 bs = join ''.'' (map (\<lambda>b. show_nat (unat b)) bs)"

fun hextets :: "byte list \<Rightarrow> string list" where
  "hextets (a # b # bs) = show_hex (256 * unat a + unat b) # hextets bs"
| "hextets _ = []"

text \<open>\<open>(best_start, best_len)\<close> over the groups from \<open>i\<close> on; \<open>cur\<close> is the run that ends before \<open>i\<close>.\<close>

fun best_zero_run :: "string list \<Rightarrow> nat \<Rightarrow> (nat \<times> nat) option \<Rightarrow> nat \<times> nat \<Rightarrow> nat \<times> nat" where
  "best_zero_run [] i cur best = best"
| "best_zero_run (h # hs) i cur best =
     (if h = ''0''
      then let (st, len) = (case cur of None \<Rightarrow> (i, 1) | Some (st, len) \<Rightarrow> (st, len + 1))
           in best_zero_run hs (i + 1) (Some (st, len)) (if snd best < len then (st, len) else best)
      else best_zero_run hs (i + 1) None best)"

definition compress_hextets :: "string list \<Rightarrow> string list" where
  "compress_hextets hs =
     (case best_zero_run hs 0 None (0, 0) of
        (st, len) \<Rightarrow>
          if 1 < len
          then let hs' = (if st + len = length hs then hs @ [[]] else hs);
                   hs'' = take st hs' @ [[]] @ drop (st + len) hs'
               in if st = 0 then [] # hs'' else hs''
          else hs)"

definition show_ipv6 :: "byte list \<Rightarrow> string" where
  "show_ipv6 bs = join '':'' (compress_hextets (hextets bs))"

definition ipv4_mapped :: "byte list \<Rightarrow> byte list option" where
  "ipv4_mapped bs = (if take 12 bs = replicate 10 0 @ [255, 255] then Some (drop 12 bs) else None)"

definition decode_ip :: "byte list \<Rightarrow> string" where
  "decode_ip ip_bytes =
     (if length ip_bytes \<noteq> 16 then ''Unknown''
      else case ipv4_mapped ip_bytes of Some v4 \<Rightarrow> show_ipv4 v4 | None \<Rightarrow> show_ipv6 ip_bytes)"

text \<open>The fields the receive loop takes from the tuple.\<close>

definition fields_of :: "pyfloat list \<times> byte list \<times> byte list \<Rightarrow> (pyfloat, string) feature_vector" where
  "fields_of u =
     (case u of (x, src, vic) \<Rightarrow>
        \<lparr>fv_entropy = x ! 0, fv_ewma_rate = x ! 1, fv_mean_h = x ! 2, fv_mean_r = x ! 3, fv_sigma_h = x ! 4,
         fv_sigma_r = x ! 5, fv_proto_ratio = x ! 6, fv_dominant_ip_ratio = x ! 7, fv_timestamp = x ! 8,
         fv_proto_tcp = x ! 9, fv_proto_udp = x ! 10, fv_proto_icmp = x ! 11, fv_proto_sctp = x ! 12,
         fv_proto_gre = x ! 13, fv_proto_esp = x ! 14, fv_k_multiplier = x ! 15, fv_cooldown_counter = x ! 16,
         fv_egress_rate = x ! 17, fv_drop_ratio = x ! 18, fv_source_port_entropy = x ! 19, fv_ttl_variance = x ! 20,
         fv_fingerprint_diversity = x ! 21, fv_is_warmup = x ! 22, fv_dominant_ip = decode_ip src,
         fv_victim_ip = decode_ip vic\<rparr>)"

section \<open>Bytes and numbers\<close>

lemma length_le_bytes [simp]: "length (le_bytes n x) = n"
  by (simp add: le_bytes_def)

lemma le_bytes_Suc: "le_bytes (Suc n) x = word_of_int x # le_bytes n (x div 256)"
  unfolding le_bytes_def
  by (simp add: upt_conv_Cons map_Suc_upt [symmetric] zdiv_zmult2_eq comp_def del: upt_Suc)

lemma le_int_bytes: "le_int (le_bytes n x) = x mod 256 ^ n"
proof (induction n arbitrary: x)
  case (Suc n)
  have "uint (word_of_int x :: byte) = x mod 256" by (simp add: unsigned_of_int take_bit_eq_mod)
  then show ?case
    using Suc [of "x div 256"] by (simp add: le_bytes_Suc le_int_def zmod_zmult2_eq)
qed (simp add: le_bytes_def le_int_def)

lemma le_int_word: "le_int (le_bytes 8 (uint (w :: 64 word))) = uint w"
proof -
  have "uint w < 2 ^ 64" using uint_bounded [of w] by simp
  then show ?thesis by (simp add: le_int_bytes)
qed

lemma take_drop_concat:
  assumes "\<forall>x \<in> set xs. length (f x) = n" and "i < length xs"
  shows "take n (drop (n * i) (concat (map f xs) @ rest)) = f (xs ! i)"
  using assms
proof (induction xs arbitrary: i)
  case (Cons x xs)
  then show ?case by (cases i) simp_all
qed simp

definition ip_ok :: "ip_addr \<Rightarrow> bool" where
  "ip_ok ip = (case ip of V4 bs \<Rightarrow> length bs = 4 | V6 bs \<Rightarrow> length bs = 16)"

lemma length_ip_octets [simp]: "ip_ok ip \<Longrightarrow> length (ip_octets ip) = 16"
  by (auto simp: ip_ok_def ip_octets_def to_ipv6_mapped_def split: ip_addr.splits)

text \<open>The text of an address as Stage 2 shows it.\<close>

definition ip_text :: "ip_addr \<Rightarrow> string" where
  "ip_text ip = (case ip of V4 bs \<Rightarrow> show_ipv4 bs
     | V6 bs \<Rightarrow> (case ipv4_mapped bs of Some v4 \<Rightarrow> show_ipv4 v4 | None \<Rightarrow> show_ipv6 bs))"

lemma decode_ip_octets: "ip_ok ip \<Longrightarrow> decode_ip (ip_octets ip) = ip_text ip"
  using length_ip_octets [of ip]
  by (auto simp: decode_ip_def ip_text_def ip_octets_def ipv4_mapped_def to_ipv6_mapped_def numeral_eq_Suc split: ip_addr.split)

definition read_bits :: "64 word \<Rightarrow> pyfloat" where
  "read_bits w = float_of_bits (uint w)"

text \<open>What Stage 2 should see of a vector of Stage 1.\<close>

definition seen :: "(64 word, ip_addr) feature_vector \<Rightarrow> (pyfloat, string) feature_vector" where
  "seen v = \<lparr>fv_entropy = read_bits (fv_entropy v), fv_ewma_rate = read_bits (fv_ewma_rate v),
     fv_mean_h = read_bits (fv_mean_h v), fv_mean_r = read_bits (fv_mean_r v), fv_sigma_h = read_bits (fv_sigma_h v),
     fv_sigma_r = read_bits (fv_sigma_r v), fv_proto_ratio = read_bits (fv_proto_ratio v),
     fv_dominant_ip_ratio = read_bits (fv_dominant_ip_ratio v), fv_timestamp = read_bits (fv_timestamp v),
     fv_proto_tcp = read_bits (fv_proto_tcp v), fv_proto_udp = read_bits (fv_proto_udp v),
     fv_proto_icmp = read_bits (fv_proto_icmp v), fv_proto_sctp = read_bits (fv_proto_sctp v),
     fv_proto_gre = read_bits (fv_proto_gre v), fv_proto_esp = read_bits (fv_proto_esp v),
     fv_k_multiplier = read_bits (fv_k_multiplier v), fv_cooldown_counter = read_bits (fv_cooldown_counter v),
     fv_egress_rate = read_bits (fv_egress_rate v), fv_drop_ratio = read_bits (fv_drop_ratio v),
     fv_source_port_entropy = read_bits (fv_source_port_entropy v), fv_ttl_variance = read_bits (fv_ttl_variance v),
     fv_fingerprint_diversity = read_bits (fv_fingerprint_diversity v), fv_is_warmup = read_bits (fv_is_warmup v),
     fv_dominant_ip = ip_text (fv_dominant_ip v), fv_victim_ip = ip_text (fv_victim_ip v)\<rparr>"

definition addresses_ok :: "(64 word, ip_addr) feature_vector \<Rightarrow> bool" where
  "addresses_ok v \<longleftrightarrow> ip_ok (fv_dominant_ip v) \<and> ip_ok (fv_victim_ip v)"

lemma length_fv_floats [simp]: "length (fv_floats v) = 23"
  by (simp add: fv_floats_def)

lemma length_floats_bytes [simp]: "length (concat (map (\<lambda>w. le_bytes 8 (g w)) xs)) = 8 * length xs"
  by (induction xs) simp_all

lemma length_to_bytes: "addresses_ok v \<Longrightarrow> length (to_bytes v) = PAYLOAD_SIZE"
  by (simp add: addresses_ok_def to_bytes_def PAYLOAD_SIZE_def)

lemma unpack_to_bytes:
  assumes "addresses_ok v"
  shows "unpack (to_bytes v) =
    Inr (map read_bits (fv_floats v), ip_octets (fv_dominant_ip v), ip_octets (fv_victim_ip v))"
proof -
  have len: "length (ip_octets (fv_dominant_ip v)) = 16" "length (ip_octets (fv_victim_ip v)) = 16"
    using assms by (simp_all add: addresses_ok_def)
  let ?rest = "ip_octets (fv_dominant_ip v) @ ip_octets (fv_victim_ip v)"
  have "chunk_at i (to_bytes v) = le_bytes 8 (uint (fv_floats v ! i))" if "i < 23" for i
    unfolding chunk_at_def to_bytes_def
    using take_drop_concat [of "fv_floats v" "\<lambda>w. le_bytes 8 (uint w)" 8 i ?rest] that by (simp del: drop_append take_append)
  then have "map (\<lambda>i. float_of_bits (le_int (chunk_at i (to_bytes v)))) [0 ..< 23] = map (\<lambda>i. read_bits (fv_floats v ! i)) [0 ..< 23]"
    by (simp add: le_int_word read_bits_def)
  also have "\<dots> = map read_bits (fv_floats v)" by (rule nth_equalityI) simp_all
  finally show ?thesis
    using length_to_bytes [OF assms] len by (simp add: unpack_def) (simp add: to_bytes_def)
qed

lemma fields_of_unpack: "addresses_ok v \<Longrightarrow>
   fields_of (map read_bits (fv_floats v), ip_octets (fv_dominant_ip v), ip_octets (fv_victim_ip v)) = seen v"
  by (simp add: fields_of_def seen_def fv_floats_def decode_ip_octets addresses_ok_def)

section \<open>Framing\<close>

lemma complete_eq:
  "length data < PAYLOAD_SIZE \<Longrightarrow>
   fst (complete data c) = data @ take (PAYLOAD_SIZE - length data) (c_data c) \<and>
   c_data (snd (complete data c)) = drop (PAYLOAD_SIZE - length data) (c_data c)"
proof (induction data c rule: complete.induct)
  case (1 data c)
  define n where "n = PAYLOAD_SIZE - length data"
  define k where "k = min n (Suc (c_avail c (c_calls c)))"
  define ch where "ch = take k (c_data c)"
  define c' where "c' = c\<lparr>c_data := drop k (c_data c), c_calls := Suc (c_calls c)\<rparr>"
  have k: "0 < k" "k \<le> n" using "1.prems" by (auto simp: k_def n_def)
  have r: "recv (PAYLOAD_SIZE - length data) c = (ch, c')" by (simp add: recv_def Let_def ch_def c'_def k_def n_def)
  have d': "c_data c' = drop k (c_data c)" by (simp add: c'_def)
  show ?case
  proof (cases "ch = []")
    case True
    then have "c_data c = []" using k by (simp add: ch_def)
    then show ?thesis using "1.prems" r True d' by (simp add: complete.simps [of data c])
  next
    case False
    then have c: "complete data c = complete (data @ ch) c'" using "1.prems" r by (simp add: complete.simps [of data c])
    show ?thesis
    proof (cases "length (data @ ch) < PAYLOAD_SIZE")
      case True
      have ih: "fst (complete (data @ ch) c') = (data @ ch) @ take (n - length ch) (c_data c')"
        "c_data (snd (complete (data @ ch) c')) = drop (n - length ch) (c_data c')"
        using "1.IH" [OF "1.prems" r [symmetric] False True] by (simp_all add: n_def diff_diff_left)
      have "ch @ take (n - length ch) (drop k (c_data c)) = take n (c_data c)"
        "drop (n - length ch) (drop k (c_data c)) = drop n (c_data c)"
        using k by (cases "length (c_data c) < k"; simp add: ch_def min_def take_add [symmetric])+
      then show ?thesis unfolding c ih d' by (simp add: n_def)
    next
      case full: False
      then have "n \<le> length ch" by (simp add: n_def)
      then have "k = n" "length ch = n" using k by (auto simp: ch_def)
      moreover have "complete (data @ ch) c' = (data @ ch, c')" using full by (simp add: complete.simps [of "data @ ch"])
      ultimately show ?thesis unfolding c using d' by (simp add: ch_def n_def)
    qed
  qed
qed

lemma recv_window_eq:
  "(PAYLOAD_SIZE \<le> length (c_data c) \<longrightarrow>
     (\<exists>c'. recv_window c = Some (take PAYLOAD_SIZE (c_data c), c') \<and> c_data c' = drop PAYLOAD_SIZE (c_data c))) \<and>
   (length (c_data c) < PAYLOAD_SIZE \<longrightarrow> recv_window c = None)"
proof -
  define k where "k = min PAYLOAD_SIZE (Suc (c_avail c (c_calls c)))"
  define data where "data = take k (c_data c)"
  define c' where "c' = c\<lparr>c_data := drop k (c_data c), c_calls := Suc (c_calls c)\<rparr>"
  have k: "0 < k" "k \<le> PAYLOAD_SIZE" by (auto simp: k_def PAYLOAD_SIZE_def)
  have r: "recv PAYLOAD_SIZE c = (data, c')" by (simp add: recv_def Let_def data_def c'_def k_def)
  have d': "c_data c' = drop k (c_data c)" by (simp add: c'_def)
  show ?thesis
  proof (cases "length data < PAYLOAD_SIZE")
    case True
    have ih: "fst (complete data c') = data @ take (PAYLOAD_SIZE - length data) (c_data c')"
      "c_data (snd (complete data c')) = drop (PAYLOAD_SIZE - length data) (c_data c')"
      using complete_eq [OF True] by simp_all
    have all: "data @ take (PAYLOAD_SIZE - length data) (drop k (c_data c)) = take PAYLOAD_SIZE (c_data c)"
      "drop (PAYLOAD_SIZE - length data) (drop k (c_data c)) = drop PAYLOAD_SIZE (c_data c)"
      using k by (cases "length (c_data c) < k"; simp add: data_def min_def take_add [symmetric])+
    have res: "fst (complete data c') = take PAYLOAD_SIZE (c_data c)" "c_data (snd (complete data c')) = drop PAYLOAD_SIZE (c_data c)"
      unfolding ih d' all by simp_all
    obtain d c'' where cmp: "complete data c' = (d, c'')" by fastforce
    have "data = [] \<Longrightarrow> c_data c = []" using k by (simp add: data_def)
    then show ?thesis
      using res True unfolding recv_window_def r by (auto simp: cmp PAYLOAD_SIZE_def)
  next
    case False
    then have "length (c_data c) \<ge> PAYLOAD_SIZE" "k = PAYLOAD_SIZE" using k by (auto simp: data_def)
    then show ?thesis
      unfolding recv_window_def r using d' False by (auto simp: data_def PAYLOAD_SIZE_def)
  qed
qed

text \<open>All windows of a connection.\<close>

function recv_all :: "conn \<Rightarrow> byte list list" where
  "recv_all c = (case recv_window c of None \<Rightarrow> [] | Some (d, c') \<Rightarrow> d # recv_all c')"
  by pat_completeness auto
termination
proof (relation "measure (length \<circ> c_data)")
  fix c p d c'
  assume "recv_window c = Some p" and "(d, c') = p"
  then show "(c', c) \<in> measure (length \<circ> c_data)"
    using recv_window_eq [of c] by (cases "PAYLOAD_SIZE \<le> length (c_data c)") (auto simp: PAYLOAD_SIZE_def)
qed simp

declare recv_all.simps [simp del]

lemma recv_all_windows:
  assumes "c_data c = concat ws @ rest" and "\<forall>w \<in> set ws. length w = PAYLOAD_SIZE" and "length rest < PAYLOAD_SIZE"
  shows "recv_all c = ws"
  using assms
proof (induction ws arbitrary: c)
  case Nil
  then show ?case using recv_window_eq [of c] by (simp add: recv_all.simps [of c])
next
  case (Cons w ws)
  then obtain c' where "recv_window c = Some (w, c')" "c_data c' = concat ws @ rest"
    using recv_window_eq [of c] by auto
  then show ?case using Cons by (simp add: recv_all.simps [of c])
qed

text \<open>
  C29. A window arrives as Stage 1 sent it. Whatever the vectors sent, and however the socket cuts the stream into
  chunks, reading the connection ends and yields exactly those vectors, in order, every number with the value of
  its 64 bits and both addresses as text; bytes of an incomplete vector at the end are dropped.
\<close>

theorem windows_roundtrip:
  assumes "c_data c = concat (map to_bytes vs) @ rest" and "\<forall>v \<in> set vs. addresses_ok v" and "length rest < 216"
  shows "map (\<lambda>d. map_sum id fields_of (unpack d)) (recv_all c) = map (\<lambda>v. Inr (seen v)) vs"
proof -
  have "recv_all c = map to_bytes vs"
    using assms length_to_bytes by (intro recv_all_windows [where rest = rest]) (auto simp: PAYLOAD_SIZE_def)
  then show ?thesis
    using assms(2) by (simp add: unpack_to_bytes fields_of_unpack)
qed


definition lab_vector :: "(64 word, ip_addr) feature_vector" where
  "lab_vector = \<lparr>fv_entropy = 0x3FE0000000000000, fv_ewma_rate = 0x40934A0000000000, fv_mean_h = 0, fv_mean_r = 0, fv_sigma_h = 0,
     fv_sigma_r = 0, fv_proto_ratio = 0, fv_dominant_ip_ratio = 0, fv_timestamp = 0, fv_proto_tcp = 0, fv_proto_udp = 0,
     fv_proto_icmp = 0, fv_proto_sctp = 0, fv_proto_gre = 0, fv_proto_esp = 0, fv_k_multiplier = 0, fv_cooldown_counter = 0,
     fv_egress_rate = 0, fv_drop_ratio = 0, fv_source_port_entropy = 0, fv_ttl_variance = 0, fv_fingerprint_diversity = 0,
     fv_is_warmup = 0, fv_dominant_ip = V4 [192, 168, 1, 4], fv_victim_ip = V6 (replicate 15 0 @ [1])\<rparr>"

theorem windows_roundtrip_witness:
  "map (\<lambda>d. map_sum id fields_of (unpack d)) (recv_all \<lparr>c_data = to_bytes lab_vector, c_avail = (\<lambda>_. 99), c_calls = 0\<rparr>) =
     [Inr (seen lab_vector)] \<and>
   fv_ewma_rate (seen lab_vector) = Fin (2469 / 2) \<and> fv_dominant_ip (seen lab_vector) = ''192.168.1.4'' \<and>
   fv_victim_ip (seen lab_vector) = ''::1''"
proof -
  have "addresses_ok lab_vector" by (simp add: addresses_ok_def lab_vector_def ip_ok_def)
  then have "map (\<lambda>d. map_sum id fields_of (unpack d)) (recv_all \<lparr>c_data = to_bytes lab_vector, c_avail = (\<lambda>_. 99), c_calls = 0\<rparr>) =
     [Inr (seen lab_vector)]"
    using windows_roundtrip [of "\<lparr>c_data = to_bytes lab_vector, c_avail = (\<lambda>_. 99), c_calls = 0\<rparr>" "[lab_vector]" "[]"] by simp
  moreover have "fv_ewma_rate (seen lab_vector) = Fin (2469 / 2)" by code_simp
  moreover have "fv_dominant_ip (seen lab_vector) = ''192.168.1.4''" by code_simp
  moreover have "fv_victim_ip (seen lab_vector) = ''::1''" by code_simp
  ultimately show ?thesis by blast
qed

section \<open>Numbers and addresses\<close>

text \<open>
  Every finite number read from the wire is a double that the arithmetic keeps exactly: rounding it gives the
  number itself, for each of the bit patterns, subnormal numbers included.
\<close>

theorem unpacked_floats_exact:
  assumes "0 \<le> x" and "x < 2 ^ 64" and "float_of_bits x = Fin r"
  shows "fl_round r = Fin r"
proof -
  define e where "e = x div 2 ^ 52 mod 2 ^ 11"
  define m where "m = x mod 2 ^ 52"
  have m: "0 \<le> m" "m < 2 ^ 52" and e: "0 \<le> e" "e < 2 ^ 11" by (simp_all add: m_def e_def)
  have ne: "e \<noteq> 2047" using assms(3) by (auto simp: float_of_bits_def Let_def e_def split: if_splits)
  define mag :: rat where "mag = (if e = 0 then of_int m * pow2 (- 1074) else of_int (2 ^ 52 + m) * pow2 (e - 1075))"
  have r: "r = mag \<or> r = - mag"
    using assms(3) ne unfolding float_of_bits_def Let_def e_def [symmetric] m_def [symmetric] mag_def [symmetric]
    by (simp split: if_splits)
  have "\<exists>k f. mag = of_int k * pow2 f \<and> \<bar>k\<bar> < 2 ^ 53 \<and> - 1074 \<le> f \<and> f \<le> 971"
  proof (cases "e = 0")
    case True
    then show ?thesis unfolding mag_def using m by (intro exI [of _ m] exI [of _ "- 1074"]) simp
  next
    case False
    then show ?thesis
      unfolding mag_def using m e ne by (intro exI [of _ "2 ^ 52 + m"] exI [of _ "e - 1075"]) simp
  qed
  then obtain k f where mag: "mag = of_int k * pow2 f" and k: "\<bar>k\<bar> < 2 ^ 53" and f: "- 1074 \<le> f" "f \<le> 971" by blast
  have "fl_round mag = Fin mag" using fl_round_exact [OF k f] by (simp add: mag)
  then show ?thesis using r by (auto simp: fl_round_minus)
qed

theorem unpacked_floats_exact_witness: "fl_round (1 / 2) = Fin (1 / 2)"
proof -
  have "float_of_bits 0x3FE0000000000000 = Fin (1 / 2)" by code_simp
  from unpacked_floats_exact [OF _ _ this] show ?thesis by simp
qed

lemma show_nat_no_dot: "CHR ''.'' \<notin> set (show_nat n)"
proof
  assume "CHR ''.'' \<in> set (show_nat n)"
  then obtain d where "d < 10" and "CHR ''.'' = digit_char d" using show_nat_digits by blast
  then have "digit_val (CHR ''.'') = Some d" by simp
  then show False by (simp add: digit_val_def)
qed

lemma split_join: "xs \<noteq> [] \<Longrightarrow> \<forall>x \<in> set xs. sep \<notin> set x \<Longrightarrow> split_on sep (join [sep] xs) = xs"
  by (induction xs) (auto simp: split_on_append split_on_no_sep)

text \<open>
  Different IPv4 addresses have different texts, so the address that is blocked, and the whitelist entry it is
  compared with, is the one that sent the traffic and no other.
\<close>

theorem ipv4_text_injective:
  assumes "length a = 4" and "length b = 4" and "decode_ip (to_ipv6_mapped a) = decode_ip (to_ipv6_mapped b)"
  shows "a = b"
proof -
  have d: "decode_ip (to_ipv6_mapped x) = show_ipv4 x" if "length x = 4" for x
    using decode_ip_octets [of "V4 x"] that by (simp add: ip_ok_def ip_octets_def ip_text_def)
  have s: "split_on (CHR ''.'') (show_ipv4 x) = map (\<lambda>b. show_nat (unat b)) x" if "length x = 4" for x
    unfolding show_ipv4_def using that show_nat_no_dot by (subst split_join) auto
  have "map (\<lambda>b. show_nat (unat b)) a = map (\<lambda>b. show_nat (unat b)) b"
    using assms d s by metis
  moreover have "inj (\<lambda>b :: byte. show_nat (unat b))"
    by (rule injI) (metis show_nat_inj word_unat_eq_iff)
  ultimately show ?thesis by (simp add: inj_map_eq_map)
qed

theorem ipv4_text_injective_witness:
  "decode_ip (to_ipv6_mapped [10, 0, 0, 1]) \<noteq> decode_ip (to_ipv6_mapped [10, 0, 0, 2])"
  using ipv4_text_injective [of "[10, 0, 0, 1]" "[10, 0, 0, 2]"] by auto

end
