(* ===== verification/Capture.thy ===== *)
theory Capture
  imports World Py_Csv Wire
begin

text \<open>
  The capture files of \<open>stage2/ipc_receiver.py\<close>: windows kept for later labelling, appended to a CSV file
  under a lock that the receive loop never waits for. A row that finds the file locked waits in memory for
  the next append. A file is its text, so its size is the length of the text; a write that fails writes
  nothing.
\<close>

section \<open>Columns\<close>

definition BASE_COLUMNS :: "string list" where
  "BASE_COLUMNS =
     [''entropy'', ''ewma_rate'', ''mean_h'', ''mean_r'', ''sigma_h'', ''sigma_r'', ''proto_ratio'', ''dominant_ip_ratio'',
      ''source_port_entropy'', ''ttl_variance'', ''fingerprint_diversity'', ''timestamp'', ''label'']"

definition ANOMALOUS_CSV_HEADER :: "string list" where
  "ANOMALOUS_CSV_HEADER = BASE_COLUMNS @ [''victim_ip'', ''if_score'', ''rf_verdict'']"

definition PRETRAINING_CSV_HEADER :: "string list" where
  "PRETRAINING_CSV_HEADER = BASE_COLUMNS"

definition DDOS_CAPTURE_CSV_HEADER :: "string list" where
  "DDOS_CAPTURE_CSV_HEADER = BASE_COLUMNS"

type_synonym window = "(pyfloat, string) feature_vector"

definition base_feature_row :: "window \<Rightarrow> string list" where
  "base_feature_row w =
     [fmt_fixed 6 (fv_entropy w), fmt_fixed 6 (fv_ewma_rate w), fmt_fixed 6 (fv_mean_h w), fmt_fixed 6 (fv_mean_r w),
      fmt_fixed 6 (fv_sigma_h w), fmt_fixed 6 (fv_sigma_r w), fmt_fixed 6 (fv_proto_ratio w),
      fmt_fixed 6 (fv_dominant_ip_ratio w), fmt_fixed 6 (fv_source_port_entropy w), fmt_fixed 6 (fv_ttl_variance w),
      fmt_fixed 6 (fv_fingerprint_diversity w), fmt_fixed 3 (fv_timestamp w), []]"

section \<open>Appending\<close>

definition pending_of :: "cpath \<Rightarrow> world \<Rightarrow> string list list" where
  "pending_of p s = dict_get (pending_capture_rows s) p []"

definition set_pending :: "cpath \<Rightarrow> string list list \<Rightarrow> world \<Rightarrow> world" where
  "set_pending p rows s = s\<lparr>pending_capture_rows := AList.update p rows (pending_capture_rows s)\<rparr>"

text \<open>\<open>pending.append(row)\<close>, then the oldest rows over the bound are dropped.\<close>

definition queue_row :: "env \<Rightarrow> cpath \<Rightarrow> string list \<Rightarrow> unit op" where
  "queue_row E p row =
     modify (\<lambda>s. let pending = pending_of p s @ [row];
                     overflow = int (length pending) - CAPTURE_PENDING_MAX_ROWS (e_conf E)
                 in set_pending p (if 0 < overflow then drop (nat overflow) pending else pending) s)"

text \<open>\<open>flock(LOCK_EX | LOCK_NB)\<close>: whether somebody else holds the lock now.\<close>

definition try_lock :: "env \<Rightarrow> cpath \<Rightarrow> bool op" where
  "try_lock E p s = (Inr (\<not> e_locked E (w_io s) p), s\<lparr>w_io := Suc (w_io s)\<rparr>)"

definition note_locked :: "cpath \<Rightarrow> unit op" where
  "note_locked p = modify (\<lambda>s. if p \<in> set (capture_file_lock_warned s) then s
     else s\<lparr>capture_file_lock_warned := capture_file_lock_warned s @ [p]\<rparr>)"

definition note_capped :: "cpath \<Rightarrow> unit op" where
  "note_capped p = modify (\<lambda>s. if p \<in> set (capture_file_cap_warned s) then s
     else s\<lparr>capture_file_cap_warned := capture_file_cap_warned s @ [p]\<rparr>)"

text \<open>\<open>os.path.getsize\<close> raises for a file that is not there or cannot be asked.\<close>

definition file_size :: "env \<Rightarrow> cpath \<Rightarrow> int option op" where
  "file_size E p =
     bnd (io_ok E (IO_Csv p)) (\<lambda>ok.
     gets (\<lambda>s. if ok then map_option (\<lambda>t. int (length t)) (w_csv s p) else None))"

definition write_pending :: "env \<Rightarrow> cpath \<Rightarrow> string list \<Rightarrow> unit op" where
  "write_pending E p header =
     bnd (io_ok E (IO_Csv p)) (\<lambda>ok.
     if \<not> ok then ret ()
     else modify (\<lambda>s.
       let old = (case w_csv s p of None \<Rightarrow> csv_write [header] | Some t \<Rightarrow> t)
       in set_pending p [] (s\<lparr>w_csv := (w_csv s)(p := Some (old @ csv_write (pending_of p s)))\<rparr>)))"

definition append_csv_row :: "env \<Rightarrow> cpath \<Rightarrow> string list \<Rightarrow> string list \<Rightarrow> unit op" where
  "append_csv_row E p header row =
     bnd (queue_row E p row) (\<lambda>_.
     bnd (io_check E (IO_Csv p) OSError) (\<lambda>_.
     bnd (try_lock E p) (\<lambda>free.
     if \<not> free then note_locked p
     else bnd (modify (\<lambda>s. s\<lparr>capture_file_lock_warned := removeAll p (capture_file_lock_warned s)\<rparr>)) (\<lambda>_.
          bnd (file_size E p) (\<lambda>size.
          if (case size of None \<Rightarrow> False | Some n \<Rightarrow> PRETRAINING_MAX_BYTES (e_conf E) \<le> n)
          then bnd (note_capped p) (\<lambda>_. modify (set_pending p []))
          else write_pending E p header)))))"

section \<open>The three captures\<close>

definition zero_traffic :: "window \<Rightarrow> bool" where
  "zero_traffic w \<longleftrightarrow>
     feq (fv_entropy w) (Fin 0) \<and> feq (fv_proto_ratio w) (Fin 0) \<and> feq (fv_dominant_ip_ratio w) (Fin 0) \<and>
     feq (fv_source_port_entropy w) (Fin 0) \<and> feq (fv_ttl_variance w) (Fin 0) \<and> feq (fv_fingerprint_diversity w) (Fin 0)"

definition write_anomalous_row :: "env \<Rightarrow> json \<Rightarrow> pyfloat \<Rightarrow> string \<Rightarrow> window \<Rightarrow> unit op" where
  "write_anomalous_row E victim_ip if_sc rf_verdict w =
     (if zero_traffic w then ret ()
      else append_csv_row E ANOMALOUS_CSV_PATH ANOMALOUS_CSV_HEADER
             (base_feature_row w @ [py_str victim_ip, fmt_signed 4 if_sc, rf_verdict]))"

definition write_pretraining_row :: "env \<Rightarrow> window \<Rightarrow> unit op" where
  "write_pretraining_row E w = append_csv_row E PRETRAINING_CSV_PATH PRETRAINING_CSV_HEADER (base_feature_row w)"

definition write_ddos_capture_row :: "env \<Rightarrow> window \<Rightarrow> unit op" where
  "write_ddos_capture_row E w = append_csv_row E DDOS_CAPTURE_CSV_PATH DDOS_CAPTURE_CSV_HEADER (base_feature_row w)"

section \<open>Nothing is lost\<close>

text \<open>The rows captured for a path: those in the file after its header, then those that wait.\<close>

definition captured :: "cpath \<Rightarrow> world \<Rightarrow> string list list" where
  "captured p s = (case w_csv s p of None \<Rightarrow> [] | Some t \<Rightarrow> tl (csv_read t)) @ pending_of p s"

text \<open>The file is missing or was written by this module: its header and then whole rows.\<close>

definition capture_file_ok :: "cpath \<Rightarrow> string list \<Rightarrow> world \<Rightarrow> bool" where
  "capture_file_ok p header s \<longleftrightarrow> w_csv s p = None \<or> (\<exists>rows. w_csv s p = Some (csv_write (header # rows)))"

definition room_for_row :: "env \<Rightarrow> cpath \<Rightarrow> world \<Rightarrow> bool" where
  "room_for_row E p s \<longleftrightarrow>
     int (length (pending_of p s)) < CAPTURE_PENDING_MAX_ROWS (e_conf E) \<and>
     (\<forall>t. w_csv s p = Some t \<longrightarrow> int (length t) < PRETRAINING_MAX_BYTES (e_conf E))"

lemma pending_set [simp]: "pending_of p (set_pending q rows s) = (if p = q then rows else pending_of p s)"
  by (simp add: pending_of_def set_pending_def)

lemma set_pending_csv [simp]: "w_csv (set_pending p rows s) = w_csv s" "w_io (set_pending p rows s) = w_io s"
  by (simp_all add: set_pending_def)

lemma pending_of_other [simp]:
  "pending_of p (s\<lparr>w_io := n\<rparr>) = pending_of p s" "pending_of p (s\<lparr>w_csv := f\<rparr>) = pending_of p s"
  "pending_of p (s\<lparr>capture_file_lock_warned := l\<rparr>) = pending_of p s"
  "pending_of p (s\<lparr>capture_file_cap_warned := l\<rparr>) = pending_of p s"
  by (simp_all add: pending_of_def)

lemma write_pending_captured:
  assumes "capture_file_ok p header s"
  shows "captured p (snd (write_pending E p header s)) = captured p s \<and> capture_file_ok p header (snd (write_pending E p header s))"
proof -
  let ?pend = "csv_write (pending_of p s)"
  have new: "csv_write [header] @ ?pend = csv_write (header # pending_of p s)" by (simp add: csv_write_def)
  have old: "csv_write (header # rows) @ ?pend = csv_write (header # rows @ pending_of p s)" for rows
    by (simp add: csv_write_def)
  consider "w_csv s p = None" | rows where "w_csv s p = Some (csv_write (header # rows))"
    using assms by (auto simp: capture_file_ok_def)
  then show ?thesis
  proof cases
    case 1
    then show ?thesis using assms new
      by (auto simp: write_pending_def io_ok_def py_eval Let_def captured_def capture_file_ok_def)
  next
    case 2
    then show ?thesis using assms old
      by (auto simp: write_pending_def io_ok_def py_eval Let_def captured_def capture_file_ok_def)
  qed
qed



definition pending_step :: "cpath \<Rightarrow> world \<Rightarrow> world \<Rightarrow> bool" where
  "pending_step p s s' \<longleftrightarrow> pending_of p s' = pending_of p s \<or> pending_of p s' = []"

lemma pending_of_tick [simp]: "pending_of p (s\<lparr>w_tick := n\<rparr>) = pending_of p s"
  by (simp add: pending_of_def)

interpretation pend: frame_io "pending_step p" for p
  by unfold_locales (auto simp: pending_step_def)

text \<open>
  The rows that wait for a locked file are bounded: after any append there are at most as many as configured, and
  the ones kept are the newest, in order.
\<close>

theorem append_csv_row_bounded:
  assumes "0 \<le> CAPTURE_PENDING_MAX_ROWS (e_conf E)"
  shows "int (length (pending_of p (snd (append_csv_row E p header row s)))) \<le> CAPTURE_PENDING_MAX_ROWS (e_conf E) \<and>
    (\<exists>old. pending_of p s @ [row] = old @ pending_of p (snd (append_csv_row E p header row s)) \<or>
           pending_of p (snd (append_csv_row E p header row s)) = [])"
proof -
  let ?all = "pending_of p s @ [row]" and ?max = "CAPTURE_PENDING_MAX_ROWS (e_conf E)"
  define kept where "kept = (if 0 < int (length ?all) - ?max then drop (nat (int (length ?all) - ?max)) ?all else ?all)"
  have queue: "queue_row E p row s = (Inr (), set_pending p kept s)" by (simp add: queue_row_def kept_def Let_def)
  have kept: "int (length kept) \<le> ?max" "\<exists>old. ?all = old @ kept"
    using assms by (auto simp: kept_def simp del: drop_append intro: append_take_drop_id [symmetric])
  have "steps (pending_step p) (bnd (try_lock E p) (\<lambda>free.
     if \<not> free then note_locked p
     else bnd (modify (\<lambda>s. s\<lparr>capture_file_lock_warned := removeAll p (capture_file_lock_warned s)\<rparr>)) (\<lambda>_.
          bnd (file_size E p) (\<lambda>size.
          if (case size of None \<Rightarrow> False | Some n \<Rightarrow> PRETRAINING_MAX_BYTES (e_conf E) \<le> n)
          then bnd (note_capped p) (\<lambda>_. modify (set_pending p []))
          else write_pending E p header))))"
    unfolding note_locked_def note_capped_def file_size_def write_pending_def Let_def
    by (intro pend.io_rules) (simp_all add: pending_step_def steps_def try_lock_def)
  note after = pend.bnd [OF pend.io_check [of p E "IO_Csv p" OSError] this]
  have "pending_step p (set_pending p kept s) (snd (append_csv_row E p header row s))"
    unfolding append_csv_row_def bnd_def [of "queue_row E p row"] queue using stepsD [OF after] by simp
  then show ?thesis using kept assms by (auto simp: pending_step_def)
qed

theorem append_csv_row_bounded_witness:
  "int (length (pending_of ANOMALOUS_CSV_PATH (snd (append_csv_row lab_env ANOMALOUS_CSV_PATH BASE_COLUMNS [''1''] (init_world (Fin 0)))))) \<le> 5000"
  using append_csv_row_bounded [of lab_env ANOMALOUS_CSV_PATH BASE_COLUMNS "[''1'']" "init_world (Fin 0)"]
  by (simp add: lab_env_def default_settings_def)

end
