(* ===== verification/Firewall.thy ===== *)
theory Firewall
  imports Enforcement
begin

text \<open>
  The kernel side of \<open>stage2/enforcement.py\<close>: which iptables rules are in place after the commands it ran,
  and what it reads back from \<open>ipset list\<close>.

  iptables is not part of the program. What the code relies on is the hypothesis \<open>iptables_works\<close>: \<open>-I\<close>
  puts a rule in front of a chain, \<open>-D\<close> deletes the first rule that matches exactly and fails if there is
  none, and \<open>-C\<close> answers whether a rule that matches exactly is there.
\<close>

section \<open>Rules\<close>

text \<open>A rule is its chain followed by its specification.\<close>

type_synonym rule = "string list"

definition rules_step :: "rule list \<Rightarrow> string list \<Rightarrow> rule list" where
  "rules_step rs c =
     (case c of prog # op # r \<Rightarrow>
        if prog \<noteq> ''iptables'' then rs
        else if op = ''-I'' then r # rs
        else if op = ''-D'' then remove1 r rs
        else rs
      | _ \<Rightarrow> rs)"

definition rules_after :: "rule list \<Rightarrow> string list list \<Rightarrow> rule list" where
  "rules_after rs0 h = foldl rules_step rs0 h"

definition iptables_works :: "rule list \<Rightarrow> env \<Rightarrow> bool" where
  "iptables_works rs0 E \<longleftrightarrow>
     (\<forall>h op r. \<exists>p. e_run E h (''iptables'' # op # r) = Inr p \<and>
        (op = ''-C'' \<longrightarrow> (returncode p = 0 \<longleftrightarrow> r \<in> set (rules_after rs0 h))))"

lemma rules_after_append: "rules_after rs0 (h @ cs) = foldl rules_step (rules_after rs0 h) cs"
  by (simp add: rules_after_def)

definition rules_of :: "rule list \<Rightarrow> world \<Rightarrow> rule list" where
  "rules_of rs0 s = rules_after rs0 (w_cmds s)"

lemma run_iptables:
  assumes "iptables_works rs0 E"
  obtains p where "run_cmd E (''iptables'' # op # r) s = (Inr p, s\<lparr>w_cmds := w_cmds s @ [''iptables'' # op # r]\<rparr>)"
    and "op = ''-C'' \<Longrightarrow> returncode p = 0 \<longleftrightarrow> r \<in> set (rules_of rs0 s)"
  using assms unfolding iptables_works_def rules_of_def run_cmd_def by (metis (no_types, lifting))

lemma ensure_rule_rules:
  assumes works: "iptables_works rs0 E" and cmd: "\<And>op. cmd op = ''iptables'' # op # r"
  shows "\<exists>cs. ensure_rule E cmd s = (Inr (), s\<lparr>w_cmds := w_cmds s @ cs\<rparr>) \<and>
    rules_after rs0 (w_cmds s @ cs) = (if r \<in> set (rules_of rs0 s) then rules_of rs0 s else r # rules_of rs0 s)"
proof -
  obtain p where p: "run_cmd E (cmd ''-C'') s = (Inr p, s\<lparr>w_cmds := w_cmds s @ [cmd ''-C'']\<rparr>)"
    and rc: "returncode p = 0 \<longleftrightarrow> r \<in> set (rules_of rs0 s)"
    using run_iptables [OF works, of "''-C''" r s] cmd by metis
  let ?s = "s\<lparr>w_cmds := w_cmds s @ [cmd ''-C'']\<rparr>"
  obtain q where q: "run_cmd E (cmd ''-I'') ?s = (Inr q, s\<lparr>w_cmds := w_cmds s @ [cmd ''-C'', cmd ''-I'']\<rparr>)"
    using run_iptables [OF works, of "''-I''" r ?s] cmd by auto
  show ?thesis
  proof (cases "r \<in> set (rules_of rs0 s)")
    case True
    then have "ensure_rule E cmd s = (Inr (), s\<lparr>w_cmds := w_cmds s @ [cmd ''-C'']\<rparr>)"
      using p rc by (simp add: ensure_rule_def)
    then show ?thesis using True
      by (intro exI [of _ "[cmd ''-C'']"]) (simp add: rules_after_append rules_of_def cmd rules_step_def)
  next
    case False
    then have "ensure_rule E cmd s = (Inr (), s\<lparr>w_cmds := w_cmds s @ [cmd ''-C'', cmd ''-I'']\<rparr>)"
      using p q rc by (simp add: ensure_rule_def)
    then show ?thesis using False
      by (intro exI [of _ "[cmd ''-C'', cmd ''-I'']"]) (simp add: rules_after_append rules_of_def cmd rules_step_def)
  qed
qed

definition hashlimit_rule :: "string \<Rightarrow> json \<Rightarrow> rule" where
  "hashlimit_rule chain pps = tl (tl (hashlimit_cmd ''-I'' chain pps))"

lemma hashlimit_cmd_rule: "hashlimit_cmd op chain pps = ''iptables'' # op # hashlimit_rule chain pps"
  by (simp add: hashlimit_rule_def hashlimit_cmd_def)

definition add_rule :: "rule \<Rightarrow> rule list \<Rightarrow> rule list" where
  "add_rule r rs = (if r \<in> set rs then rs else r # rs)"

lemma ensure_hashlimit_rules:
  assumes works: "iptables_works rs0 E"
  shows "\<exists>cs. ensure_hashlimit_rule E pps s = (Inr (), s\<lparr>w_cmds := w_cmds s @ cs\<rparr>) \<and>
    rules_after rs0 (w_cmds s @ cs) =
      add_rule (hashlimit_rule ''FORWARD'' pps) (add_rule (hashlimit_rule ''INPUT'' pps) (rules_of rs0 s))"
proof -
  obtain cs where cs: "ensure_rule E (\<lambda>op. hashlimit_cmd op ''INPUT'' pps) s = (Inr (), s\<lparr>w_cmds := w_cmds s @ cs\<rparr>)"
    "rules_after rs0 (w_cmds s @ cs) = add_rule (hashlimit_rule ''INPUT'' pps) (rules_of rs0 s)"
    using ensure_rule_rules [OF works hashlimit_cmd_rule, of "''INPUT''" pps s] by (auto simp: add_rule_def)
  let ?s = "s\<lparr>w_cmds := w_cmds s @ cs\<rparr>"
  obtain ds where ds: "ensure_rule E (\<lambda>op. hashlimit_cmd op ''FORWARD'' pps) ?s = (Inr (), ?s\<lparr>w_cmds := w_cmds ?s @ ds\<rparr>)"
    "rules_after rs0 (w_cmds ?s @ ds) = add_rule (hashlimit_rule ''FORWARD'' pps) (rules_of rs0 ?s)"
    using ensure_rule_rules [OF works hashlimit_cmd_rule, of "''FORWARD''" pps ?s] by (auto simp: add_rule_def)
  show ?thesis
    using cs ds by (intro exI [of _ "cs @ ds"]) (simp add: ensure_hashlimit_rule_def chains_def rules_of_def)
qed

lemma delete_hashlimit_rules:
  assumes works: "iptables_works rs0 E"
  shows "\<exists>cs. for_each (\<lambda>chain. bnd (run_cmd E (hashlimit_cmd ''-D'' chain pps)) (\<lambda>_. ret ())) chains s =
      (Inr (), s\<lparr>w_cmds := w_cmds s @ cs\<rparr>) \<and>
    rules_after rs0 (w_cmds s @ cs) =
      remove1 (hashlimit_rule ''FORWARD'' pps) (remove1 (hashlimit_rule ''INPUT'' pps) (rules_of rs0 s))"
proof -
  let ?c = "\<lambda>chain. hashlimit_cmd ''-D'' chain pps"
  obtain p where p: "run_cmd E (?c ''INPUT'') s = (Inr p, s\<lparr>w_cmds := w_cmds s @ [?c ''INPUT'']\<rparr>)"
    using run_iptables [OF works] unfolding hashlimit_cmd_rule by metis
  let ?s = "s\<lparr>w_cmds := w_cmds s @ [?c ''INPUT'']\<rparr>"
  obtain q where q: "run_cmd E (?c ''FORWARD'') ?s = (Inr q, ?s\<lparr>w_cmds := w_cmds ?s @ [?c ''FORWARD'']\<rparr>)"
    using run_iptables [OF works] unfolding hashlimit_cmd_rule by metis
  show ?thesis
    using p q
    by (intro exI [of _ "[?c ''INPUT'', ?c ''FORWARD'']"])
      (simp add: chains_def rules_of_def rules_after_append rules_step_def hashlimit_cmd_rule)
qed

text \<open>The rate-limit rules of a chain, whatever their cap, and all other rules.\<close>

definition is_cap :: "string \<Rightarrow> rule \<Rightarrow> bool" where
  "is_cap chain r \<longleftrightarrow> (\<exists>pps. r = hashlimit_rule chain pps)"

lemma is_cap_rule [simp]: "is_cap chain (hashlimit_rule chain' pps) \<longleftrightarrow> chain = chain'"
  by (auto simp: is_cap_def hashlimit_rule_def hashlimit_cmd_def)

lemma filter_add_rule: "filter P (add_rule r rs) = (if P r then add_rule r (filter P rs) else filter P rs)"
  by (simp add: add_rule_def)

text \<open>
  Changing the rate-limit cap replaces the rule. If each of the chains INPUT and FORWARD has exactly one
  rate-limit rule, with the old cap, then after the update each has exactly one, with the new cap, and no other
  rule was added, removed or reordered.
\<close>

theorem update_hashlimit_replaces:
  assumes works: "iptables_works rs0 E" and diff: "\<not> py_eq old_pps new_pps"
    and one: "\<forall>chain \<in> set chains. filter (is_cap chain) (rules_of rs0 s) = [hashlimit_rule chain old_pps]"
    and run: "update_ratelimit_hashlimit E old_pps new_pps s = (r, s')"
  shows "r = Inr () \<and>
    (\<forall>chain \<in> set chains. filter (is_cap chain) (rules_of rs0 s') = [hashlimit_rule chain new_pps]) \<and>
    filter (\<lambda>r. \<forall>chain \<in> set chains. \<not> is_cap chain r) (rules_of rs0 s') =
    filter (\<lambda>r. \<forall>chain \<in> set chains. \<not> is_cap chain r) (rules_of rs0 s)"
proof -
  obtain cs where cs: "for_each (\<lambda>chain. bnd (run_cmd E (hashlimit_cmd ''-D'' chain old_pps)) (\<lambda>_. ret ())) chains s =
      (Inr (), s\<lparr>w_cmds := w_cmds s @ cs\<rparr>)"
    "rules_after rs0 (w_cmds s @ cs) =
      remove1 (hashlimit_rule ''FORWARD'' old_pps) (remove1 (hashlimit_rule ''INPUT'' old_pps) (rules_of rs0 s))"
    using delete_hashlimit_rules [OF works] by blast
  let ?s = "s\<lparr>w_cmds := w_cmds s @ cs\<rparr>"
  obtain ds where ds: "ensure_hashlimit_rule E new_pps ?s = (Inr (), ?s\<lparr>w_cmds := w_cmds ?s @ ds\<rparr>)"
    "rules_after rs0 (w_cmds ?s @ ds) = add_rule (hashlimit_rule ''FORWARD'' new_pps)
       (add_rule (hashlimit_rule ''INPUT'' new_pps) (rules_of rs0 ?s))"
    using ensure_hashlimit_rules [OF works] by blast
  have "r = Inr ()" and s': "s' = ?s\<lparr>w_cmds := w_cmds ?s @ ds\<rparr>"
    using run diff cs(1) ds(1) by (simp_all add: update_ratelimit_hashlimit_def)
  then have rules: "rules_of rs0 s' = add_rule (hashlimit_rule ''FORWARD'' new_pps)
       (add_rule (hashlimit_rule ''INPUT'' new_pps)
         (remove1 (hashlimit_rule ''FORWARD'' old_pps) (remove1 (hashlimit_rule ''INPUT'' old_pps) (rules_of rs0 s))))"
    using ds(2) cs(2) by (simp add: rules_of_def)
  show ?thesis
    using one \<open>r = Inr ()\<close> unfolding rules
    by (simp add: chains_def filter_add_rule filter_remove1) (simp add: add_rule_def remove1_idem)
qed

text \<open>Surroundings in which iptables works: \<open>-C\<close> is answered from the commands run before.\<close>

definition lab_iptables :: "rule list \<Rightarrow> env" where
  "lab_iptables rs0 = lab_env\<lparr>e_run := (\<lambda>h c. Inr
     \<lparr>returncode = (if take 2 c = [''iptables'', ''-C''] \<and> drop 2 c \<notin> set (rules_after rs0 h) then 1 else 0),
      stdout = [], stderr = []\<rparr>)\<rparr>"

lemma lab_iptables_works: "iptables_works rs0 (lab_iptables rs0)"
  by (simp add: iptables_works_def lab_iptables_def)

theorem update_hashlimit_replaces_witness:
  "let rs0 = [hashlimit_rule ''INPUT'' (JInt 50), blocklist_cmd ''-I'' ''INPUT'', hashlimit_rule ''FORWARD'' (JInt 50)];
       s' = snd (update_ratelimit_hashlimit (lab_iptables rs0) (JInt 50) (JInt 80) (init_world (Fin 0)))
   in filter (is_cap ''INPUT'') (rules_of rs0 s') = [hashlimit_rule ''INPUT'' (JInt 80)]"
proof -
  let ?rs0 = "[hashlimit_rule ''INPUT'' (JInt 50), blocklist_cmd ''-I'' ''INPUT'', hashlimit_rule ''FORWARD'' (JInt 50)]"
  have other: "\<not> is_cap chain (blocklist_cmd ''-I'' ''INPUT'')" for chain
    by (auto simp: is_cap_def blocklist_cmd_def hashlimit_rule_def hashlimit_cmd_def)
  have one: "\<forall>chain \<in> set chains. filter (is_cap chain) (rules_of ?rs0 (init_world (Fin 0))) = [hashlimit_rule chain (JInt 50)]"
    by (simp add: chains_def rules_of_def rules_after_def init_world_def other)
  have "\<not> py_eq (JInt 50) (JInt 80)" by simp
  from update_hashlimit_replaces [OF lab_iptables_works this one prod.collapse [symmetric]]
  show ?thesis by (simp add: chains_def)
qed

section \<open>Reading a set back\<close>

text \<open>What \<open>ipset list\<close> prints for a set with timeouts: the header, then one line per member.\<close>

definition member_text :: "string \<times> nat \<Rightarrow> string" where
  "member_text m = fst m @ '' timeout '' @ show_nat (snd m)"

definition ipset_listing :: "string list \<Rightarrow> (string \<times> nat) list \<Rightarrow> string" where
  "ipset_listing header members =
     concat (map (\<lambda>l. l @ [CHR ''\<newline>'']) (header @ [''Members:''] @ map member_text members))"

lemma is_space_lits: "is_space (CHR '' '')" "is_space (CHR ''\<newline>'')" "\<forall>c \<in> set ''timeout''. \<not> is_space c"
  by (simp_all add: is_space_def)

lemma member_line_text:
  assumes ip: "ip \<noteq> []" "\<forall>c \<in> set ip. \<not> is_space c"
  shows "member_line (ip @ '' timeout '' @ show_nat t) = Inr (Some (ip, int t))"
proof -
  have last_digit: "\<not> is_space (last (show_nat t))"
    using show_nat_chars(1) last_in_set [OF show_nat_not_Nil] by blast
  have "strip (ip @ '' timeout '' @ show_nat t) = ip @ '' timeout '' @ show_nat t"
    using ip last_digit by (intro strip_id) (auto simp: hd_append)
  moreover have "split_ws (ip @ '' timeout '' @ show_nat t) = [ip, ''timeout'', show_nat t]"
    using split_ws_append [OF ip(2) ip(1) is_space_lits(1), of "''timeout '' @ show_nat t"]
      split_ws_append [OF is_space_lits(3) _ is_space_lits(1), of "show_nat t"]
      split_ws_word [of "show_nat t"] show_nat_chars(1) by simp
  ultimately show ?thesis by (simp add: member_line_def read_int_show_nat)
qed

lemma split_on_lines:
  "\<forall>l \<in> set ls. sep \<notin> set l \<Longrightarrow> split_on sep (concat (map (\<lambda>l. l @ [sep]) ls)) = ls @ [[]]"
proof (induction ls)
  case Nil
  then show ?case by (simp add: split_on_def)
next
  case (Cons l ls)
  then show ?case by (simp add: split_on_append)
qed

lemma member_line_empty: "member_line [] = Inr None"
  by (simp add: member_line_def strip_def split_ws_def)

lemma member_lines_text:
  assumes "\<forall>(ip, t) \<in> set ms. ip \<noteq> [] \<and> (\<forall>c \<in> set ip. \<not> is_space c)"
  shows "member_lines (map member_text ms @ [[]]) = Inr (map (\<lambda>(ip, t). (ip, int t)) ms)"
  using assms
proof (induction ms)
  case Nil
  then show ?case by (simp add: member_line_empty)
next
  case (Cons m ms)
  then show ?case using member_line_text by (cases m) (simp add: member_text_def)
qed

lemma after_members_header:
  "\<forall>l \<in> set header. \<not> starts_with l ''Members:'' \<Longrightarrow> after_members (header @ ''Members:'' # ls) = Some ls"
  by (induction header) (auto simp: starts_with_def)

text \<open>
  Reading a kernel set back gives exactly its members. For the listing that ipset prints, with any
  header and any members whose addresses contain no white space, the dashboard's view of the set is the list
  of the members with their remaining seconds, in order.
\<close>

theorem ipset_members_exact:
  assumes header: "\<forall>l \<in> set header. CHR ''\<newline>'' \<notin> set l \<and> \<not> starts_with l ''Members:''"
    and members: "\<forall>(ip, t) \<in> set members. ip \<noteq> [] \<and> (\<forall>c \<in> set ip. \<not> is_space c)"
    and run: "e_run E (w_cmds s) [''ipset'', ''list'', set_name] = Inr p" "returncode p = 0" "stdout p = ipset_listing header members"
  shows "fst (get_ipset_members E set_name s) = Inr (map (\<lambda>(ip, t). (ip, int t)) members)"
proof -
  have "CHR ''\<newline>'' \<notin> set (member_text m)" if "m \<in> set members" for m
    using members that show_nat_chars(1) is_space_lits(2) by (cases m) (auto simp: member_text_def)
  then have "split_on (CHR ''\<newline>'') (ipset_listing header members) = header @ ''Members:'' # map member_text members @ [[]]"
    unfolding ipset_listing_def using header by (subst split_on_lines) auto
  then have "parse_members (ipset_listing header members) = Inr (map (\<lambda>(ip, t). (ip, int t)) members)"
    unfolding parse_members_def using header members by (simp add: after_members_header member_lines_text)
  then show ?thesis using run by (simp add: get_ipset_members_def run_cmd_def py_eval)
qed

theorem ipset_members_exact_witness:
  "fst (get_ipset_members (lab_env\<lparr>e_run := (\<lambda>_ _. Inr \<lparr>returncode = 0, stdout = ipset_listing [''Name: x''] [(''10.0.0.9'', 42)], stderr = []\<rparr>)\<rparr>)
      ''ddos_blocklist'' (init_world (Fin 0))) = Inr [(''10.0.0.9'', 42)]"
proof -
  let ?p = "\<lparr>returncode = 0, stdout = ipset_listing [''Name: x''] [(''10.0.0.9'', 42)], stderr = []\<rparr>"
  have "fst (get_ipset_members (lab_env\<lparr>e_run := (\<lambda>_ _. Inr ?p)\<rparr>) ''ddos_blocklist'' (init_world (Fin 0))) =
      Inr (map (\<lambda>(ip, t). (ip, int t)) [(''10.0.0.9'', 42)])"
    by (rule ipset_members_exact [where header = "[''Name: x'']" and p = ?p]) (simp_all add: starts_with_def is_space_def)
  then show ?thesis by simp
qed

end
