(* ===== verification/Sources.thy ===== *)
theory Sources
  imports Enforcement
begin

text \<open>
  The table of attack sources of \<open>stage2/enforcement.py\<close> against its specification: the verdict of an
  address is the one of its newest row in the incident log. Blocks and rate limits keep the table and the log
  in agreement, replaying the log rebuilds the table, and pruning keeps the newest entries.
\<close>

section \<open>Verdicts\<close>

definition source_of_row :: "log_row \<Rightarrow> ddos_source" where
  "source_of_row r = \<lparr>dsrc_victim_ip = log_dst_ip r, dsrc_rate = log_rate r, dsrc_timestamp = log_timestamp r,
                      dsrc_action = log_classification r\<rparr>"

text \<open>What the newest row of an address says about it.\<close>

definition verdict :: "log_row list \<Rightarrow> json \<Rightarrow> ddos_source option" where
  "verdict newest_first ip =
     (case find (\<lambda>r. log_src_ip r = ip) newest_first of
        None \<Rightarrow> None
      | Some r \<Rightarrow> if log_classification r \<in> set DDOS_CLASSIFICATIONS then Some (source_of_row r) else None)"

definition enforcement_class :: "string \<Rightarrow> bool" where
  "enforcement_class cls \<longleftrightarrow> cls \<in> {CLASS_BLOCKED, CLASS_RATELIMITED, CLASS_RATELIMITED_FLASH}"

definition log_verdict :: "database \<Rightarrow> json \<Rightarrow> ddos_source option" where
  "log_verdict d = verdict (rev (filter (enforcement_class \<circ> log_classification) (tbl_rows (db_logs d))))"

lemma verdict_Cons:
  "verdict (r # rs) = (verdict rs)(log_src_ip r :=
     (if log_classification r \<in> set DDOS_CLASSIFICATIONS then Some (source_of_row r) else None))"
  by (auto simp: verdict_def)

lemma verdict_Nil [simp]: "verdict [] = Map.empty"
  by (auto simp: verdict_def)

lemma verdict_None: "ip \<notin> log_src_ip ` set rs \<Longrightarrow> verdict rs ip = None"
  by (induction rs) (auto simp: verdict_Cons)

lemma prune_sources_small: "length d \<le> DDOS_SOURCES_MAX \<Longrightarrow> prune_sources d = d"
  by (simp add: prune_sources_def)

lemma prune_sources_update: "length d < DDOS_SOURCES_MAX \<Longrightarrow> prune_sources (AList.update ip x d) = AList.update ip x d"
  using length_update_le [of ip x d] by (simp add: prune_sources_small)

lemma map_of_note_source:
  assumes "length d < DDOS_SOURCES_MAX"
  shows "map_of (note_source ip cls v r w d) =
    (map_of d)(ip := (if cls \<in> set DDOS_CLASSIFICATIONS
      then Some \<lparr>dsrc_victim_ip = v, dsrc_rate = r, dsrc_timestamp = w, dsrc_action = cls\<rparr> else None))"
  using assms by (simp add: note_source_def prune_sources_update)

lemma length_note_source:
  assumes "length d < DDOS_SOURCES_MAX"
  shows "length (note_source ip cls v r w d) \<le> Suc (length d)"
  using assms length_delete_le [of ip d] by (simp add: note_source_def prune_sources_update length_update_le le_SucI)

text \<open>Replaying the log, newest row first, gives every address its newest verdict.\<close>

lemma restore_rows_verdict:
  assumes "\<forall>r \<in> set rs. hashable (log_src_ip r)"
    and "\<forall>ip. ip \<notin> set seen \<longrightarrow> map_of (ddos_sources s) ip = None"
    and "length (ddos_sources s) + card (log_src_ip ` set rs - set seen) \<le> DDOS_SOURCES_MAX"
  shows "\<exists>d. restore_rows seen rs s = (Inr (), s\<lparr>ddos_sources := d\<rparr>) \<and>
             (\<forall>ip. map_of d ip = (if ip \<in> set seen then map_of (ddos_sources s) ip else verdict rs ip))"
  using assms
proof (induction rs arbitrary: seen s)
  case Nil
  then show ?case by (intro exI [of _ "ddos_sources s"]) auto
next
  case (Cons r rs)
  let ?ip = "log_src_ip r"
  show ?case
  proof (cases "?ip \<in> set seen")
    case True
    then have "log_src_ip ` set (r # rs) - set seen = log_src_ip ` set rs - set seen" by auto
    then show ?thesis
      using Cons.IH [of seen s] Cons.prems True by (auto simp: verdict_Cons)
  next
    case False
    let ?d = "note_source ?ip (log_classification r) (log_dst_ip r) (log_rate r) (log_timestamp r) (ddos_sources s)"
    let ?s = "s\<lparr>ddos_sources := ?d\<rparr>"
    have "log_src_ip ` set (r # rs) - set seen = insert ?ip (log_src_ip ` set rs - set (?ip # seen))" using False by auto
    then have card: "card (log_src_ip ` set (r # rs) - set seen) = Suc (card (log_src_ip ` set rs - set (?ip # seen)))"
      by simp
    then have room: "length (ddos_sources s) < DDOS_SOURCES_MAX" using Cons.prems(3) by linarith
    have m: "map_of ?d = (map_of (ddos_sources s))(?ip :=
        (if log_classification r \<in> set DDOS_CLASSIFICATIONS then Some (source_of_row r) else None))"
      using map_of_note_source [OF room] by (simp add: source_of_row_def)
    have "length ?d \<le> Suc (length (ddos_sources s))" by (rule length_note_source [OF room])
    then have "length ?d + card (log_src_ip ` set rs - set (?ip # seen)) \<le> DDOS_SOURCES_MAX"
      using Cons.prems(3) card by linarith
    then obtain d where d: "restore_rows (?ip # seen) rs ?s = (Inr (), ?s\<lparr>ddos_sources := d\<rparr>)"
      "\<forall>ip. map_of d ip = (if ip \<in> set (?ip # seen) then map_of ?d ip else verdict rs ip)"
      using Cons.IH [of "?ip # seen" ?s] Cons.prems m by auto
    have "restore_rows seen (r # rs) s = (Inr (), s\<lparr>ddos_sources := d\<rparr>)"
      using False Cons.prems(1) d(1) by (simp add: record_ddos_source_def check_hash_def py_defs)
    then show ?thesis using d(2) m Cons.prems(2) False by (auto simp: verdict_Cons)
  qed
qed

lemma enforcement_rows_ids:
  assumes "ids_ok log_id (db_logs d)"
    and "length (filter (enforcement_class \<circ> log_classification) (tbl_rows (db_logs d))) \<le> DDOS_SOURCES_MAX * 4"
  shows "enforcement_rows d = rev (filter (enforcement_class \<circ> log_classification) (tbl_rows (db_logs d)))"
proof -
  let ?rs = "filter (enforcement_class \<circ> log_classification) (tbl_rows (db_logs d))"
  have "sorted (map log_id ?rs)"
    using assms(1) by (auto simp: ids_ok_def sorted_map intro!: sorted_wrt_filter elim: sorted_wrt_mono_rel [rotated])
  then have "sort_key log_id ?rs = ?rs" by (rule sort_key_id_if_sorted)
  then show ?thesis using assms(2) by (simp add: enforcement_rows_def enforcement_class_def comp_def)
qed


section \<open>The table and the log agree\<close>

definition logged_sources :: "world \<Rightarrow> json set" where
  "logged_sources s = set (map log_src_ip (filter (enforcement_class \<circ> log_classification) (tbl_rows (db_logs (w_db s)))))"

definition in_sync :: "world \<Rightarrow> bool" where
  "in_sync s \<longleftrightarrow>
     distinct (map fst (ddos_sources s)) \<and> map_of (ddos_sources s) = log_verdict (w_db s) \<and>
     ids_ok log_id (db_logs (w_db s)) \<and> (\<forall>r \<in> set (tbl_rows (db_logs (w_db s))). hashable (log_src_ip r))"

definition sync_step :: "world \<Rightarrow> world \<Rightarrow> bool" where
  "sync_step s s' \<longleftrightarrow>
     grows (\<lambda>s. tbl_rows (db_logs (w_db s))) s s' \<and>
     (in_sync s \<and> card (logged_sources s') \<le> DDOS_SOURCES_MAX \<longrightarrow> in_sync s')"

lemma logged_sources_grow: "grows (\<lambda>s. tbl_rows (db_logs (w_db s))) s s' \<Longrightarrow> logged_sources s \<subseteq> logged_sources s'"
  by (auto simp: grows_def logged_sources_def)

lemma finite_logged_sources [simp]: "finite (logged_sources s)"
  by (simp add: logged_sources_def)

lemma sync_step_trans: "sync_step s t \<Longrightarrow> sync_step t u \<Longrightarrow> sync_step s u"
proof -
  assume st: "sync_step s t" and tu: "sync_step t u"
  have "card (logged_sources t) \<le> card (logged_sources u)"
    using tu by (intro card_mono logged_sources_grow) (auto simp: sync_step_def)
  then show ?thesis using st tu grow.trans unfolding sync_step_def by fastforce
qed

interpretation sync: frame_enf sync_step
  by unfold_locales
    (auto intro: sync_step_trans, auto simp: sync_step_def grow.refl grows_def in_sync_def)


lemma log_incident_ok:
  assumes "\<forall>n. e_io E n IO_Db" and "now \<noteq> NaN" and "r \<noteq> Some NaN"
  shows "log_incident E now (JStr a) cls (JStr v) r en s =
    (Inr (), s\<lparr>w_io := Suc (Suc (w_io s)), w_db := (w_db s)\<lparr>db_logs :=
       tbl_insert (mk_log (now, JStr a, JStr v, r, bind_real en, cls)) (db_logs (w_db s))\<rparr>\<rparr>)"
proof -
  have "bind_real r = r" using assms(3) by (auto simp: bind_real_def split: option.split pyfloat.split)
  then have "bnd (lift_res (bind_real_not_null now)) (\<lambda>ts. bnd (lift_res (bind_text_not_null (JStr a))) (\<lambda>src.
      bnd (lift_res (bind_text (JStr v))) (\<lambda>dst. upd_logs (tbl_insert (mk_log (ts, src, dst, bind_real r, bind_real en, cls))))))
      (s\<lparr>w_io := Suc (w_io s)\<rparr>) =
    (Inr (), s\<lparr>w_io := Suc (w_io s), w_db := (w_db s)\<lparr>db_logs :=
       tbl_insert (mk_log (now, JStr a, JStr v, r, bind_real en, cls)) (db_logs (w_db s))\<rparr>\<rparr>)"
    using assms(2)
    by (simp add: py_defs upd_logs_def bind_real_not_null_def bind_text_def bind_text_not_null_def)
  then show ?thesis unfolding log_incident_def
    by (rule trans [OF db_write_ok [OF assms(1)]]) simp
qed

lemma log_verdict_insert:
  assumes "enforcement_class cls"
  shows "log_verdict (d\<lparr>db_logs := tbl_insert (mk_log (now, ip, v, r, en, cls)) (db_logs d)\<rparr>) =
    (log_verdict d)(ip := (if cls \<in> set DDOS_CLASSIFICATIONS
      then Some \<lparr>dsrc_victim_ip = v, dsrc_rate = r, dsrc_timestamp = now, dsrc_action = cls\<rparr> else None))"
  using assms by (simp add: log_verdict_def tbl_insert_def verdict_Cons mk_log_def source_of_row_def)

lemma sync_keys: "in_sync s \<Longrightarrow> map_of (ddos_sources s) k \<noteq> None \<Longrightarrow> k \<in> logged_sources s"
proof -
  assume "in_sync s" and "map_of (ddos_sources s) k \<noteq> None"
  then have "k \<in> log_src_ip ` set (rev (filter (enforcement_class \<circ> log_classification) (tbl_rows (db_logs (w_db s)))))"
    unfolding in_sync_def log_verdict_def by (metis verdict_None)
  then show ?thesis by (auto simp: logged_sources_def)
qed

lemma sync_update_length:
  assumes sync: "in_sync s"
  shows "length (AList.update k x (ddos_sources s)) \<le> card (insert k (logged_sources s))"
proof -
  have "distinct (map fst (AList.update k x (ddos_sources s)))" using sync by (auto simp: in_sync_def)
  then have "length (AList.update k x (ddos_sources s)) = card (fst ` set (AList.update k x (ddos_sources s)))"
    by (metis distinct_card length_map list.set_map)
  also have "\<dots> \<le> card (insert k (logged_sources s))"
    using sync_keys [OF sync] by (intro card_mono) (auto simp: dict_keys_update map_of_eq_None_iff)
  finally show ?thesis .
qed

lemma sync_act:
  assumes db: "\<forall>n. e_io E n IO_Db" and now: "now \<noteq> NaN" and r: "r \<noteq> Some NaN" and cls: "enforcement_class cls"
  shows "steps sync_step (bnd (log_incident E now (JStr a) cls (JStr v) r en)
           (\<lambda>_. record_ddos_source (JStr a) cls (JStr v) r now))"
proof (rule stepsI)
  fix s :: world
  let ?d = "(w_db s)\<lparr>db_logs := tbl_insert (mk_log (now, JStr a, JStr v, r, bind_real en, cls)) (db_logs (w_db s))\<rparr>"
  let ?s = "s\<lparr>w_io := Suc (Suc (w_io s)), w_db := ?d, ddos_sources := note_source (JStr a) cls (JStr v) r now (ddos_sources s)\<rparr>"
  have run: "snd (bnd (log_incident E now (JStr a) cls (JStr v) r en)
      (\<lambda>_. record_ddos_source (JStr a) cls (JStr v) r now) s) = ?s"
    by (simp add: bnd_Inr [OF log_incident_ok [OF db now r]] record_ddos_source_def check_hash_def)
  have grow: "grows (\<lambda>s. tbl_rows (db_logs (w_db s))) s ?s" by (simp add: grows_def tbl_insert_def)
  have srcs: "logged_sources ?s = insert (JStr a) (logged_sources s)"
    using cls by (simp add: logged_sources_def tbl_insert_def mk_log_def)
  have ids: "in_sync s \<Longrightarrow> ids_ok log_id (db_logs (w_db ?s)) \<and> (\<forall>r \<in> set (tbl_rows (db_logs (w_db ?s))). hashable (log_src_ip r))"
    by (simp add: in_sync_def logs_tbl.ok_insert) (simp add: tbl_insert_def mk_log_def)
  have "in_sync ?s" if sync: "in_sync s" and few: "card (logged_sources ?s) \<le> DDOS_SOURCES_MAX"
  proof (cases "cls \<in> set DDOS_CLASSIFICATIONS")
    case False
    then show ?thesis
      using sync ids log_verdict_insert [OF cls] by (auto simp: in_sync_def note_source_def intro: distinct_delete)
  next
    case True
    let ?x = "\<lparr>dsrc_victim_ip = JStr v, dsrc_rate = r, dsrc_timestamp = now, dsrc_action = cls\<rparr>"
    have "prune_sources (AList.update (JStr a) ?x (ddos_sources s)) = AList.update (JStr a) ?x (ddos_sources s)"
    proof (rule prune_sources_small)
      show "length (AList.update (JStr a) ?x (ddos_sources s)) \<le> DDOS_SOURCES_MAX"
        using sync_update_length [OF sync, of "JStr a" ?x] few unfolding srcs by linarith
    qed
    then show ?thesis
      using True sync ids log_verdict_insert [OF cls] by (auto simp: in_sync_def note_source_def intro: distinct_update)
  qed
  with grow run show "sync_step s (snd (bnd (log_incident E now (JStr a) cls (JStr v) r en)
      (\<lambda>_. record_ddos_source (JStr a) cls (JStr v) r now) s))"
    by (simp add: sync_step_def)
qed


text \<open>A sequence of enforcement actions, and a new process on the same files and database.\<close>

datatype enf_action =
    Block string json string "pyfloat option" "pyfloat option"
  | Limit string json string "pyfloat option" string "pyfloat option"

primrec do_action :: "env \<Rightarrow> enf_action \<Rightarrow> unit op" where
  "do_action E (Block ip d v r en) = block_ip E (JStr ip) d (JStr v) r en"
| "do_action E (Limit ip d v r cls en) = ratelimit_ip E (JStr ip) d (JStr v) r cls en"

fun attributed :: "enf_action \<Rightarrow> bool" where
  "attributed (Block ip d v r en) \<longleftrightarrow> known_victim (JStr v) \<and> r \<noteq> Some NaN"
| "attributed (Limit ip d v r cls en) \<longleftrightarrow>
     known_victim (JStr v) \<and> r \<noteq> Some NaN \<and> cls \<in> {CLASS_RATELIMITED, CLASS_RATELIMITED_FLASH}"

definition restart :: "pyfloat \<Rightarrow> world \<Rightarrow> world" where
  "restart started s =
     (init_world started)\<lparr>w_tick := w_tick s, w_io := w_io s, w_cmds := w_cmds s, w_json := w_json s,
        w_tmp := w_tmp s, w_csv := w_csv s, w_db := w_db s\<rparr>"

lemma sync_action:
  assumes "\<forall>n. e_io E n IO_Db" and "\<forall>n. e_clock E n \<noteq> NaN" and "attributed act"
  shows "steps sync_step (do_action E act)"
  using assms
  by (cases act) (auto simp: enforcement_class_def intro!: sync.block_known sync.ratelimit_known sync_act)

lemma load_restores:
  assumes db: "\<forall>n. e_io E n IO_Db" and sync: "in_sync s"
    and few: "card (logged_sources s) \<le> DDOS_SOURCES_MAX"
    and rows: "length (filter (enforcement_class \<circ> log_classification) (tbl_rows (db_logs (w_db s)))) \<le> DDOS_SOURCES_MAX * 4"
  shows "map_of (ddos_sources (snd (load_ddos_sources E (restart t s)))) = map_of (ddos_sources s)"
proof -
  let ?r = "restart t s" and ?rs = "enforcement_rows (w_db s)"
  have rs: "?rs = rev (filter (enforcement_class \<circ> log_classification) (tbl_rows (db_logs (w_db s))))"
    using sync rows by (intro enforcement_rows_ids) (auto simp: in_sync_def)
  have "\<forall>r \<in> set ?rs. hashable (log_src_ip r)" using sync by (auto simp: rs in_sync_def)
  moreover have "ddos_sources (?r\<lparr>w_io := Suc (w_io ?r)\<rparr>) = []" by (simp add: restart_def init_world_def)
  moreover have "log_src_ip ` set ?rs = logged_sources s" by (auto simp: rs logged_sources_def)
  ultimately obtain d where d: "restore_rows [] ?rs (?r\<lparr>w_io := Suc (w_io ?r)\<rparr>) =
      (Inr (), ?r\<lparr>w_io := Suc (w_io ?r), ddos_sources := d\<rparr>)" "\<forall>ip. map_of d ip = verdict ?rs ip"
    using restore_rows_verdict [of ?rs "[]" "?r\<lparr>w_io := Suc (w_io ?r)\<rparr>"] few by auto
  have "load_ddos_sources E ?r = restore_rows [] ?rs (?r\<lparr>w_io := Suc (w_io ?r)\<rparr>)"
    using db by (simp add: load_ddos_sources_def db_read_def io_check_def io_ok_def py_eval restart_def)
  then show ?thesis using d sync by (simp add: in_sync_def log_verdict_def rs fun_eq_iff)
qed



section \<open>Pruning\<close>

lemma prune_keep_eq: "prune_keep = 3686"
proof -
  have "py_int (fmul (Fin 4096) (lit (9 / 10))) = Inr 3686" by code_simp
  then show ?thesis by (simp add: prune_keep_def DDOS_SOURCES_MAX_def del: py_int.simps fmul.simps)
qed

lemma key_sorted_take_drop:
  "key_sorted f xs \<Longrightarrow> x \<in> set (take k xs) \<Longrightarrow> y \<in> set (drop k xs) \<Longrightarrow> fle (f x) (f y)"
  unfolding key_sorted_def by (metis append_take_drop_id sorted_wrt_append)

lemma prune_newest:
  assumes big: "DDOS_SOURCES_MAX < length d" and nan: "\<forall>(k, r) \<in> set d. dsrc_timestamp r \<noteq> NaN"
    and kept: "kept \<in> set (prune_sources d)" and dropped: "dropped \<in> set d - set (prune_sources d)"
  shows "fle (dsrc_timestamp (snd dropped)) (dsrc_timestamp (snd kept))"
proof -
  let ?f = "\<lambda>(_ :: json, r). fneg (dsrc_timestamp r)" and ?xs = "py_sorted (\<lambda>(_ :: json, r). fneg (dsrc_timestamp r)) d"
  have pr: "prune_sources d = take prune_keep ?xs" using big by (simp add: prune_sources_def)
  have "fneg x = NaN \<longleftrightarrow> x = NaN" for x by (cases x) auto
  then have srt: "key_sorted ?f ?xs" using nan by (intro key_sorted_py_sorted) auto
  have "dropped \<in> set ?xs" using dropped by simp
  then have "dropped \<in> set (drop prune_keep ?xs)"
    using dropped unfolding pr by (metis DiffD2 Un_iff append_take_drop_id set_append)
  then have "fle (?f kept) (?f dropped)" using key_sorted_take_drop [OF srt] kept unfolding pr by blast
  then show ?thesis by (simp add: case_prod_beta fle_fneg)
qed

text \<open>
  The table of attack sources is bounded, however many sources an attacker shows: recording a source
  never leaves more than 4096 entries, and when the bound is passed the 3686 newest stay, every dropped entry
  being at most as recent as every kept one.
\<close>

theorem record_source_bounded:
  assumes "length (ddos_sources s) \<le> 4096" and "\<forall>(k, r) \<in> set (ddos_sources s). dsrc_timestamp r \<noteq> NaN" and "when \<noteq> NaN"
    and run: "record_ddos_source ip CLASS_BLOCKED victim rate when s = (Inr (), s')"
  defines "d \<equiv> AList.update ip \<lparr>dsrc_victim_ip = victim, dsrc_rate = rate, dsrc_timestamp = when, dsrc_action = CLASS_BLOCKED\<rparr> (ddos_sources s)"
  shows "length (ddos_sources s') \<le> 4096 \<and> set (ddos_sources s') \<subseteq> set d \<and>
    (if length d \<le> 4096 then ddos_sources s' = d
     else length (ddos_sources s') = 3686 \<and>
       (\<forall>kept \<in> set (ddos_sources s'). \<forall>dropped \<in> set d - set (ddos_sources s').
          fle (dsrc_timestamp (snd dropped)) (dsrc_timestamp (snd kept))))"
proof -
  have s': "ddos_sources s' = prune_sources d"
    using run by (auto simp: record_ddos_source_def check_hash_def py_eval note_source_def d_def DDOS_CLASSIFICATIONS_def split: if_splits)
  have "set d \<subseteq> insert (ip, \<lparr>dsrc_victim_ip = victim, dsrc_rate = rate, dsrc_timestamp = when, dsrc_action = CLASS_BLOCKED\<rparr>) (set (ddos_sources s))"
    unfolding d_def by (rule set_update_subset)
  then have nan: "\<forall>(k, r) \<in> set d. dsrc_timestamp r \<noteq> NaN" using assms(2,3) by auto
  show ?thesis
  proof (cases "length d \<le> 4096")
    case True
    then show ?thesis by (simp add: s' prune_sources_def DDOS_SOURCES_MAX_def)
  next
    case False
    then have big: "DDOS_SOURCES_MAX < length d" by (simp add: DDOS_SOURCES_MAX_def)
    have "set (prune_sources d) \<subseteq> set d" using big by (auto simp: prune_sources_def dest: in_set_takeD)
    moreover have "length (prune_sources d) = 3686" using big by (simp add: prune_sources_def prune_keep_eq DDOS_SOURCES_MAX_def)
    ultimately show ?thesis using False prune_newest [OF big nan] unfolding s' by simp
  qed
qed

theorem record_source_bounded_witness:
  "length (ddos_sources (snd (record_ddos_source (JStr ''10.0.0.9'') CLASS_BLOCKED (JStr ''10.0.0.1'') None (Fin 5) (init_world (Fin 0))))) \<le> 4096"
proof -
  let ?run = "record_ddos_source (JStr ''10.0.0.9'') CLASS_BLOCKED (JStr ''10.0.0.1'') None (Fin 5) (init_world (Fin 0))"
  have "?run = (Inr (), snd ?run)" by (simp add: record_ddos_source_def check_hash_def py_eval)
  from record_source_bounded [OF _ _ _ this] show ?thesis by (simp add: init_world_def)
qed

end
