(* ===== verification/Actions.thy ===== *)
theory Actions
  imports Firewall Sources
begin

text \<open>
  The enforcement actions of \<open>stage2/enforcement.py\<close> on every branch: what a block does to the commands
  run, the incident log and the table of attack sources, and that an address is left alone for ten seconds
  after an action.
\<close>

text \<open>The lists are there: their contents, and that reading them works.\<close>

definition lists_are :: "env \<Rightarrow> world \<Rightarrow> json \<Rightarrow> json \<Rightarrow> bool" where
  "lists_are E s whitelist shared \<longleftrightarrow>
     lists_readable E \<and> w_json s WHITELIST_PATH = JVal whitelist \<and> w_json s SHARED_IPS_PATH = JVal shared"

lemma if_listed_present:
  assumes "\<forall>n. e_io E n (IO_Json p)" and "w_json s p = JVal l" and "py_in ip l = Inr found"
  shows "if_listed E p ip yes no s = (if found then yes else no) (s\<lparr>w_io := Suc (w_io s)\<rparr>)"
  using assms by (simp add: if_listed_def load_json_file_present)

definition block_cmd :: "string \<Rightarrow> json \<Rightarrow> string list" where
  "block_cmd ip duration = [''ipset'', ''add'', ''ddos_blocklist'', ip, ''timeout'', py_str duration, ''-exist'']"

definition logged :: "pyfloat \<Rightarrow> string \<Rightarrow> string \<Rightarrow> string \<Rightarrow> pyfloat option \<Rightarrow> pyfloat option \<Rightarrow> world \<Rightarrow> world" where
  "logged now ip cls victim rate entropy s =
     s\<lparr>w_db := (w_db s)\<lparr>db_logs := tbl_insert (mk_log (now, JStr ip, JStr victim, rate, bind_real entropy, cls)) (db_logs (w_db s))\<rparr>,
       ddos_sources := note_source (JStr ip) cls (JStr victim) rate now (ddos_sources s)\<rparr>"

text \<open>
  C14. What a block does, on every branch. Outside the ten seconds in which an address is left alone, and
  with readable lists: an address of the whitelist is not touched; a shared address is rate-limited
  instead; any other address gets exactly one command, the one that adds it to the block list with the
  requested timeout, and if that succeeds one incident is logged and the address is recorded as an attack
  source, while if it fails nothing is logged. In every case the time of the action is noted.
\<close>

theorem block_ip_branches:
  assumes lists: "lists_are E s whitelist shared"
    and white: "py_in (JStr ip) whitelist = Inr w" and sh: "py_in (JStr ip) shared = Inr h"
    and db: "\<forall>n. e_io E n IO_Db" and now: "e_clock E (w_tick s) \<noteq> NaN" and rate: "rate \<noteq> Some NaN"
    and fresh: "\<not> debounced (JStr ip) (e_clock E (w_tick s)) s" and victim: "known_victim (JStr victim)"
    and answer: "e_run E (w_cmds s) (block_cmd ip duration) = Inr p"
  defines "t \<equiv> e_clock E (w_tick s)" and "s1 \<equiv> s\<lparr>w_tick := Suc (w_tick s), w_io := Suc (w_io s)\<rparr>"
    and "s2 \<equiv> s\<lparr>w_tick := Suc (w_tick s), w_io := w_io s + 2\<rparr>"
  shows "block_ip E (JStr ip) duration (JStr victim) rate entropy s =
    (Inr (), note_action (JStr ip) t
      (if w then s1
       else if h then snd (ratelimit_ip E (JStr ip) duration (JStr victim) rate CLASS_RATELIMITED entropy s2)
       else if returncode p \<noteq> 0 then s2\<lparr>w_cmds := w_cmds s @ [block_cmd ip duration]\<rparr>
       else (logged t ip CLASS_BLOCKED victim rate entropy s2)
              \<lparr>w_io := w_io s + 4, w_cmds := w_cmds s @ [block_cmd ip duration]\<rparr>))"
proof -
  have io: "\<forall>n. e_io E n (IO_Json WHITELIST_PATH)" "\<forall>n. e_io E n (IO_Json SHARED_IPS_PATH)"
    and files: "w_json s WHITELIST_PATH = JVal whitelist" "w_json s SHARED_IPS_PATH = JVal shared"
    using lists by (auto simp: lists_are_def lists_readable_def)
  have add: "ipset_add E ''ddos_blocklist'' (JStr ip) duration s2 = (Inr p, s2\<lparr>w_cmds := w_cmds s @ [block_cmd ip duration]\<rparr>)"
    using answer by (simp add: ipset_add_def str_arg_def run_cmd_def block_cmd_def s2_def)
  let ?log = "\<lambda>res :: proc. if returncode res = 0
      then bnd (log_incident E t (JStr ip) CLASS_BLOCKED (JStr victim) rate entropy)
             (\<lambda>_. record_ddos_source (JStr ip) CLASS_BLOCKED (JStr victim) rate t) else ret ()"
  have log: "bnd (ipset_add E ''ddos_blocklist'' (JStr ip) duration) ?log s2 =
      (Inr (), if returncode p \<noteq> 0 then s2\<lparr>w_cmds := w_cmds s @ [block_cmd ip duration]\<rparr>
         else (logged t ip CLASS_BLOCKED victim rate entropy s2)\<lparr>w_io := w_io s + 4, w_cmds := w_cmds s @ [block_cmd ip duration]\<rparr>)"
    unfolding bnd_def [of "ipset_add E ''ddos_blocklist'' (JStr ip) duration"] add
    by (simp add: bnd_Inr [OF log_incident_ok [OF db now rate, folded t_def]] record_ddos_source_def check_hash_def logged_def)
      (simp add: s2_def)
  let ?rl = "ratelimit_ip E (JStr ip) duration (JStr victim) rate CLASS_RATELIMITED entropy"
  have body: "if_listed E WHITELIST_PATH (JStr ip) (ret ()) (if_listed E SHARED_IPS_PATH (JStr ip) ?rl
      (bnd (ipset_add E ''ddos_blocklist'' (JStr ip) duration) ?log)) (s\<lparr>w_tick := Suc (w_tick s)\<rparr>) =
      (if w then (Inr (), s1) else if h then ?rl s2 else bnd (ipset_add E ''ddos_blocklist'' (JStr ip) duration) ?log s2)"
    using if_listed_present [OF io(1), of "s\<lparr>w_tick := Suc (w_tick s)\<rparr>", OF _ white] files
      if_listed_present [OF io(2), of s1, OF _ sh]
    by (simp add: s1_def s2_def)
  have "block_ip E (JStr ip) duration (JStr victim) rate entropy s =
      finally_do (try_except (if_listed E WHITELIST_PATH (JStr ip) (ret ()) (if_listed E SHARED_IPS_PATH (JStr ip) ?rl
        (bnd (ipset_add E ''ddos_blocklist'' (JStr ip) duration) ?log))) (\<lambda>_. ret ())) (note_action (JStr ip) t)
        (s\<lparr>w_tick := Suc (w_tick s)\<rparr>)"
    using fresh unfolding t_def
    by (simp add: block_ip_def resolve_known [OF victim] time_time_def check_hash_def debounced_def bnd_def [of "time_time E"])
  then show ?thesis
    by (simp add: finally_do_def try_except_def body log split: prod.split sum.split)
qed


theorem block_ip_branches_witness:
  "let s = (init_world (Fin 0))\<lparr>w_json := (\<lambda>_. JVal (JArr [JStr ''192.168.1.1'']))\<rparr>
   in w_cmds (snd (block_ip lab_env (JStr ''10.0.0.9'') (JInt 60) (JStr ''10.0.0.1'') (Some (Fin 500)) None s)) =
      [block_cmd ''10.0.0.9'' (JInt 60)]"
proof -
  let ?s = "(init_world (Fin 0))\<lparr>w_json := (\<lambda>_. JVal (JArr [JStr ''192.168.1.1'']))\<rparr>"
  let ?p = "\<lparr>returncode = 0, stdout = [], stderr = []\<rparr>"
  have "lists_are lab_env ?s (JArr [JStr ''192.168.1.1'']) (JArr [JStr ''192.168.1.1''])"
    by (simp add: lists_are_def lists_readable_def lab_env_io)
  moreover have "py_in (JStr ''10.0.0.9'') (JArr [JStr ''192.168.1.1'']) = Inr False" by simp
  moreover have "e_run lab_env (w_cmds ?s) (block_cmd ''10.0.0.9'' (JInt 60)) = Inr ?p" by (simp add: lab_env_def)
  moreover have "\<not> debounced (JStr ''10.0.0.9'') (e_clock lab_env (w_tick ?s)) ?s" by (simp add: debounced_def init_world_def)
  ultimately show ?thesis
    using block_ip_branches [of lab_env ?s _ _ "''10.0.0.9''" False False "Some (Fin 500)" "''10.0.0.1''" "JInt 60" ?p None]
    by (simp add: lab_env_io lab_env_clock known_victim_def unknown_addrs_def note_action_def init_world_def)
qed

text \<open>
  An address is acted on at most once in ten seconds. After a block of an address was attempted, a further block
  or rate limit of it whose clock reading is less than ten seconds later runs no command, writes nothing
  and changes nothing but the clock.
\<close>

theorem action_debounced:
  assumes first: "block_ip E (JStr ip) d v r en s = (Inr (), s1)"
    and fresh: "\<not> debounced (JStr ip) (e_clock E (w_tick s)) s"
    and soon: "flt (fsub (e_clock E (w_tick s1)) (e_clock E (w_tick s))) (lit 10)"
  shows "block_ip E (JStr ip) d' v' r' en' s1 = (Inr (), s1\<lparr>w_tick := Suc (w_tick s1)\<rparr>) \<and>
         ratelimit_ip E (JStr ip) d' v' r' cls en' s1 = (Inr (), s1\<lparr>w_tick := Suc (w_tick s1)\<rparr>)"
proof -
  obtain m where m: "block_ip E (JStr ip) d v r en s =
      bnd (resolve_victim_ip E v) (\<lambda>victim. finally_do (m victim) (note_action (JStr ip) (e_clock E (w_tick s)))) (s\<lparr>w_tick := Suc (w_tick s)\<rparr>)"
    using fresh by (simp add: block_ip_def time_time_def check_hash_def debounced_def bnd_def [of "time_time E"])
  then have "map_of (recently_blocked s1) (JStr ip) = Some (e_clock E (w_tick s))"
    using first by (auto simp: bnd_def finally_do_def note_action_def split: prod.splits sum.splits)
  then have "debounced (JStr ip) (e_clock E (w_tick s1)) (s1\<lparr>w_tick := Suc (w_tick s1)\<rparr>)"
    using soon by (simp add: debounced_def)
  then show ?thesis
    by (simp add: block_ip_def ratelimit_ip_def time_time_def check_hash_def bnd_def)
qed

theorem action_debounced_witness:
  "let s1 = snd (block_ip lab_env (JStr ''10.0.0.9'') (JInt 60) (JStr ''10.0.0.1'') None None (init_world (Fin 0)))
   in block_ip lab_env (JStr ''10.0.0.9'') (JInt 60) (JStr ''10.0.0.1'') None None s1 = (Inr (), s1\<lparr>w_tick := Suc (w_tick s1)\<rparr>)"
proof -
  let ?run = "block_ip lab_env (JStr ''10.0.0.9'') (JInt 60) (JStr ''10.0.0.1'') None None (init_world (Fin 0))"
  have "fst ?run = Inr () \<and> w_tick (snd ?run) = 1" by code_simp
  then have "?run = (Inr (), snd ?run)" and "w_tick (snd ?run) = 1" by (metis prod.collapse, simp)
  then show ?thesis
    using action_debounced [of lab_env "''10.0.0.9''" "JInt 60" "JStr ''10.0.0.1''" None None "init_world (Fin 0)" "snd ?run"
      "JInt 60" "JStr ''10.0.0.1''" None None CLASS_RATELIMITED]
    by (simp add: debounced_def lab_env_clock init_world_def fsub_Fin Let_def)
qed

end
