(* ===== verification/Receiver.thy ===== *)
theory Receiver
  imports Playbooks Capture Actions
begin

text \<open>
  The receive loop of \<open>stage2/ipc_receiver.py\<close>: one window from the bytes read to the last log line, in the
  order of the source. The parts of the long loop body are operations of their own: \<open>classify\<close>,
  \<open>check_anomaly\<close>, \<open>note_classification\<close>, \<open>update_metrics\<close>, \<open>count_window\<close>, the four tiers in
  \<open>enforce_ddos\<close>, \<open>enforce_flash\<close>, \<open>run_playbooks\<close> and \<open>finish_window\<close>; \<open>handle_window\<close> is
  their sequence.

  The thresholds of the configuration are dynamic values: a setting of the wrong type raises where the source
  compares with it. The two models are parameters. \<open>perf_counter\<close> is the monotonic clock.
\<close>

section \<open>Settings and thresholds\<close>

text \<open>\<open>cfg[k]\<close> as the operand of a comparison, and as a factor of a product with a float.\<close>

definition cfg_num :: "dict \<Rightarrow> string \<Rightarrow> pyfloat res" where
  "cfg_num cfg k = (case cfg_at cfg k of Inl e \<Rightarrow> Inl e | Inr v \<Rightarrow> need_num v)"

definition cfg_float :: "dict \<Rightarrow> string \<Rightarrow> pyfloat res" where
  "cfg_float cfg k = (case cfg_at cfg k of Inl e \<Rightarrow> Inl e | Inr v \<Rightarrow> to_float v)"

definition k_boundary :: "window \<Rightarrow> pyfloat" where
  "k_boundary w = fadd (fv_mean_r w) (fmul (fv_k_multiplier w) (fv_sigma_r w))"

definition dominant_rate :: "window \<Rightarrow> pyfloat" where
  "dominant_rate w = fmul (fv_ewma_rate w) (fv_dominant_ip_ratio w)"

definition extreme_boundary :: "window \<Rightarrow> dict \<Rightarrow> pyfloat res" where
  "extreme_boundary w cfg =
     (case cfg_float cfg ''block_sigma_multiplier'' of
        Inl e \<Rightarrow> Inl e
      | Inr m \<Rightarrow>
          (case cfg_num cfg ''block_rate_floor_pps'' of
             Inl e \<Rightarrow> Inl e
           | Inr fl \<Rightarrow> Inr (py_max fl (fadd (fv_mean_r w) (fmul m (fv_sigma_r w))))))"

definition apply_safety_overrides :: "int \<Rightarrow> window \<Rightarrow> dict \<Rightarrow> (int \<times> pyfloat) res" where
  "apply_safety_overrides pred_class w cfg =
     (case extreme_boundary w cfg of
        Inl e \<Rightarrow> Inl e
      | Inr extreme \<Rightarrow>
          (let entropy_boundary = fsub (fv_mean_h w) (fmul (fv_k_multiplier w) (fv_sigma_h w))
           in if pred_class \<in> {0, 1} \<and> flt (k_boundary w) (fv_ewma_rate w)
              then if flt extreme (dominant_rate w) then Inr (2, extreme)
                   else if flt (fv_entropy w) entropy_boundary then Inr (2, extreme)
                   else (case cfg_num cfg ''dominant_ip_ratio_extreme_threshold'' of
                           Inl e \<Rightarrow> Inl e
                         | Inr x \<Rightarrow> Inr (if flt x (fv_dominant_ip_ratio w) then 2 else 1, extreme))
              else Inr (pred_class, extreme)))"

section \<open>Latency figures\<close>

definition record_latency :: "string \<Rightarrow> pyfloat \<Rightarrow> unit op" where
  "record_latency kind ms =
     bnd (gets w_latency) (\<lambda>l.
     bnd (lift_res (latency_record kind ms l)) (\<lambda>l'.
     modify (\<lambda>s. s\<lparr>w_latency := l'\<rparr>)))"

definition add_step_secs :: "string \<Rightarrow> pyfloat \<Rightarrow> unit op" where
  "add_step_secs k d = modify (\<lambda>s. s\<lparr>step_secs := AList.update k (fadd (dict_get (step_secs s) k (Fin 0)) d) (step_secs s)\<rparr>)"

definition timed_enforcement :: "env \<Rightarrow> pyfloat \<Rightarrow> unit op \<Rightarrow> unit op" where
  "timed_enforcement E window_ts action =
     bnd (time_time E) (\<lambda>started.
     bnd action (\<lambda>_.
     bnd (time_time E) (\<lambda>finished.
     bnd (add_step_secs ''enforcement'' (fsub finished started)) (\<lambda>_.
     bnd (record_latency ''enforcement'' (fmul (fsub finished started) (Fin 1000))) (\<lambda>_.
     record_latency ''window_to_rule'' (fmul (fsub finished window_ts) (Fin 1000)))))))"

definition log_latency_if_due :: "env \<Rightarrow> unit op" where
  "log_latency_if_due E =
     (let interval = LATENCY_LOG_INTERVAL_SECS (e_conf E)
      in if fle interval (Fin 0) then ret ()
         else bnd (time_time E) (\<lambda>now.
           bnd (gets latency_log_last) (\<lambda>last_log.
           if flt (fsub now last_log) interval then ret ()
           else modify (\<lambda>s.
             let s1 = s\<lparr>latency_log_last := now\<rparr>
             in if has_samples (w_latency s)
                then case summary_line (e_sum E) interval (w_latency s) of
                  (line, l') \<Rightarrow> s1\<lparr>w_latency := l', w_log := w_log s1 @ [line]\<rparr>
                else s1))))"

section \<open>Flow snapshot\<close>

text \<open>What opening the file gives: \<open>open\<close> follows a symbolic link.\<close>

definition read_flows :: "env \<Rightarrow> json option op" where
  "read_flows E =
     bnd (gets (\<lambda>s. w_json s FLOWS_PATH)) (\<lambda>f.
     if f = JMissing then ret None
     else bnd (io_ok E (IO_Json FLOWS_PATH)) (\<lambda>ok.
       ret (if ok then (case f of JVal j \<Rightarrow> Some j | JLink j \<Rightarrow> Some j | _ \<Rightarrow> None) else None)))"

fun sum_flows :: "json \<Rightarrow> json list \<Rightarrow> (json \<times> pyfloat) list \<Rightarrow> (json \<times> pyfloat) list res" where
  "sum_flows victim [] acc = Inr acc"
| "sum_flows victim (flow # flows) acc =
     (case flow of
        JObj d \<Rightarrow>
          (let f_ip = dict_get d ''ip'' JNull
           in if \<not> py_eq (dict_get d ''dst'' JNull) victim then sum_flows victim flows acc
              else if py_truthy f_ip \<and> f_ip \<notin> unknown_addrs
              then if \<not> hashable f_ip then Inl TypeError
                   else (case to_float (dict_get d ''rate'' (JFloat (Fin 0))) of
                           Inl e \<Rightarrow> Inl e
                         | Inr r \<Rightarrow> sum_flows victim flows (AList.update f_ip (fadd (dict_get acc f_ip (Fin 0)) r) acc))
              else sum_flows victim flows acc)
      | _ \<Rightarrow> Inl AttributeError)"

definition flow_rates :: "json \<Rightarrow> json \<Rightarrow> (json \<times> pyfloat) list res" where
  "flow_rates flow_data victim =
     (case obj_get flow_data ''active_ips'' (JArr []) of
        Inl e \<Rightarrow> Inl e
      | Inr a \<Rightarrow> (case iter_list a of Inl e \<Rightarrow> Inl e | Inr flows \<Rightarrow> sum_flows victim flows []))"

text \<open>\<open>now - float(flow_data.get("timestamp"))\<close> under \<open>except (TypeError, ValueError)\<close>.\<close>

definition snapshot_age :: "pyfloat \<Rightarrow> json \<Rightarrow> pyfloat option res" where
  "snapshot_age now flow_data =
     (case obj_get flow_data ''timestamp'' JNull of
        Inl e \<Rightarrow> Inl e
      | Inr ts \<Rightarrow>
          (case py_float ts of
             Inr t \<Rightarrow> Inr (Some (fsub now t))
           | Inl TypeError \<Rightarrow> Inr None
           | Inl ValueError \<Rightarrow> Inr None
           | Inl e \<Rightarrow> Inl e))"

definition load_victim_flow_rates :: "env \<Rightarrow> json \<Rightarrow> (json \<times> pyfloat) list op" where
  "load_victim_flow_rates E victim =
     bnd (read_flows E) (\<lambda>f.
     case f of
       None \<Rightarrow> ret []
     | Some flow_data \<Rightarrow>
         bnd (time_time E) (\<lambda>now.
         bnd (lift_res (snapshot_age now flow_data)) (\<lambda>age.
         case age of
           None \<Rightarrow> ret []
         | Some a \<Rightarrow>
             if flt (FLOWS_MAX_AGE_SECS (e_conf E)) a then ret []
             else lift_res (flow_rates flow_data victim))))"

section \<open>Alerts on blocks and on the classification\<close>

definition maybe_alert_block :: "env \<Rightarrow> json \<Rightarrow> json \<Rightarrow> pyfloat \<Rightarrow> dict \<Rightarrow> unit op" where
  "maybe_alert_block E ip victim rate cfg =
     bnd (time_time E) (\<lambda>now.
     bnd (check_hash ip) (\<lambda>_.
     bnd (gets (\<lambda>s. dict_get (last_block_alert s) ip (Fin 0))) (\<lambda>last_alert.
     bnd (lift_res (cfg_num cfg ''block_duration_seconds'')) (\<lambda>duration.
     if flt (fsub now last_alert) duration then ret ()
     else bnd (modify (\<lambda>s. s\<lparr>last_block_alert := AList.update ip now (last_block_alert s)\<rparr>)) (\<lambda>_.
          dispatch_alert ''FLOD System: IP Blocked''
            (''Blocked '' @ py_str ip @ '' targeting '' @ py_str victim @ '' (sustained ~'' @ fmt_fixed 1 rate @ '' pps).'')
            ''all'')))))"

definition class_name :: "int \<Rightarrow> string" where
  "class_name pred_class = (if pred_class = 1 then ''Flash Crowd'' else if pred_class = 2 then ''DDoS'' else ''Normal'')"

definition note_classification :: "window \<Rightarrow> json \<Rightarrow> string \<Rightarrow> unit op" where
  "note_classification w victim pred_name =
     bnd (check_hash victim) (\<lambda>_.
     bnd (gets (\<lambda>s. map_of (last_classification_by_target s) victim)) (\<lambda>prev.
     bnd (if pred_name = ''DDoS'' \<and> prev \<noteq> Some ''DDoS''
          then dispatch_alert ''FLOD System: DDoS Detected''
            (''Victim '' @ py_str victim @ '' classified DDoS, rate='' @ fmt_fixed 1 (fv_ewma_rate w) @ ''pps, entropy='' @
             fmt_fixed 3 (fv_entropy w) @ '', dominant_ip_ratio='' @ fmt_percent 1 (fv_dominant_ip_ratio w) @ ''.'') ''all''
          else if pred_name \<noteq> ''DDoS'' \<and> prev = Some ''DDoS''
          then dispatch_alert ''FLOD System: DDoS Resolved''
            (''Victim '' @ py_str victim @ '' classification returned to '' @ pred_name @ '', rate='' @
             fmt_fixed 1 (fv_ewma_rate w) @ ''pps, entropy='' @ fmt_fixed 3 (fv_entropy w) @ ''.'') ''all''
          else ret ()) (\<lambda>_.
     modify (\<lambda>s. s\<lparr>last_classification_by_target := AList.update victim pred_name (last_classification_by_target s)\<rparr>))))"

section \<open>Classification\<close>

definition is_warmup :: "window \<Rightarrow> bool" where
  "is_warmup w \<longleftrightarrow> \<not> feq (fv_is_warmup w) (Fin 0)"

definition feature_row :: "window \<Rightarrow> features" where
  "feature_row w =
     [fv_entropy w, fv_ewma_rate w, fv_mean_h w, fv_mean_r w, fv_sigma_h w, fv_sigma_r w, fv_proto_ratio w,
      fv_dominant_ip_ratio w, fsub (fv_ewma_rate w) (fv_mean_r w), fsub (fv_entropy w) (fv_mean_h w), dominant_rate w,
      fv_source_port_entropy w, fv_ttl_variance w, fv_fingerprint_diversity w]"

definition classify :: "env \<Rightarrow> window \<Rightarrow> (int \<times> pyfloat) op" where
  "classify E w =
     bnd (monotonic E) (\<lambda>started.
     bnd (case e_clf E of
            None \<Rightarrow> ret 0
          | Some predict \<Rightarrow> if is_warmup w then ret 0 else lift_res (predict (feature_row w))) (\<lambda>pred_class.
     bnd (monotonic E) (\<lambda>finished.
     ret (pred_class, fadd (Fin 0) (fsub finished started)))))"

definition should_capture_pretraining_row :: "env \<Rightarrow> window \<Rightarrow> bool" where
  "should_capture_pretraining_row E w \<longleftrightarrow> e_clf E = None \<and> \<not> is_warmup w"

text \<open>The Isolation Forest's opinion: the name of the class and the time spent.\<close>

definition check_anomaly :: "env \<Rightarrow> window \<Rightarrow> json \<Rightarrow> int \<Rightarrow> pyfloat \<Rightarrow> (string \<times> pyfloat) op" where
  "check_anomaly E w victim pred_class secs =
     (case e_if_clf E of
        None \<Rightarrow> ret (class_name pred_class, secs)
      | Some m \<Rightarrow>
          if is_warmup w \<or> pred_class \<notin> {0, 1} then ret (class_name pred_class, secs)
          else bnd (monotonic E) (\<lambda>started.
               bnd (lift_res (if_predict m (feature_row w))) (\<lambda>verdict.
               bnd (monotonic E) (\<lambda>finished.
               let secs' = fadd secs (fsub finished started)
               in if verdict = - 1
                  then bnd (lift_res (if_score m (feature_row w))) (\<lambda>score.
                       bnd (write_anomalous_row E victim score (class_name pred_class) w) (\<lambda>_.
                       ret (''Anomalous'', secs')))
                  else ret (class_name pred_class, secs')))))"

section \<open>Live figures\<close>

definition sensor_value :: "pyfloat \<Rightarrow> json" where
  "sensor_value x = (if fle (Fin 0) x then JFloat x else JNull)"

definition window_metrics :: "window \<Rightarrow> json \<Rightarrow> string \<Rightarrow> int \<Rightarrow> dict" where
  "window_metrics w victim pred_name cooldown =
     [(''entropy'', JFloat (fv_entropy w)), (''ewma_rate'', JFloat (fv_ewma_rate w)), (''mean_h'', JFloat (fv_mean_h w)),
      (''mean_r'', JFloat (fv_mean_r w)), (''sigma_h'', JFloat (fv_sigma_h w)), (''sigma_r'', JFloat (fv_sigma_r w)),
      (''proto_ratio'', JFloat (fv_proto_ratio w)), (''dominant_ip_ratio'', JFloat (fv_dominant_ip_ratio w)),
      (''timestamp'', JFloat (fv_timestamp w)), (''k_multiplier'', JFloat (fv_k_multiplier w)), (''cooldown'', JInt cooldown),
      (''latest_classification'', JStr pred_name), (''victim_ip'', victim), (''egress_rate'', sensor_value (fv_egress_rate w)),
      (''drop_ratio'', sensor_value (fv_drop_ratio w)), (''proto_tcp'', JFloat (fv_proto_tcp w)),
      (''proto_udp'', JFloat (fv_proto_udp w)), (''proto_icmp'', JFloat (fv_proto_icmp w)),
      (''proto_sctp'', JFloat (fv_proto_sctp w)), (''proto_gre'', JFloat (fv_proto_gre w)),
      (''proto_esp'', JFloat (fv_proto_esp w)), (''source_port_entropy'', JFloat (fv_source_port_entropy w)),
      (''ttl_variance'', JFloat (fv_ttl_variance w)), (''fingerprint_diversity'', JFloat (fv_fingerprint_diversity w))]"

definition update_metrics :: "env \<Rightarrow> window \<Rightarrow> json \<Rightarrow> string \<Rightarrow> unit op" where
  "update_metrics E w victim pred_name =
     bnd (lift_res (py_int (fv_cooldown_counter w))) (\<lambda>cooldown.
     let m = window_metrics w victim pred_name cooldown
     in bnd (modify (\<lambda>s. s\<lparr>last_metrics := m, last_metrics_by_target := AList.update victim m (last_metrics_by_target s)\<rparr>)) (\<lambda>_.
        bnd (time_time E) (\<lambda>db_started.
        bnd (log_metrics_history E (fv_timestamp w) [fv_ewma_rate w, fv_entropy w, fv_mean_h w, fv_mean_r w, fv_sigma_h w,
               fv_sigma_r w, fv_k_multiplier w] victim) (\<lambda>_.
        bnd (time_time E) (\<lambda>db_finished.
        add_step_secs ''database'' (fsub db_finished db_started))))))"

definition count_window :: "json \<Rightarrow> int \<Rightarrow> unit op" where
  "count_window victim pred_class =
     modify (\<lambda>s. s\<lparr>consecutive_ddos_windows := AList.update victim
         (if pred_class = 2 then dict_get (consecutive_ddos_windows s) victim 0 + 1 else 0) (consecutive_ddos_windows s),
       last_tier_reached := AList.update victim 0 (last_tier_reached s)\<rparr>)"

section \<open>The four tiers\<close>

definition reach_tier :: "json \<Rightarrow> nat \<Rightarrow> unit op" where
  "reach_tier victim n =
     modify (\<lambda>s. s\<lparr>last_tier_reached := AList.update victim (max (dict_get (last_tier_reached s) victim 0) n) (last_tier_reached s)\<rparr>)"

definition block_source :: "env \<Rightarrow> window \<Rightarrow> json \<Rightarrow> dict \<Rightarrow> json \<Rightarrow> pyfloat \<Rightarrow> unit op" where
  "block_source E w victim cfg ip rate =
     bnd (lift_res (cfg_at cfg ''block_duration_seconds'')) (\<lambda>d.
     bnd (timed_enforcement E (fv_timestamp w) (block_ip E ip d victim (Some rate) (Some (fv_entropy w)))) (\<lambda>_.
     maybe_alert_block E ip victim rate cfg))"

definition ratelimit_source :: "env \<Rightarrow> window \<Rightarrow> json \<Rightarrow> dict \<Rightarrow> string \<Rightarrow> json \<Rightarrow> pyfloat \<Rightarrow> unit op" where
  "ratelimit_source E w victim cfg cls ip rate =
     bnd (lift_res (cfg_at cfg ''ratelimit_duration_seconds'')) (\<lambda>d.
     timed_enforcement E (fv_timestamp w) (ratelimit_ip E ip d victim (Some rate) cls (Some (fv_entropy w))))"

text \<open>The dominant source is concentrated and fast.\<close>

definition dominant_elevated :: "window \<Rightarrow> dict \<Rightarrow> bool res" where
  "dominant_elevated w cfg =
     (case cfg_num cfg ''dominant_ip_ratio_block_threshold'' of
        Inl e \<Rightarrow> Inl e
      | Inr x \<Rightarrow> Inr (fle x (fv_dominant_ip_ratio w) \<and> fle (k_boundary w) (dominant_rate w)))"

definition tier1 :: "env \<Rightarrow> window \<Rightarrow> json \<Rightarrow> dict \<Rightarrow> bool \<Rightarrow> json list op" where
  "tier1 E w victim cfg block_ready =
     (if \<not> block_ready then ret []
      else bnd (lift_res (dominant_elevated w cfg)) (\<lambda>hit.
        if hit
        then bnd (block_source E w victim cfg (JStr (fv_dominant_ip w)) (dominant_rate w)) (\<lambda>_.
             bnd (reach_tier victim 1) (\<lambda>_. ret [JStr (fv_dominant_ip w)]))
        else ret []))"

text \<open>Tiers 2 and 3 share their loop: the sources not acted on yet whose rate reaches the threshold.\<close>

fun each_source :: "(json \<Rightarrow> pyfloat \<Rightarrow> unit op) \<Rightarrow> pyfloat \<Rightarrow> json list \<Rightarrow> (json \<times> pyfloat) list \<Rightarrow> json list op" where
  "each_source act threshold acted_on [] = ret acted_on"
| "each_source act threshold acted_on ((f_ip, agg_rate) # rest) =
     (if f_ip \<in> set acted_on then each_source act threshold acted_on rest
      else if fle threshold agg_rate
      then bnd (act f_ip agg_rate) (\<lambda>_. each_source act threshold (f_ip # acted_on) rest)
      else each_source act threshold acted_on rest)"

definition tier2 :: "env \<Rightarrow> window \<Rightarrow> json \<Rightarrow> dict \<Rightarrow> bool \<Rightarrow> pyfloat \<Rightarrow> (json \<times> pyfloat) list \<Rightarrow> json list \<Rightarrow> json list op" where
  "tier2 E w victim cfg block_ready block_threshold rates acted_on =
     (if \<not> block_ready then ret acted_on
      else each_source (\<lambda>ip rate. bnd (block_source E w victim cfg ip rate) (\<lambda>_. reach_tier victim 2)) block_threshold acted_on rates)"

definition tier3 :: "env \<Rightarrow> window \<Rightarrow> json \<Rightarrow> dict \<Rightarrow> pyfloat \<Rightarrow> (json \<times> pyfloat) list \<Rightarrow> json list \<Rightarrow> json list op" where
  "tier3 E w victim cfg flow_threshold rates acted_on =
     each_source (\<lambda>ip rate. bnd (ratelimit_source E w victim cfg CLASS_RATELIMITED ip rate) (\<lambda>_. reach_tier victim 3))
       flow_threshold acted_on rates"

definition tier4 :: "env \<Rightarrow> window \<Rightarrow> json \<Rightarrow> dict \<Rightarrow> (json \<times> pyfloat) list \<Rightarrow> json list \<Rightarrow> unit op" where
  "tier4 E w victim cfg rates acted_on =
     (if acted_on = [] \<and> rates \<noteq> []
      then bnd (dispatch_alert ''FLOD System: Aggregate Fallback Triggered''
             (''Victim '' @ py_str victim @ '': DDoS verdict with no individually-attributable source, rate-limited '' @
              show_nat (length rates) @ '' active flows as a fallback.'') ''all'') (\<lambda>_.
           bnd (for_each (\<lambda>(ip, rate). ratelimit_source E w victim cfg CLASS_RATELIMITED ip rate) rates) (\<lambda>_.
           reach_tier victim 4))
      else ret ())"

definition source_known :: "window \<Rightarrow> bool" where
  "source_known w \<longleftrightarrow> JStr (fv_dominant_ip w) \<notin> unknown_addrs"

definition hysteresis_met :: "json \<Rightarrow> dict \<Rightarrow> world \<Rightarrow> bool res" where
  "hysteresis_met victim cfg s =
     (case cfg_num cfg ''block_hysteresis_windows'' of
        Inl e \<Rightarrow> Inl e
      | Inr x \<Rightarrow> Inr (fle x (Fin (of_nat (dict_get (consecutive_ddos_windows s) victim 0)))))"

definition flow_floor :: "window \<Rightarrow> dict \<Rightarrow> pyfloat res" where
  "flow_floor w cfg =
     (case cfg_num cfg ''ratelimit_rate_floor_pps'' of
        Inl e \<Rightarrow> Inl e
      | Inr fl \<Rightarrow> Inr (py_max fl (fadd (fv_mean_r w) (fv_sigma_r w))))"

definition timed_flow_rates :: "env \<Rightarrow> json \<Rightarrow> (json \<times> pyfloat) list op" where
  "timed_flow_rates E victim =
     bnd (time_time E) (\<lambda>flows_started.
     bnd (load_victim_flow_rates E victim) (\<lambda>rates.
     bnd (time_time E) (\<lambda>flows_finished.
     bnd (add_step_secs ''flows'' (fsub flows_finished flows_started)) (\<lambda>_. ret rates))))"

definition run_tiers :: "env \<Rightarrow> window \<Rightarrow> json \<Rightarrow> dict \<Rightarrow> bool \<Rightarrow> pyfloat \<Rightarrow> pyfloat \<Rightarrow> (json \<times> pyfloat) list \<Rightarrow> unit op" where
  "run_tiers E w victim cfg block_ready block_threshold flow_threshold rates =
     bnd (tier1 E w victim cfg block_ready) (\<lambda>acted1.
     bnd (tier2 E w victim cfg block_ready block_threshold rates acted1) (\<lambda>acted2.
     bnd (tier3 E w victim cfg flow_threshold rates acted2) (\<lambda>acted3.
     tier4 E w victim cfg rates acted3)))"

definition enforce_ddos :: "env \<Rightarrow> window \<Rightarrow> json \<Rightarrow> dict \<Rightarrow> pyfloat \<Rightarrow> unit op" where
  "enforce_ddos E w victim cfg block_threshold =
     (if \<not> source_known w then ret ()
      else bnd (lift_res (flow_floor w cfg)) (\<lambda>flow_threshold.
           bnd (gets (hysteresis_met victim cfg)) (\<lambda>ready.
           bnd (lift_res ready) (\<lambda>block_ready.
           bnd (timed_flow_rates E victim) (\<lambda>rates.
           run_tiers E w victim cfg block_ready block_threshold flow_threshold rates)))))"

definition enforce_flash :: "env \<Rightarrow> window \<Rightarrow> json \<Rightarrow> dict \<Rightarrow> string \<Rightarrow> unit op" where
  "enforce_flash E w victim cfg pred_name =
     (if \<not> source_known w then ret ()
      else let src = JStr (fv_dominant_ip w)
           in bnd (log_incident E (fv_timestamp w) src pred_name victim (Some (dominant_rate w)) (Some (fv_entropy w))) (\<lambda>_.
              bnd (lift_res (dominant_elevated w cfg)) (\<lambda>hit.
              if hit
              then bnd (lift_res (cfg_at cfg ''ratelimit_hashlimit_pps'')) (\<lambda>_.
                   ratelimit_source E w victim cfg CLASS_RATELIMITED_FLASH src (dominant_rate w))
              else ret ())))"

definition enforce :: "env \<Rightarrow> window \<Rightarrow> json \<Rightarrow> dict \<Rightarrow> int \<Rightarrow> string \<Rightarrow> pyfloat \<Rightarrow> unit op" where
  "enforce E w victim cfg pred_class pred_name block_threshold =
     (if pred_class = 2 then enforce_ddos E w victim cfg block_threshold
      else if pred_class = 1 then enforce_flash E w victim cfg pred_name
      else if pred_class = 0 \<and> source_known w
      then log_incident E (fv_timestamp w) (JStr (fv_dominant_ip w)) pred_name victim (Some (dominant_rate w)) (Some (fv_entropy w))
      else ret ())"

section \<open>Playbooks and the end of a window\<close>

definition hosts_under_attack :: "world \<Rightarrow> nat" where
  "hosts_under_attack s = length (filter (\<lambda>(_, c). c = ''DDoS'') (last_classification_by_target s))"

definition run_playbooks :: "env \<Rightarrow> window \<Rightarrow> json \<Rightarrow> unit op" where
  "run_playbooks E w victim =
     try_except
       (bnd (gets (\<lambda>s. (hosts_under_attack s, dict_get (last_tier_reached s) victim 0, dict_get (consecutive_ddos_windows s) victim 0)))
         (\<lambda>(hosts, tier, consecutive).
        bnd (check_and_start_runs E victim tier consecutive hosts
               (if source_known w then Some (fv_dominant_ip w) else None) (fv_timestamp w)) (\<lambda>_.
        advance_runs E (fv_timestamp w))))
       (\<lambda>_. ret ())"

definition millis :: "pyfloat \<Rightarrow> string" where
  "millis secs = fmt_fixed 0 (fmul secs (Fin 1000)) @ '' ms''"

definition finish_window :: "env \<Rightarrow> pyfloat \<Rightarrow> pyfloat \<Rightarrow> unit op" where
  "finish_window E received_at inference_secs =
     bnd (time_time E) (\<lambda>now.
     let busy_secs = fsub now received_at
     in bnd (record_latency ''busy'' (fmul busy_secs (Fin 1000))) (\<lambda>_.
        bnd (if fle (SLOW_WINDOW_LOG_SECS (e_conf E)) busy_secs
             then modify (\<lambda>s. let secs = (\<lambda>k. dict_get (step_secs s) k (Fin 0)) in s\<lparr>w_log := w_log s @
               [''[!] Handling one window took '' @ fmt_fixed 1 busy_secs @ ''s (inference '' @ millis inference_secs @
                '', database '' @ millis (secs ''database'') @ '', flow snapshot '' @ millis (secs ''flows'') @
                '', enforcement '' @ millis (secs ''enforcement'') @ ''), later windows queue behind it.'']\<rparr>)
             else ret ()) (\<lambda>_.
        log_latency_if_due E)))"

section \<open>One window\<close>

definition record_handoff :: "pyfloat \<Rightarrow> window \<Rightarrow> unit op" where
  "record_handoff received_at w =
     (let handoff_ms = fmul (fsub received_at (fv_timestamp w)) (Fin 1000)
      in if fle (Fin 0) handoff_ms \<and> flt handoff_ms (Fin 60000) then record_latency ''handoff'' handoff_ms else ret ())"

definition judge_window :: "env \<Rightarrow> window \<Rightarrow> json \<Rightarrow> dict \<Rightarrow> (int \<times> string \<times> pyfloat \<times> pyfloat) op" where
  "judge_window E w victim cfg =
     bnd (classify E w) (\<lambda>(rf_class, rf_secs).
     bnd (if should_capture_pretraining_row E w then write_pretraining_row E w else ret ()) (\<lambda>_.
     bnd (lift_res (apply_safety_overrides rf_class w cfg)) (\<lambda>(pred_class, extreme).
     bnd (check_anomaly E w victim pred_class rf_secs) (\<lambda>(pred_name, secs).
     bnd (if \<not> is_warmup w \<and> (e_clf E \<noteq> None \<or> e_if_clf E \<noteq> None)
          then record_latency ''inference'' (fmul secs (Fin 1000)) else ret ()) (\<lambda>_.
     bnd (if \<not> is_warmup w \<and> pred_class = 2 then write_ddos_capture_row E w else ret ()) (\<lambda>_.
     ret (pred_class, pred_name, extreme, secs)))))))"

definition process_window :: "env \<Rightarrow> pyfloat \<Rightarrow> window \<Rightarrow> unit op" where
  "process_window E received_at w =
     bnd (record_handoff received_at w) (\<lambda>_.
     bnd (resolve_victim_ip E (JStr (fv_victim_ip w))) (\<lambda>victim.
     bnd (get_enforcement_config E) (\<lambda>cfg.
     bnd (judge_window E w victim cfg) (\<lambda>(pred_class, pred_name, extreme, secs).
     bnd (note_classification w victim pred_name) (\<lambda>_.
     bnd (update_metrics E w victim pred_name) (\<lambda>_.
     bnd (count_window victim pred_class) (\<lambda>_.
     bnd (enforce E w victim cfg pred_class pred_name extreme) (\<lambda>_.
     bnd (run_playbooks E w victim) (\<lambda>_.
     finish_window E received_at secs)))))))))"

definition handle_window :: "env \<Rightarrow> byte list \<Rightarrow> unit op" where
  "handle_window E data =
     bnd (time_time E) (\<lambda>received_at.
     bnd (modify (\<lambda>s. s\<lparr>step_secs := [(''database'', Fin 0), (''flows'', Fin 0), (''enforcement'', Fin 0)]\<rparr>)) (\<lambda>_.
     bnd (lift_res (unpack data)) (\<lambda>u. process_window E received_at (fields_of u))))"

section \<open>Connections\<close>

text \<open>The users that may connect: root and the Stage 1 account if it exists. A user that cannot be determined is
  \<open>None\<close>.\<close>

definition expected_uids :: "nat option \<Rightarrow> nat list" where
  "expected_uids stage1 = 0 # (case stage1 of None \<Rightarrow> [] | Some u \<Rightarrow> [u])"

definition uid_allowed :: "nat option \<Rightarrow> nat option \<Rightarrow> bool" where
  "uid_allowed stage1 peer = (case peer of None \<Rightarrow> False | Some u \<Rightarrow> u \<in> set (expected_uids stage1))"

text \<open>One accepted connection: an exception ends it, and the loop goes on with the next one.\<close>

definition serve_connection :: "env \<Rightarrow> nat option \<Rightarrow> nat option \<Rightarrow> conn \<Rightarrow> unit op" where
  "serve_connection E stage1 peer c =
     (if \<not> uid_allowed stage1 peer then ret ()
      else try_except (for_each (handle_window E) (recv_all c)) (\<lambda>_. ret ()))"

end
