(* ===== verification/Receiver_Safety.thy ===== *)
theory Receiver_Safety
  imports Receiver Playbook_Runs
begin

text \<open>
  What the receive loop of \<open>stage2/ipc_receiver.py\<close> can do to the firewall. The locale \<open>frame_window\<close> says once what
  handling a window may change; its interpretations give that no served connection touches an exempted
  address, and that no source is blocked before its victim has had enough consecutive DDoS windows.
\<close>

section \<open>What handling a window may change\<close>

text \<open>The parts of the state the guarantees below speak of, and the steps that leave all of them alone.\<close>

definition tracked :: "world \<Rightarrow> (json \<times> nat) list \<times> (json \<times> string) list" where
  "tracked s = (consecutive_ddos_windows s, last_classification_by_target s)"

definition quiet :: "world \<Rightarrow> world \<Rightarrow> bool" where
  "quiet s s' \<longleftrightarrow> w_json s' = w_json s \<and> w_cmds s' = w_cmds s \<and> tracked s' = tracked s \<and>
     (latency_ok (w_latency s) \<longrightarrow> latency_ok (w_latency s'))"

text \<open>A relation that allows the quiet steps, the database and the two enforcement actions allows everything the
  receiver does for a window, but for the two places that write the tracked dictionaries.\<close>

locale frame_window = frame_db R + frame_load R for R :: "world \<Rightarrow> world \<Rightarrow> bool" +
  fixes E :: env
  assumes quiet: "quiet s s' \<Longrightarrow> R s s'"
    and block: "steps R (block_ip E ip d v r en)"
    and ratelimit: "steps R (ratelimit_ip E ip d v r cls en)"
begin

lemma quiet_modify: "(\<And>s. quiet s (f s)) \<Longrightarrow> steps R (modify f)"
  by (simp add: steps_def quiet)

lemma record_latency: "steps R (record_latency k x)"
proof (rule stepsI, rule quiet)
  show "quiet s (snd (record_latency k x s))" for s
    by (cases "latency_record k x (w_latency s)")
      (auto simp: record_latency_def py_eval quiet_def tracked_def dest: latency_ok_record)
qed

lemma small:
  "steps R (dispatch_alert a b c)" "steps R (add_step_secs k x)" "steps R (reach_tier v n)"
  unfolding dispatch_alert_def add_step_secs_def reach_tier_def Let_def
  by (intro quiet_modify; simp add: quiet_def tracked_def)+

lemmas marks = small record_latency

lemma append_csv_row: "steps R (append_csv_row E p header row)"
  unfolding append_csv_row_def queue_row_def try_lock_def note_locked_def note_capped_def file_size_def write_pending_def
    set_pending_def Let_def
  by (intro io_rules quiet_modify) (simp_all add: steps_def quiet quiet_def tracked_def)

lemma source_actions:
  "steps R (block_source E w v cfg ip r)" "steps R (ratelimit_source E w v cfg cls ip r)"
  unfolding block_source_def ratelimit_source_def maybe_alert_block_def timed_enforcement_def
  by (intro io_rules check_hash block ratelimit marks; simp add: quiet quiet_def tracked_def)+

lemma each_source: "(\<And>ip r. steps R (act ip r)) \<Longrightarrow> steps R (each_source act th acted rs)"
  by (induction act th acted rs rule: each_source.induct) (auto intro: rules)

lemma run_tiers: "steps R (run_tiers E w v cfg ready bt ft rates)"
  unfolding run_tiers_def tier1_def tier2_def tier3_def tier4_def
  by (intro io_rules each_source for_each source_actions marks)

lemma timed_flow_rates: "steps R (timed_flow_rates E v)"
  unfolding timed_flow_rates_def load_victim_flow_rates_def read_flows_def by (intro io_rules marks)

lemma enforce: "steps R (enforce E w v cfg c name x)"
  unfolding enforce_def enforce_ddos_def enforce_flash_def Let_def
  by (intro io_rules run_tiers source_actions timed_flow_rates db_ops)

lemma run_playbooks: "steps R (run_playbooks E w v)"
proof -
  have stage: "steps R (execute_stage E st h src)" for st h src
    unfolding execute_stage_def execute_escalate_def execute_notify_def execute_report_def atomic_write_bytes_def render_report_def Let_def
    by (intro io_rules get_enforcement_config block ratelimit marks quiet_modify)
      (simp_all add: steps_def quiet quiet_def tracked_def)
  have obj: "steps R (case j of JObj st \<Rightarrow> m st | _ \<Rightarrow> raise_exn AttributeError)"
    if "\<And>st. steps R (m st)" for j :: json and m :: "dict \<Rightarrow> unit op"
    using that by (cases j) (auto intro: raise_exn)
  have adv: "steps R (advance_runs E now)" for now
    unfolding advance_runs_def advance_run_def advance_stage_def Let_def
    by (intro rules for_each db_ops obj stage)
  have start: "steps R (check_and_start_runs E victim tier cons hosts src now)" for victim tier cons hosts src now
    unfolding check_and_start_runs_def check_playbook_def
    by (intro rules for_each db_ops)
  show ?thesis unfolding run_playbooks_def by (intro rules adv start)
qed

lemma judge_window: "steps R (judge_window E w v cfg)"
  unfolding judge_window_def classify_def check_anomaly_def write_anomalous_row_def write_pretraining_row_def
    write_ddos_capture_row_def Let_def
  by (intro io_rules append_csv_row marks)

lemma update_metrics: "steps R (update_metrics E w v name)"
  unfolding update_metrics_def Let_def by (intro io_rules quiet_modify marks db_ops) (simp add: quiet quiet_def tracked_def)

lemma finish_window: "steps R (finish_window E r secs)"
proof -
  have "steps R (log_latency_if_due E)"
    unfolding log_latency_if_due_def Let_def
    by (intro io_rules quiet_modify) (simp add: quiet quiet_def tracked_def summary_line_def latency_ok_init split: prod.split)
  then show ?thesis unfolding finish_window_def Let_def
    by (intro io_rules quiet_modify marks) (simp_all add: quiet quiet_def tracked_def)
qed

lemma record_handoff: "steps R (record_handoff t w)"
  unfolding record_handoff_def Let_def by (intro rules marks)

end

section \<open>The lists are respected\<close>

definition safe_step :: "world \<Rightarrow> world \<Rightarrow> bool" where
  "safe_step s s' \<longleftrightarrow>
     (\<forall>p. w_json s p \<noteq> JMissing \<longrightarrow> w_json s' p = w_json s p) \<and>
     (\<exists>cs. w_cmds s' = w_cmds s @ cs \<and> (\<forall>c \<in> set cs. respects_lists s c))"

lemma safe_stepI: "w_json s' = w_json s \<Longrightarrow> w_cmds s' = w_cmds s \<Longrightarrow> safe_step s s'"
  by (simp add: safe_step_def)

lemma safe_step_trans:
  assumes st: "safe_step s t" and tu: "safe_step t u"
  shows "safe_step s u"
proof -
  have files: "w_json s p \<noteq> JMissing \<Longrightarrow> w_json t p = w_json s p" for p using st by (simp add: safe_step_def)
  obtain cs ds where cs: "w_cmds t = w_cmds s @ cs" "\<forall>c \<in> set cs. respects_lists s c"
    and ds: "w_cmds u = w_cmds t @ ds" "\<forall>c \<in> set ds. respects_lists t c"
    using st tu by (auto simp: safe_step_def)
  have "w_cmds u = w_cmds s @ (cs @ ds)" "\<forall>c \<in> set (cs @ ds). respects_lists s c"
    using cs ds respects_lists_mono [of s t, OF files] by auto
  moreover have "\<forall>p. w_json s p \<noteq> JMissing \<longrightarrow> w_json u p = w_json s p" using st tu by (metis safe_step_def)
  ultimately show ?thesis unfolding safe_step_def by blast
qed

lemma enf_step_safe: "enf_step s s' \<Longrightarrow> safe_step s s'"
  by (simp add: enf_step_def safe_step_def)

interpretation safe: frame_db safe_step
proof
  show "safe_step s t \<Longrightarrow> safe_step t u \<Longrightarrow> safe_step s u" for s t u by (rule safe_step_trans)
  show "safe_step s s'" if "db_effect s s'" for s s'
    by (rule safe_stepI) (use that in \<open>cases s; cases s'; simp add: db_effect_def\<close>)+
qed (simp_all add: safe_stepI)

interpretation safe: frame_load safe_step
  by unfold_locales (auto simp: safe_step_def)

text \<open>The guarantee is given as long as the two lists can be read.\<close>

definition safe_when :: "env \<Rightarrow> world \<Rightarrow> world \<Rightarrow> bool" where
  "safe_when E s s' \<longleftrightarrow> (lists_readable E \<longrightarrow> safe_step s s')"

lemma safe_whenI: "safe_step s s' \<Longrightarrow> safe_when E s s'"
  by (simp add: safe_when_def)

interpretation win: frame_window "safe_when E" E for E
proof unfold_locales
  show "safe_when E s t \<Longrightarrow> safe_when E t u \<Longrightarrow> safe_when E s u" for s t u
    using safe_step_trans by (auto simp: safe_when_def)
  show "safe_when E s s'" if "quiet s s'" for s s'
    using that by (auto intro!: safe_whenI safe_stepI simp: quiet_def)
  show "steps (safe_when E) (block_ip E ip d v r en)" for ip d v r en
    using enf_block [of E ip d v r en] by (auto simp: safe_when_def steps_def intro: enf_step_safe)
  show "steps (safe_when E) (ratelimit_ip E ip d v r cls en)" for ip d v r cls en
    using enf_ratelimit [of E ip d v r cls en] by (auto simp: safe_when_def steps_def intro: enf_step_safe)
qed (auto intro!: safe_whenI safe.tick safe.io safe.db safe.tmp safe.create safe.refl)

lemma safe_window: "steps (safe_when E) (handle_window E data)"
  unfolding handle_window_def process_window_def note_classification_def count_window_def Let_def
  by (intro win.io_rules win.check_hash win.small win.resolve_victim_ip win.get_enforcement_config win.judge_window win.enforce
      win.run_playbooks win.finish_window win.update_metrics win.record_handoff) (simp_all add: safe_whenI safe_stepI)


text \<open>
  C1. Nothing that arrives on the socket can make the system block an address the operator has exempted. Whatever
  connection is served, whatever bytes it carries, however the models judge the windows, and whichever playbook
  stages fire: as long as the two lists can be read, every command executed leaves every address of the
  whitelist out of both kernel sets, leaves every shared address out of the block set, and the lists
  themselves are not changed.
\<close>

theorem served_windows_respect_lists:
  assumes "lists_readable E" and "serve_connection E stage1 peer c s = (r, s')"
  shows "(\<exists>cs. w_cmds s' = w_cmds s @ cs \<and> (\<forall>cmd \<in> set cs. \<forall>ip.
           (adds_to ''ddos_blocklist'' cmd = Some ip \<longrightarrow> \<not> listed s WHITELIST_PATH ip \<and> \<not> listed s SHARED_IPS_PATH ip) \<and>
           (adds_to ''ddos_ratelimit'' cmd = Some ip \<longrightarrow> \<not> listed s WHITELIST_PATH ip))) \<and>
         (\<forall>p. w_json s p \<noteq> JMissing \<longrightarrow> w_json s' p = w_json s p)"
proof -
  have "steps (safe_when E) (serve_connection E stage1 peer c)"
    unfolding serve_connection_def by (intro win.rules win.for_each safe_window)
  from stepsD2 [OF this assms(2)] assms(1) show ?thesis unfolding safe_when_def safe_step_def respects_lists_def by blast
qed

theorem served_windows_respect_lists_witness:
  "let s = (init_world (Fin 0))\<lparr>w_json := (\<lambda>_. JVal (JArr [JStr ''10.0.0.9'']))\<rparr>;
       s' = snd (serve_connection lab_env None (Some 0) \<lparr>c_data = to_bytes lab_vector, c_avail = (\<lambda>_. 99), c_calls = 0\<rparr> s)
   in w_json s' WHITELIST_PATH = JVal (JArr [JStr ''10.0.0.9''])"
proof -
  let ?s = "(init_world (Fin 0))\<lparr>w_json := (\<lambda>_. JVal (JArr [JStr ''10.0.0.9'']))\<rparr>"
  let ?run = "serve_connection lab_env None (Some 0) \<lparr>c_data = to_bytes lab_vector, c_avail = (\<lambda>_. 99), c_calls = 0\<rparr> ?s"
  have "lists_readable lab_env" by (simp add: lists_readable_def lab_env_io)
  from served_windows_respect_lists [OF this, of None "Some 0" "\<lparr>c_data = to_bytes lab_vector, c_avail = (\<lambda>_. 99), c_calls = 0\<rparr>" ?s "fst ?run" "snd ?run"]
  show ?thesis by (simp add: Let_def)
qed

section \<open>Blocks wait for consecutive windows\<close>

definition no_block_step :: "world \<Rightarrow> world \<Rightarrow> bool" where
  "no_block_step s s' \<longleftrightarrow> (\<exists>cs. w_cmds s' = w_cmds s @ cs \<and> (\<forall>c \<in> set cs. adds_to ''ddos_blocklist'' c = None))"

lemma no_block_stepI: "w_cmds s' = w_cmds s \<Longrightarrow> no_block_step s s'"
  by (simp add: no_block_step_def)

interpretation nb: frame_db no_block_step
proof
  show "no_block_step s u" if st: "no_block_step s t" and tu: "no_block_step t u" for s t u
  proof -
    obtain cs ds where "w_cmds t = w_cmds s @ cs" "\<forall>c \<in> set cs. adds_to ''ddos_blocklist'' c = None"
      "w_cmds u = w_cmds t @ ds" "\<forall>c \<in> set ds. adds_to ''ddos_blocklist'' c = None"
      using st tu by (auto simp: no_block_step_def)
    then show ?thesis unfolding no_block_step_def by (intro exI [of _ "cs @ ds"]) auto
  qed
  show "no_block_step s s'" if "db_effect s s'" for s s'
    by (rule no_block_stepI) (use that in \<open>cases s; cases s'; simp add: db_effect_def\<close>)
qed (simp_all add: no_block_stepI)

interpretation nb: frame_load no_block_step
  by unfold_locales (simp_all add: no_block_stepI)

lemma nb_modify: "(\<And>s. w_cmds (f s) = w_cmds s) \<Longrightarrow> steps no_block_step (modify f)"
  by (simp add: steps_def no_block_stepI)

lemma nb_small:
  "steps no_block_step (check_hash j)" "steps no_block_step (dispatch_alert a b c)" "steps no_block_step (record_latency k x)"
  "steps no_block_step (add_step_secs k x)" "steps no_block_step (reach_tier v n)" "steps no_block_step (record_ddos_source ip cls v r d)"
  unfolding check_hash_def dispatch_alert_def record_latency_def add_step_secs_def reach_tier_def record_ddos_source_def Let_def
  by (intro nb.rules nb_modify; simp)+

lemma nb_ratelimit: "steps no_block_step (ratelimit_ip E ip d v r cls en)"
proof -
  have add: "steps no_block_step (ipset_add E ''ddos_ratelimit'' ip d)"
    by (cases ip) (simp_all add: steps_def ipset_add_def str_arg_def bnd_def run_cmd_def no_block_step_def adds_to_def)
  show ?thesis
    unfolding ratelimit_ip_def
    by (intro nb.io_rules nb.check_hash nb.resolve_victim_ip nb.if_listed add nb.get_enforcement_config nb.db_ops nb_small)
      (simp add: note_action_def no_block_stepI)
qed

lemma nb_ratelimit_source: "steps no_block_step (ratelimit_source E w v cfg cls ip r)"
  unfolding ratelimit_source_def timed_enforcement_def by (intro nb.io_rules nb_ratelimit nb_small)

lemma nb_each: "(\<And>ip r. steps no_block_step (act ip r)) \<Longrightarrow> steps no_block_step (each_source act th acted rs)"
  by (induction act th acted rs rule: each_source.induct) (auto intro: nb.rules)

lemma nb_tiers: "steps no_block_step (run_tiers E w v cfg False bt ft rates)"
  unfolding run_tiers_def tier1_def tier2_def tier3_def tier4_def
  by (intro nb.io_rules nb_each nb.for_each nb_ratelimit_source nb_small) simp_all

lemma nb_flows: "steps no_block_step (timed_flow_rates E v)"
  unfolding timed_flow_rates_def load_victim_flow_rates_def read_flows_def by (intro nb.io_rules nb_small)


text \<open>
  C3. Blocking waits. While a victim has had fewer class-2 windows in a row than the configured number, enforcing a
  window of any class executes no command that adds an address to the block set, whatever its figures and
  whatever the flow snapshot says; only rate limits are possible.
\<close>

theorem blocks_wait_for_hysteresis:
  assumes "cfg_num cfg ''block_hysteresis_windows'' = Inr x"
    and "flt (Fin (of_nat (dict_get (consecutive_ddos_windows s) victim 0))) x"
    and "enforce E w victim cfg c name threshold s = (r, s')"
  shows "\<exists>cs. w_cmds s' = w_cmds s @ cs \<and> (\<forall>cmd \<in> set cs. adds_to ''ddos_blocklist'' cmd = None)"
proof -
  have ready: "hysteresis_met victim cfg s = Inr False"
    using assms(1,2) fle_not_flt [of x "Fin (of_nat (dict_get (consecutive_ddos_windows s) victim 0))"] by (auto simp: hysteresis_met_def)
  have "no_block_step s (snd (enforce_ddos E w victim cfg threshold s))"
  proof (cases "source_known w \<and> (\<exists>f. flow_floor w cfg = Inr f)")
    case True
    then obtain f where f: "flow_floor w cfg = Inr f" by blast
    have "enforce_ddos E w victim cfg threshold s =
        bnd (timed_flow_rates E victim) (\<lambda>rates. run_tiers E w victim cfg False threshold f rates) s"
      using True f ready by (simp add: enforce_ddos_def bnd_def [of "lift_res (Inr False)"] lift_res_def)
    moreover have "steps no_block_step (bnd (timed_flow_rates E victim) (\<lambda>rates. run_tiers E w victim cfg False threshold f rates))"
      by (intro nb.rules nb_flows nb_tiers)
    ultimately show ?thesis using stepsD by metis
  next
    case False
    then show ?thesis
      by (cases "flow_floor w cfg") (auto simp: enforce_ddos_def no_block_stepI bnd_def lift_res_def)
  qed
  moreover have "no_block_step s (snd (enforce_flash E w victim cfg name s))"
    by (rule stepsD) (unfold enforce_flash_def Let_def, intro nb.rules nb.db_ops nb_ratelimit_source)
  moreover have "no_block_step s (snd (log_incident E t src nm v rate en s))" for t src nm v rate en
    by (rule stepsD) (rule nb.db_ops)
  moreover have "no_block_step s (snd (ret () s))"
    by (simp add: ret_def no_block_stepI)
  ultimately have "no_block_step s (snd (enforce E w victim cfg c name threshold s))"
    by (simp add: enforce_def split del: if_split split: if_split_asm) (auto split: if_split)
  then show ?thesis using assms(3) by (simp add: no_block_step_def)
qed

theorem blocks_wait_for_hysteresis_witness:
  "let w = seen lab_vector; cfg = DEFAULT_ENFORCEMENT_CONFIG; victim = JStr ''10.0.0.3'';
       s' = snd (enforce lab_env w victim cfg 2 ''DDoS'' (Fin 300) (init_world (Fin 0)))
   in \<exists>cs. w_cmds s' = w_cmds (init_world (Fin 0)) @ cs \<and> (\<forall>cmd \<in> set cs. adds_to ''ddos_blocklist'' cmd = None)"
proof -
  have x: "cfg_num DEFAULT_ENFORCEMENT_CONFIG ''block_hysteresis_windows'' = Inr (Fin 2)"
    by (simp add: cfg_num_def cfg_at_def DEFAULT_ENFORCEMENT_CONFIG_def)
  have c: "flt (Fin (of_nat (dict_get (consecutive_ddos_windows (init_world (Fin 0))) (JStr ''10.0.0.3'') 0))) (Fin 2)"
    by (simp add: init_world_def dict_get_def)
  show ?thesis
    using blocks_wait_for_hysteresis [OF x c surjective_pairing] by (simp add: Let_def)
qed

end
