(* ===== verification/Receiver_Live.thy ===== *)
theory Receiver_Live
  imports Receiver_Safety
begin

text \<open>
  The receive loop over many windows: the counter of consecutive DDoS windows is what its name says under every
  interleaving of victims, and with its files in order a window is handled to its end, without an exception
  that would drop the sensor's connection.
\<close>

section \<open>The count of consecutive windows\<close>

lemma db_effect_tracked: "db_effect s s' \<Longrightarrow> tracked s' = tracked s"
  by (cases s; cases s') (simp add: db_effect_def tracked_def)

interpretation trk: frame_act "keeps tracked"
proof
  show "steps (keeps tracked) (log_incident E ts ip cls v r en)" for E ts ip cls v r en
    by (rule steps_mono [OF db_effect_ops(1)]) (simp add: keeps_def db_effect_tracked)
qed (simp_all add: keeps_def tracked_def)

interpretation trk: frame_window "keeps tracked" E for E
  by unfold_locales (auto simp: keeps_def quiet_def db_effect_tracked intro: trk.block_ip trk.ratelimit_ip)

lemma check_anomaly_name:
  "check_anomaly E w v c secs s = (Inr (name, secs'), s') \<Longrightarrow> name = ''DDoS'' \<longleftrightarrow> c = 2"
  by (auto simp: check_anomaly_def ret_def Let_def class_name_def split: option.splits if_splits elim!: bnd_InrE)

lemma judge_name:
  "judge_window E w v cfg s = (Inr (c, name, x, secs), s') \<Longrightarrow> name = ''DDoS'' \<longleftrightarrow> c = 2"
  unfolding judge_window_def case_prod_unfold
  by (elim bnd_InrE) (auto simp: ret_def dest: check_anomaly_name)

text \<open>What one handled window does to the tracked dictionaries.\<close>

lemma window_tracked:
  assumes "process_window E t w s = (Inr (), s')" and "known_victim (JStr (fv_victim_ip w))"
  obtains name where "tracked s' =
    (AList.update (JStr (fv_victim_ip w))
       (if name = ''DDoS'' then Suc (dict_get (consecutive_ddos_windows s) (JStr (fv_victim_ip w)) 0) else 0)
       (consecutive_ddos_windows s),
     AList.update (JStr (fv_victim_ip w)) name (last_classification_by_target s))"
proof -
  let ?v = "JStr (fv_victim_ip w)"
  obtain s1 s2 s3 s4 s5 s6 s7 s8 cfg c name x secs where
    1: "record_handoff t w s = (Inr (), s1)" and
    2: "get_enforcement_config E s1 = (Inr cfg, s2)" and
    3: "judge_window E w ?v cfg s2 = (Inr (c, name, x, secs), s3)" and
    4: "note_classification w ?v name s3 = (Inr (), s4)" and
    5: "update_metrics E w ?v name s4 = (Inr (), s5)" and
    6: "count_window ?v c s5 = (Inr (), s6)" and
    7: "enforce E w ?v cfg c name x s6 = (Inr (), s7)" and
    8: "run_playbooks E w ?v s7 = (Inr (), s8)" and
    9: "finish_window E t secs s8 = (Inr (), s')"
    using assms(1) unfolding process_window_def resolve_known [OF assms(2)] bnd_ret
    by (elim bnd_InrE) (auto split: prod.splits elim!: bnd_InrE)
  have "tracked s3 = tracked s"
    using keepsD [OF trk.record_handoff 1] keepsD [OF trk.get_enforcement_config 2] keepsD [OF trk.judge_window 3] by simp
  moreover have "tracked s4 = (consecutive_ddos_windows s3, AList.update ?v name (last_classification_by_target s3))"
    using 4 by (auto simp: note_classification_def check_hash_def dispatch_alert_def py_eval tracked_def split: if_splits)
  moreover have "tracked s6 = (AList.update ?v (if name = ''DDoS'' then Suc (dict_get (consecutive_ddos_windows s5) ?v 0) else 0)
      (consecutive_ddos_windows s5), last_classification_by_target s5)"
    using 6 judge_name [OF 3] by (auto simp: count_window_def modify_def tracked_def)
  moreover have "tracked s5 = tracked s4" "tracked s' = tracked s6"
    using keepsD [OF trk.update_metrics 5] keepsD [OF trk.enforce 7] keepsD [OF trk.run_playbooks 8] keepsD [OF trk.finish_window 9]
    by simp_all
  ultimately show thesis
    by (intro that [of name]) (simp add: tracked_def)
qed

text \<open>\<open>handled E v s names s'\<close>: a sequence of windows was handled from \<open>s\<close> to \<open>s'\<close>, and those of the victim \<open>v\<close> were given
  the classes \<open>names\<close>.\<close>

inductive handled :: "env \<Rightarrow> string \<Rightarrow> world \<Rightarrow> string list \<Rightarrow> world \<Rightarrow> bool" for E v where
  start: "handled E v s [] s"
| own: "handled E v s names t \<Longrightarrow> process_window E r w t = (Inr (), u) \<Longrightarrow> fv_victim_ip w = v \<Longrightarrow>
    map_of (last_classification_by_target u) (JStr v) = Some name \<Longrightarrow> handled E v s (names @ [name]) u"
| other: "handled E v s names t \<Longrightarrow> process_window E r w t = (Inr (), u) \<Longrightarrow> fv_victim_ip w \<noteq> v \<Longrightarrow>
    known_victim (JStr (fv_victim_ip w)) \<Longrightarrow> handled E v s names u"

text \<open>
  C4. The hysteresis counter counts what it is meant to count. After any interleaving of windows of any victims, the
  counter of a victim is the number of windows at the end of its own sequence that were judged DDoS: the
  windows of other victims neither raise nor reset it, and a single other verdict resets it.
\<close>

theorem counter_is_trailing_ddos:
  assumes "handled E v s names s'" and "known_victim (JStr v)" and "dict_get (consecutive_ddos_windows s) (JStr v) 0 = 0"
  shows "dict_get (consecutive_ddos_windows s') (JStr v) 0 = length (takeWhile (\<lambda>n. n = ''DDoS'') (rev names))"
  using assms
proof (induction rule: handled.induct)
  case (own s names t r w u name)
  then obtain n where "tracked u =
    (AList.update (JStr v) (if n = ''DDoS'' then Suc (dict_get (consecutive_ddos_windows t) (JStr v) 0) else 0)
       (consecutive_ddos_windows t), AList.update (JStr v) n (last_classification_by_target t))"
    by (auto elim: window_tracked)
  with own show ?case by (auto simp: tracked_def dict_get_def update_conv')
next
  case (other s names t r w u)
  then obtain n x where "tracked u = (AList.update (JStr (fv_victim_ip w)) x (consecutive_ddos_windows t),
      AList.update (JStr (fv_victim_ip w)) n (last_classification_by_target t))"
    by (auto elim: window_tracked)
  with other show ?case by (auto simp: tracked_def dict_get_def update_conv')
qed simp

section \<open>A window is handled to its end\<close>

text \<open>\<open>runs I m P\<close>: from a state with the invariant \<open>I\<close>, the code returns a value with \<open>P\<close> and keeps the invariant.\<close>

definition runs :: "('s \<Rightarrow> bool) \<Rightarrow> ('s, 'a) py \<Rightarrow> ('a \<Rightarrow> bool) \<Rightarrow> bool" where
  "runs I m P \<longleftrightarrow> (\<forall>s. I s \<longrightarrow> (\<exists>x s'. m s = (Inr x, s') \<and> P x \<and> I s'))"

lemma runs_ret: "P x \<Longrightarrow> runs I (ret x) P"
  by (simp add: runs_def ret_def)

lemma runs_lift: "r = Inr x \<Longrightarrow> P x \<Longrightarrow> runs I (lift_res r) P"
  by (simp add: runs_def lift_res_def)

lemma runs_gets: "(\<And>s. I s \<Longrightarrow> P (f s)) \<Longrightarrow> runs I (gets f) P"
  by (simp add: runs_def gets_def)

lemma runs_bnd: "runs I m Q \<Longrightarrow> (\<And>x. Q x \<Longrightarrow> runs I (f x) P) \<Longrightarrow> runs I (bnd m f) P"
  unfolding runs_def bnd_def by (metis (no_types, lifting) case_prod_conv sum.case(2))

lemma runs_if: "(b \<Longrightarrow> runs I m P) \<Longrightarrow> (\<not> b \<Longrightarrow> runs I m' P) \<Longrightarrow> runs I (if b then m else m') P"
  by simp

lemma runs_weaken: "runs I m Q \<Longrightarrow> (\<And>x. Q x \<Longrightarrow> P x) \<Longrightarrow> runs I m P"
  unfolding runs_def by blast

lemma runs_finally: "runs I m P \<Longrightarrow> (\<And>s. I s \<Longrightarrow> I (f s)) \<Longrightarrow> runs I (finally_do m f) P"
  unfolding runs_def finally_do_def by fastforce

lemma runs_for_each: "(\<And>x. x \<in> set xs \<Longrightarrow> runs I (f x) (\<lambda>_. True)) \<Longrightarrow> runs I (for_each f xs) (\<lambda>_. True)"
  by (induction xs) (auto intro!: runs_ret runs_bnd [where Q = "\<lambda>_. True"])

lemma runs_case_pr: "(\<And>x y. p = (x, y) \<Longrightarrow> runs I (f x y) P) \<Longrightarrow> runs I (case p of (x, y) \<Rightarrow> f x y) P"
  by (cases p) simp

lemma runs_case_opt: "(z = None \<Longrightarrow> runs I m P) \<Longrightarrow> (\<And>x. z = Some x \<Longrightarrow> runs I (f x) P) \<Longrightarrow>
    runs I (case z of None \<Rightarrow> m | Some x \<Rightarrow> f x) P"
  by (cases z) auto

lemma runs_try:
  assumes "steps (\<lambda>s s'. I s \<longrightarrow> I s') m" and "P x" and "\<And>s y s'. m s = (Inr y, s') \<Longrightarrow> P y"
  shows "runs I (try_except m (\<lambda>_. ret x)) P"
  unfolding runs_def
proof (intro allI impI)
  fix s
  assume "I s"
  moreover obtain r s' where m: "m s = (r, s')" by fastforce
  ultimately have "I s'" using stepsD2 [OF assms(1) m] by blast
  then show "\<exists>y s'. try_except m (\<lambda>_. ret x) s = (Inr y, s') \<and> P y \<and> I s'"
    using m assms(2,3) by (cases r) (auto simp: try_except_def ret_def)
qed

text \<open>What the receiver relies on from one window to the next: the latency figures are in order, the flow snapshot
  and the saved settings are there.\<close>

definition sound :: "json \<Rightarrow> dict \<Rightarrow> world \<Rightarrow> bool" where
  "sound flows saved s \<longleftrightarrow> latency_ok (w_latency s) \<and> w_json s FLOWS_PATH = JVal flows \<and>
     w_json s ENFORCEMENT_CONFIG_PATH = JVal (JObj saved)"

definition sound_step :: "world \<Rightarrow> world \<Rightarrow> bool" where
  "sound_step s s' \<longleftrightarrow> (latency_ok (w_latency s) \<longrightarrow> latency_ok (w_latency s')) \<and>
     (\<forall>p. w_json s p \<noteq> JMissing \<longrightarrow> w_json s' p = w_json s p)"

lemma sound_stepI: "w_latency s' = w_latency s \<Longrightarrow> w_json s' = w_json s \<Longrightarrow> sound_step s s'"
  by (simp add: sound_step_def)

lemma sound_kept: "sound_step s s' \<Longrightarrow> sound flows saved s \<Longrightarrow> sound flows saved s'"
  by (simp add: sound_step_def sound_def)

lemma db_effect_sound: "db_effect s s' \<Longrightarrow> sound_step s s'"
  by (rule sound_stepI; cases s; cases s'; simp add: db_effect_def)

interpretation live: frame_act sound_step
proof
  show "sound_step s t \<Longrightarrow> sound_step t u \<Longrightarrow> sound_step s u" for s t u by (simp add: sound_step_def)
  show "steps sound_step (log_incident E ts ip cls v r en)" for E ts ip cls v r en
    by (rule steps_mono [OF db_effect_ops(1) db_effect_sound])
qed (auto simp: sound_step_def)

interpretation live: frame_window sound_step E for E
  by unfold_locales (simp_all add: live.block_ip live.ratelimit_ip db_effect_sound, simp add: sound_step_def quiet_def)

lemma sound_steps: "steps sound_step m \<Longrightarrow> steps (\<lambda>s s'. sound flows saved s \<longrightarrow> sound flows saved s') m"
  by (erule steps_mono) (blast intro: sound_kept)

lemma runs_step:
  assumes "steps sound_step m" and "\<And>s. sound flows saved s \<Longrightarrow> \<exists>x. fst (m s) = Inr x \<and> P x"
  shows "runs (sound flows saved) m P"
  unfolding runs_def
proof (intro allI impI)
  fix s
  assume s: "sound flows saved s"
  then obtain x where "m s = (Inr x, snd (m s))" "P x" using assms(2) by (metis prod.collapse)
  then show "\<exists>x s'. m s = (Inr x, s') \<and> P x \<and> sound flows saved s'"
    using sound_kept [OF stepsD [OF assms(1)] s] by blast
qed

abbreviation done_in :: "json \<Rightarrow> dict \<Rightarrow> 'a op \<Rightarrow> bool" where
  "done_in flows saved m \<equiv> runs (sound flows saved) m (\<lambda>_. True)"

lemma runs_then: "done_in flows saved m \<Longrightarrow> (\<And>x. runs (sound flows saved) (f x) P) \<Longrightarrow> runs (sound flows saved) (bnd m f) P"
  by (rule runs_bnd)

lemma done_clock: "done_in flows saved (time_time E)" "done_in flows saved (monotonic E)" "done_in flows saved (gets g)"
  by (rule runs_step; (rule live.time_time live.monotonic live.gets | simp add: time_time_def monotonic_def gets_def))+

lemma done_marks:
  "done_in flows saved (dispatch_alert a b c)" "done_in flows saved (add_step_secs k x)" "done_in flows saved (reach_tier v n)"
  by (rule runs_step; (rule live.small | simp add: dispatch_alert_def add_step_secs_def reach_tier_def modify_def))+

lemma done_latency: "k \<in> set KINDS \<Longrightarrow> done_in flows saved (record_latency k x)"
proof (rule runs_step [OF live.record_latency])
  fix s
  assume "k \<in> set KINDS" "sound flows saved s"
  then obtain l where "latency_record k x (w_latency s) = Inr l" using latency_record_total [of "w_latency s" k x] by (auto simp: sound_def)
  then show "\<exists>u. fst (record_latency k x s) = Inr u \<and> True" by (simp add: record_latency_def py_eval)
qed

lemma done_guarded:
  "steps sound_step m \<Longrightarrow> (\<And>s. sound_step s (f s)) \<Longrightarrow> done_in flows saved (finally_do (try_except m (\<lambda>_. ret ())) f)"
  by (intro runs_finally runs_try sound_steps) (auto intro: sound_kept)

text \<open>With a known victim and a hashable address, a block and a rate limit always return: what goes wrong inside is caught.\<close>

lemma done_actions:
  assumes "known_victim v" and "hashable ip"
  shows "done_in flows saved (ratelimit_ip E ip d v r cls en)" and "done_in flows saved (block_ip E ip d v r en)"
proof -
  have hash: "check_hash ip = ret ()" using assms(2) by (simp add: check_hash_def)
  have noted: "sound_step s (note_action ip now s)" for now s by (rule live.note_action)
  show "done_in flows saved (ratelimit_ip E ip d v r cls en)"
    unfolding ratelimit_ip_def hash bnd_ret resolve_known [OF assms(1)]
    by (intro runs_then done_clock runs_if runs_ret done_guarded noted live.enf_rules live.incident live.record_ddos_source) simp
  show "done_in flows saved (block_ip E ip d v r en)"
    unfolding block_ip_def hash bnd_ret resolve_known [OF assms(1)]
    by (intro runs_then done_clock runs_if runs_ret done_guarded noted live.enf_rules live.incident live.record_ddos_source
        live.ratelimit_ip) simp
qed

text \<open>The settings the receiver compares with are numbers, and the snapshot is the object Stage 1 writes.\<close>

definition numeric_config :: "dict \<Rightarrow> bool" where
  "numeric_config cfg \<longleftrightarrow>
     (\<forall>k \<in> fst ` set DEFAULT_ENFORCEMENT_CONFIG. \<exists>x y z. cfg_at cfg k = Inr z \<and> cfg_num cfg k = Inr x \<and> cfg_float cfg k = Inr y)"

definition readable_flows :: "json \<Rightarrow> json \<Rightarrow> bool" where
  "readable_flows flows victim \<longleftrightarrow>
     (\<forall>now. \<exists>age. snapshot_age now flows = Inr age) \<and> (\<exists>rates. flow_rates flows victim = Inr rates)"

lemma default_keys:
  "fst ` set DEFAULT_ENFORCEMENT_CONFIG =
     {''dominant_ip_ratio_block_threshold'', ''dominant_ip_ratio_extreme_threshold'', ''block_rate_floor_pps'',
      ''ratelimit_rate_floor_pps'', ''block_sigma_multiplier'', ''block_hysteresis_windows'', ''block_duration_seconds'',
      ''ratelimit_duration_seconds'', ''ratelimit_hashlimit_pps''}"
  unfolding DEFAULT_ENFORCEMENT_CONFIG_def by simp

lemma numeric_configD:
  assumes "numeric_config cfg" and "k \<in> fst ` set DEFAULT_ENFORCEMENT_CONFIG"
  obtains x y z where "cfg_at cfg k = Inr z" "cfg_num cfg k = Inr x" "cfg_float cfg k = Inr y"
  using assms unfolding numeric_config_def by blast

lemma done_setting:
  assumes "numeric_config cfg" and "k \<in> fst ` set DEFAULT_ENFORCEMENT_CONFIG"
  shows "done_in flows saved (lift_res (cfg_at cfg k))" "done_in flows saved (lift_res (cfg_num cfg k))"
  using numeric_configD [OF assms] by (metis runs_lift)+

lemmas done_rules = runs_then runs_if runs_ret TrueI done_clock done_marks

lemma done_alert:
  assumes "hashable ip" and "numeric_config cfg"
  shows "done_in flows saved (maybe_alert_block E ip v r cfg)"
proof -
  have "done_in flows saved (modify (\<lambda>s. s\<lparr>last_block_alert := g s\<rparr>))" for g
    by (rule runs_step) (auto simp: steps_def sound_step_def)
  moreover have "done_in flows saved (lift_res (cfg_num cfg ''block_duration_seconds''))"
    by (rule done_setting [OF assms(2)]) (simp add: default_keys)
  moreover have "check_hash ip = ret ()" using assms(1) by (simp add: check_hash_def)
  ultimately show ?thesis unfolding maybe_alert_block_def by (simp only: bnd_ret) (intro done_rules)
qed

lemma done_sources:
  assumes "known_victim v" and "hashable ip" and "numeric_config cfg"
  shows "done_in flows saved (block_source E w v cfg ip r)" "done_in flows saved (ratelimit_source E w v cfg cls ip r)"
  unfolding block_source_def ratelimit_source_def timed_enforcement_def
  by (intro done_rules done_actions done_latency done_setting done_alert assms; simp add: KINDS_def default_keys)+

lemma done_each_source:
  "(\<And>ip r. (ip, r) \<in> set rs \<Longrightarrow> done_in flows saved (act ip r)) \<Longrightarrow> done_in flows saved (each_source act th acted rs)"
  by (induction act th acted rs rule: each_source.induct) (auto intro!: done_rules)

lemma done_tiers:
  assumes "known_victim v" and "numeric_config cfg" and "\<forall>(ip, r) \<in> set rates. hashable ip"
  shows "done_in flows saved (run_tiers E w v cfg ready bt ft rates)"
proof -
  have dom: "done_in flows saved (lift_res (dominant_elevated w cfg))"
    by (rule numeric_configD [OF assms(2), of "''dominant_ip_ratio_block_threshold''"])
      (simp_all add: default_keys dominant_elevated_def runs_lift)
  have ip: "hashable (JStr x)" for x by simp
  have each: "done_in flows saved (block_source E w v cfg ip x)" "done_in flows saved (ratelimit_source E w v cfg cls ip x)"
    if "(ip, r) \<in> set rates" for ip r x cls
    using done_sources [OF assms(1) _ assms(2)] assms(3) that by blast+
  have all: "done_in flows saved (case p of (ip, rate) \<Rightarrow> ratelimit_source E w v cfg CLASS_RATELIMITED ip rate)" if "p \<in> set rates" for p
    by (rule runs_case_pr) (use that each(2) in simp)
  have "done_in flows saved (tier1 E w v cfg ready)"
    unfolding tier1_def by (intro done_rules dom done_sources assms(1,2) ip)
  moreover have "done_in flows saved (tier2 E w v cfg ready bt rates acted)" "done_in flows saved (tier3 E w v cfg ft rates acted)" for acted
    unfolding tier2_def tier3_def by (intro done_rules done_each_source each; assumption)+
  moreover have "done_in flows saved (tier4 E w v cfg rates acted)" for acted
    unfolding tier4_def by (intro done_rules runs_for_each all)
  ultimately show ?thesis unfolding run_tiers_def by (intro done_rules)
qed

lemma sum_flows_hashable:
  "sum_flows v fs acc = Inr rates \<Longrightarrow> \<forall>ip \<in> fst ` set acc. hashable ip \<Longrightarrow> \<forall>ip \<in> fst ` set rates. hashable ip"
proof (induction fs arbitrary: acc)
  case (Cons flow fs)
  then obtain d where d: "flow = JObj d" by (cases flow) simp_all
  show ?case
  proof (cases "py_eq (dict_get d ''dst'' JNull) v \<and> py_truthy (dict_get d ''ip'' JNull) \<and> dict_get d ''ip'' JNull \<notin> unknown_addrs")
    case True
    then obtain r where "hashable (dict_get d ''ip'' JNull)"
      "sum_flows v fs (AList.update (dict_get d ''ip'' JNull) (fadd (dict_get acc (dict_get d ''ip'' JNull) (Fin 0)) r) acc) = Inr rates"
      using Cons.prems(1) unfolding d by (auto simp: Let_def split: if_splits sum.splits)
    then show ?thesis using Cons.prems(2) by (intro Cons.IH) (assumption, unfold dom_update, auto)
  next
    case False
    then have "sum_flows v fs acc = Inr rates" using Cons.prems(1) unfolding d by (auto simp: Let_def split: if_splits)
    then show ?thesis by (rule Cons.IH) (rule Cons.prems(2))
  qed
qed simp

lemma done_flows:
  assumes "readable_flows flows v"
  shows "runs (sound flows saved) (timed_flow_rates E v) (\<lambda>rates. \<forall>(ip, r) \<in> set rates. hashable ip)"
proof -
  have age: "done_in flows saved (lift_res (snapshot_age now flows))" for now
    using assms runs_lift unfolding readable_flows_def by (metis (mono_tags))
  obtain rs where rs: "flow_rates flows v = Inr rs" using assms by (auto simp: readable_flows_def)
  then have "\<forall>ip \<in> fst ` set rs. hashable ip"
    unfolding flow_rates_def by (auto split: sum.splits dest!: sum_flows_hashable)
  then have "\<forall>(ip, r) \<in> set rs. hashable ip" by force
  then have rates: "runs (sound flows saved) (lift_res (flow_rates flows v)) (\<lambda>rates. \<forall>(ip, r) \<in> set rates. hashable ip)"
    by (rule runs_lift [OF rs])
  have "runs (sound flows saved) (read_flows E) (\<lambda>f. f = None \<or> f = Some flows)"
    by (rule runs_step) (unfold read_flows_def, intro live.io_rules, auto simp: sound_def py_eval io_ok_def)
  then have load: "runs (sound flows saved) (load_victim_flow_rates E v) (\<lambda>rates. \<forall>(ip, r) \<in> set rates. hashable ip)"
    unfolding load_victim_flow_rates_def
    by (rule runs_bnd) (auto intro!: runs_then done_clock age runs_case_opt runs_if runs_ret rates)
  show ?thesis
    unfolding timed_flow_rates_def
    by (rule runs_then [OF done_clock(1)], rule runs_bnd [OF load]) (intro runs_then done_clock done_marks runs_ret)
qed

lemma db_write_Inr: "fst (db_write E () m s) = Inr ()"
  by (simp add: db_write_def try_except_def ret_def split: prod.split sum.split)

lemma done_incident: "done_in flows saved (log_incident E ts ip cls v r en)"
  by (rule runs_step [OF live.incident]) (simp add: log_incident_def db_write_Inr)

lemma done_enforce:
  assumes "known_victim v" and "numeric_config cfg" and "readable_flows flows v"
  shows "done_in flows saved (enforce E w v cfg c name x)"
proof -
  have floor: "done_in flows saved (lift_res (flow_floor w cfg))"
    by (rule numeric_configD [OF assms(2), of "''ratelimit_rate_floor_pps''"]) (simp_all add: default_keys flow_floor_def runs_lift)
  have ready: "\<exists>b. hysteresis_met v cfg s = Inr b" for s
    by (rule numeric_configD [OF assms(2), of "''block_hysteresis_windows''"]) (simp_all add: default_keys hysteresis_met_def)
  have hyst: "done_in flows saved (bnd (gets (hysteresis_met v cfg)) (\<lambda>ready. bnd (lift_res ready) f))"
    if "\<And>b. done_in flows saved (f b)" for f :: "bool \<Rightarrow> unit op"
    by (rule runs_bnd [where Q = "\<lambda>r. \<exists>b. r = Inr b"]) (auto intro!: runs_gets ready runs_lift runs_then that)
  have dom: "done_in flows saved (lift_res (dominant_elevated w cfg))"
    by (rule numeric_configD [OF assms(2), of "''dominant_ip_ratio_block_threshold''"])
      (simp_all add: default_keys dominant_elevated_def runs_lift)
  have tiers: "done_in flows saved (bnd (timed_flow_rates E v) (\<lambda>rates. run_tiers E w v cfg b bt ft rates))" for b bt ft
    by (rule runs_bnd [OF done_flows [OF assms(3)]]) (rule done_tiers [OF assms(1,2)])
  have "done_in flows saved (enforce_ddos E w v cfg x)"
    unfolding enforce_ddos_def by (intro done_rules floor hyst tiers)
  moreover have "done_in flows saved (enforce_flash E w v cfg name)"
    unfolding enforce_flash_def Let_def
    by (intro done_rules done_incident dom done_setting done_sources assms) (simp_all add: default_keys)
  ultimately show ?thesis unfolding enforce_def by (intro done_rules done_incident)
qed

text \<open>The models answer, and the capture files can be opened.\<close>

definition models_answer :: "env \<Rightarrow> bool" where
  "models_answer E \<longleftrightarrow>
     (\<forall>p. e_clf E = Some p \<longrightarrow> (\<forall>x. \<exists>c. p x = Inr c)) \<and>
     (\<forall>m. e_if_clf E = Some m \<longrightarrow> (\<forall>x. (\<exists>c. if_predict m x = Inr c) \<and> (\<exists>c. if_score m x = Inr c)))"

lemma done_append: "\<forall>n p. e_io E n (IO_Csv p) \<Longrightarrow> done_in flows saved (append_csv_row E p header row)"
  by (rule runs_step [OF live.append_csv_row])
    (simp add: append_csv_row_def queue_row_def io_check_def io_ok_def try_lock_def note_locked_def note_capped_def file_size_def
      write_pending_def py_eval)

lemma done_judge:
  assumes "models_answer E" and "\<forall>n p. e_io E n (IO_Csv p)" and "numeric_config cfg"
  shows "done_in flows saved (judge_window E w v cfg)"
proof -
  have "done_in flows saved (classify E w)"
    unfolding classify_def using assms(1)
    by (auto simp: models_answer_def intro!: done_rules runs_case_opt) (metis runs_lift)
  moreover have "\<exists>y. apply_safety_overrides c w cfg = Inr y" for c
    by (rule numeric_configD [OF assms(3), of "''block_sigma_multiplier''"],
        simp add: default_keys, rule numeric_configD [OF assms(3), of "''block_rate_floor_pps''"],
        simp add: default_keys, rule numeric_configD [OF assms(3), of "''dominant_ip_ratio_extreme_threshold''"])
      (simp_all add: default_keys apply_safety_overrides_def extreme_boundary_def Let_def)
  then have "done_in flows saved (lift_res (apply_safety_overrides c w cfg))" for c
    using runs_lift by (metis (mono_tags))
  moreover have "done_in flows saved (check_anomaly E w v c secs)" for c secs
    unfolding check_anomaly_def Let_def write_anomalous_row_def using assms(1)
    by (auto simp: models_answer_def intro!: done_rules runs_case_opt done_append assms(2)) (metis runs_lift)+
  ultimately show ?thesis
    unfolding judge_window_def write_pretraining_row_def write_ddos_capture_row_def Let_def case_prod_unfold
    by (intro done_rules done_append assms(2) done_latency) (simp_all add: KINDS_def)
qed

lemma default_numeric: "numeric_config DEFAULT_ENFORCEMENT_CONFIG"
proof -
  have i: "\<exists>y. to_float (JInt i) = Inr y" if "i \<in> {2, 50, 3600}" for i
    using that by (auto simp: fl_round_of_int)
  show ?thesis
    unfolding numeric_config_def default_keys
    using i [of 2] i [of 50] i [of 3600]
    by (auto simp: cfg_num_def cfg_float_def cfg_at_def need_num_def DEFAULT_ENFORCEMENT_CONFIG_def)
qed

lemma default_merge: "dict_merge DEFAULT_ENFORCEMENT_CONFIG DEFAULT_ENFORCEMENT_CONFIG = DEFAULT_ENFORCEMENT_CONFIG"
  unfolding DEFAULT_ENFORCEMENT_CONFIG_def dict_merge_def by simp

lemma done_config:
  assumes "numeric_config (dict_merge DEFAULT_ENFORCEMENT_CONFIG saved)"
  shows "runs (sound flows saved) (get_enforcement_config E) numeric_config"
  by (rule runs_step [OF live.get_enforcement_config])
    (use assms default_numeric in \<open>auto simp: get_enforcement_config_def load_json_file_def py_eval io_ok_def sound_def
      merge_saved_def default_merge\<close>)

lemma done_playbooks: "done_in flows saved (run_playbooks E w v)"
  using live.run_playbooks [of E w v]
  by (rule runs_step) (simp add: run_playbooks_def try_except_def ret_def split: prod.split sum.split)

lemma done_note: "done_in flows saved (note_classification w (JStr v) name)"
proof -
  have "done_in flows saved (modify (\<lambda>s. s\<lparr>last_classification_by_target := g s\<rparr>))" for g
    by (rule runs_step) (auto simp: steps_def sound_step_def)
  then show ?thesis unfolding note_classification_def check_hash_def by (simp only: hashable.simps if_True bnd_ret) (intro done_rules)
qed

lemma done_metrics:
  assumes "py_int (fv_cooldown_counter w) = Inr i"
  shows "done_in flows saved (update_metrics E w v name)"
proof -
  have "done_in flows saved (modify (\<lambda>s. s\<lparr>last_metrics := m, last_metrics_by_target := g s\<rparr>))" for m g
    by (rule runs_step) (auto simp: steps_def sound_step_def)
  moreover have "done_in flows saved (log_metrics_history E ts vs v)" for ts vs
    by (rule runs_step [OF live.db_ops(3)]) (simp add: log_metrics_history_def db_write_Inr)
  moreover have "done_in flows saved (lift_res (py_int (fv_cooldown_counter w)))" by (simp add: assms runs_lift)
  ultimately show ?thesis unfolding update_metrics_def Let_def by (intro done_rules)
qed

lemma done_count: "done_in flows saved (count_window v c)"
  by (rule runs_step) (auto simp: count_window_def steps_def sound_step_def)

lemma done_finish: "done_in flows saved (finish_window E t secs)"
proof -
  have "done_in flows saved (modify (\<lambda>s. let secs = h s in s\<lparr>w_log := g secs s\<rparr>))" for h :: "world \<Rightarrow> 'a" and g
    by (rule runs_step) (auto simp: steps_def sound_step_def Let_def)
  moreover have "done_in flows saved (log_latency_if_due E)"
  proof (rule runs_step)
    show "steps sound_step (log_latency_if_due E)"
      unfolding log_latency_if_due_def Let_def
      by (intro live.io_rules) (auto simp: sound_step_def summary_line_def latency_ok_init)
    show "\<exists>x. fst (log_latency_if_due E s) = Inr x \<and> True" for s
      by (simp add: log_latency_if_due_def Let_def py_eval time_time_def)
  qed
  ultimately show ?thesis
    unfolding finish_window_def Let_def
    by (intro done_rules done_latency) (simp_all add: KINDS_def)
qed

lemma done_handoff: "done_in flows saved (record_handoff t w)"
  unfolding record_handoff_def Let_def by (intro done_rules done_latency) (simp add: KINDS_def)

lemma done_window:
  assumes "numeric_config (dict_merge DEFAULT_ENFORCEMENT_CONFIG saved)" and "readable_flows flows (JStr (fv_victim_ip w))"
    and "known_victim (JStr (fv_victim_ip w))" and "models_answer E" and "\<forall>n p. e_io E n (IO_Csv p)"
    and "py_int (fv_cooldown_counter w) = Inr i"
  shows "done_in flows saved (process_window E t w)"
  unfolding process_window_def resolve_known [OF assms(3)] bnd_ret
proof (rule runs_then [OF done_handoff], rule runs_bnd [OF done_config [OF assms(1)]])
  fix cfg
  assume cfg: "numeric_config cfg"
  show "done_in flows saved (bnd (judge_window E w (JStr (fv_victim_ip w)) cfg) (\<lambda>(pred_class, pred_name, extreme, secs).
     bnd (note_classification w (JStr (fv_victim_ip w)) pred_name) (\<lambda>_.
     bnd (update_metrics E w (JStr (fv_victim_ip w)) pred_name) (\<lambda>_.
     bnd (count_window (JStr (fv_victim_ip w)) pred_class) (\<lambda>_.
     bnd (enforce E w (JStr (fv_victim_ip w)) cfg pred_class pred_name extreme) (\<lambda>_.
     bnd (run_playbooks E w (JStr (fv_victim_ip w))) (\<lambda>_. finish_window E t secs)))))))"
    by (intro runs_then runs_case_pr done_judge [OF assms(4,5) cfg] done_note done_metrics [OF assms(6)] done_count
        done_enforce [OF assms(3) cfg assms(2)] done_playbooks done_finish)
qed


definition lab_window :: window where
  "lab_window = (seen lab_vector)\<lparr>fv_victim_ip := ''10.0.0.3'', fv_cooldown_counter := Fin 0, fv_ewma_rate := PInf, fv_entropy := NaN\<rparr>"

definition lab_snapshot :: json where
  "lab_snapshot = JObj [(''timestamp'', JFloat (Fin 999)), (''active_ips'', JArr [JObj [(''ip'', JStr ''10.0.0.9''), (''dst'', JStr ''10.0.0.3'')]])]"

definition lab_files :: world where
  "lab_files = (init_world (Fin 0))\<lparr>w_json := (\<lambda>p. if p = FLOWS_PATH then JVal lab_snapshot else JVal (JObj []))\<rparr>"

lemma lab_facts:
  "sound lab_snapshot [] lab_files" "numeric_config (dict_merge DEFAULT_ENFORCEMENT_CONFIG [])"
  "readable_flows lab_snapshot (JStr (fv_victim_ip lab_window))" "known_victim (JStr (fv_victim_ip lab_window))"
  "models_answer lab_env" "\<forall>n p. e_io lab_env n (IO_Csv p)" "py_int (fv_cooldown_counter lab_window) = Inr 0"
proof -
  show "sound lab_snapshot [] lab_files" by (simp add: sound_def lab_files_def init_world_def latency_ok_init)
  show "numeric_config (dict_merge DEFAULT_ENFORCEMENT_CONFIG [])" by (simp add: dict_merge_def default_numeric)
  show "readable_flows lab_snapshot (JStr (fv_victim_ip lab_window))"
    by (simp add: readable_flows_def lab_snapshot_def lab_window_def snapshot_age_def flow_rates_def dict_get_def
        unknown_addrs_def Let_def)
  show "known_victim (JStr (fv_victim_ip lab_window))" by (simp add: known_victim_def lab_window_def unknown_addrs_def)
  show "models_answer lab_env" by (simp add: models_answer_def lab_env_def)
  show "\<forall>n p. e_io lab_env n (IO_Csv p)" by (simp add: lab_env_io)
  show "py_int (fv_cooldown_counter lab_window) = Inr 0" by (simp add: lab_window_def)
qed


lemma lab_victim: "fv_victim_ip lab_window = ''10.0.0.3''"
  by (simp add: lab_window_def)

lemma lab_handled: "\<exists>name s'. handled lab_env ''10.0.0.3'' lab_files [name] s'"
proof -
  have "\<exists>s'. process_window lab_env (Fin 5) lab_window lab_files = (Inr (), s')"
    using done_window [OF lab_facts(2-7), of "Fin 5"] lab_facts(1) unfolding runs_def by auto
  then obtain s' where run: "process_window lab_env (Fin 5) lab_window lab_files = (Inr (), s')" by blast
  obtain name where "map_of (last_classification_by_target s') (JStr ''10.0.0.3'') = Some name"
    by (rule window_tracked [OF run lab_facts(4)]) (simp add: tracked_def lab_victim)
  then have "handled lab_env ''10.0.0.3'' lab_files ([] @ [name]) s'" by (rule handled.own [OF handled.start run lab_victim])
  then show ?thesis by auto
qed

theorem counter_is_trailing_ddos_witness:
  "\<exists>name s'. handled lab_env ''10.0.0.3'' lab_files [name] s' \<and>
     dict_get (consecutive_ddos_windows s') (JStr ''10.0.0.3'') 0 = (if name = ''DDoS'' then 1 else 0)"
proof -
  obtain name s' where h: "handled lab_env ''10.0.0.3'' lab_files [name] s'" using lab_handled by blast
  have "known_victim (JStr ''10.0.0.3'')" by (simp add: known_victim_def unknown_addrs_def)
  moreover have "dict_get (consecutive_ddos_windows lab_files) (JStr ''10.0.0.3'') 0 = 0"
    by (simp add: lab_files_def init_world_def dict_get_def)
  ultimately show ?thesis using counter_is_trailing_ddos [OF h] h by (intro exI conjI) auto
qed

end
