(* ===== verification/Receiver_Verdicts.thy ===== *)
theory Receiver_Verdicts
  imports Receiver_Live
begin

text \<open>
  Verdicts and what follows from them: the safety overrides are monotone in the rate, a DDoS verdict with a flow
  snapshot is acted on, and the alert about a block is sent also when nothing was blocked.
\<close>

section \<open>Verdicts and actions\<close>

lemma fmul_mono: "fle (Fin a) (Fin b) \<Longrightarrow> 0 \<le> q \<Longrightarrow> fle (fmul (Fin a) (Fin q)) (fmul (Fin b) (Fin q))"
  by (simp add: fl_round_mono mult_right_mono)

text \<open>
  C6. A stronger flood never gets a milder verdict. With everything else in a window the same and a higher rate, the
  class after the safety overrides is at least as high, whatever the classifier said (0 to 2, in the order of
  severity); and the overrides never lower the class the classifier gave.
\<close>

theorem overrides_monotone:
  assumes "fv_ewma_rate w = Fin r" and "r \<le> r'" and "fv_dominant_ip_ratio w = Fin q" and "0 \<le> q" and "c \<in> {0, 1, 2}"
    and "apply_safety_overrides c w cfg = Inr (k, x)"
    and "apply_safety_overrides c (w\<lparr>fv_ewma_rate := Fin r'\<rparr>) cfg = Inr (k', x')"
  shows "c \<le> k \<and> k \<le> k' \<and> x' = x"
proof -
  let ?w = "w\<lparr>fv_ewma_rate := Fin r'\<rparr>"
  have ext: "extreme_boundary ?w cfg = extreme_boundary w cfg" by (simp add: extreme_boundary_def split: sum.split)
  have kb: "k_boundary ?w = k_boundary w" by (simp add: k_boundary_def)
  have dom: "fle (dominant_rate w) (dominant_rate ?w)"
    using fmul_mono [of r r' q] assms(1-4) by (simp add: dominant_rate_def)
  have up: "flt b (fv_ewma_rate w) \<Longrightarrow> flt b (Fin r')" for b
    using assms(1,2) by (auto intro: flt_fle_trans)
  have up': "flt b (dominant_rate w) \<Longrightarrow> flt b (dominant_rate ?w)" for b
    by (rule flt_fle_trans [OF _ dom])
  show ?thesis
    using assms(5-7) up [of "k_boundary w"] up'
    unfolding apply_safety_overrides_def ext kb
    by (auto simp: Let_def split: sum.splits if_splits)
qed

theorem overrides_monotone_witness:
  "let w = lab_window\<lparr>fv_ewma_rate := Fin 10, fv_dominant_ip_ratio := Fin 1, fv_mean_r := Fin 0, fv_sigma_r := Fin 0\<rparr>
   in \<exists>k k' x x'. apply_safety_overrides 0 w DEFAULT_ENFORCEMENT_CONFIG = Inr (k, x) \<and>
        apply_safety_overrides 0 (w\<lparr>fv_ewma_rate := Fin 2000\<rparr>) DEFAULT_ENFORCEMENT_CONFIG = Inr (k', x') \<and> k \<le> k'"
proof -
  let ?w = "lab_window\<lparr>fv_ewma_rate := Fin 10, fv_dominant_ip_ratio := Fin 1, fv_mean_r := Fin 0, fv_sigma_r := Fin 0\<rparr>"
  have ex: "\<exists>k x. apply_safety_overrides 0 v DEFAULT_ENFORCEMENT_CONFIG = Inr (k, x)" for v
    by (rule numeric_configD [OF default_numeric, of "''block_sigma_multiplier''"],
        simp add: default_keys, rule numeric_configD [OF default_numeric, of "''block_rate_floor_pps''"],
        simp add: default_keys, rule numeric_configD [OF default_numeric, of "''dominant_ip_ratio_extreme_threshold''"])
      (simp_all add: default_keys apply_safety_overrides_def extreme_boundary_def Let_def)
  obtain k x k' x' where "apply_safety_overrides 0 ?w DEFAULT_ENFORCEMENT_CONFIG = Inr (k, x)"
    "apply_safety_overrides 0 (?w\<lparr>fv_ewma_rate := Fin 2000\<rparr>) DEFAULT_ENFORCEMENT_CONFIG = Inr (k', x')"
    using ex by meson
  then show ?thesis using overrides_monotone [of ?w 10 2000 1 0] by (simp add: Let_def)
qed

section \<open>A DDoS verdict is acted on\<close>

definition noted :: "world \<Rightarrow> json set" where
  "noted s = dom (map_of (recently_blocked s))"

definition tier_of :: "json \<Rightarrow> world \<Rightarrow> nat" where
  "tier_of v s = dict_get (last_tier_reached s) v 0"

definition more_noted :: "world \<Rightarrow> world \<Rightarrow> bool" where
  "more_noted s s' \<longleftrightarrow> noted s \<subseteq> noted s' \<and> (\<forall>v. tier_of v s \<le> tier_of v s')"

lemma more_notedI: "recently_blocked s' = recently_blocked s \<Longrightarrow> last_tier_reached s' = last_tier_reached s \<Longrightarrow> more_noted s s'"
  by (simp add: more_noted_def noted_def tier_of_def)

interpretation mn: frame_db more_noted
proof
  show "more_noted s t \<Longrightarrow> more_noted t u \<Longrightarrow> more_noted s u" for s t u
    unfolding more_noted_def by (meson order_trans subset_trans)
  show "more_noted s s'" if "db_effect s s'" for s s'
    by (rule more_notedI) (use that in \<open>cases s; cases s'; simp add: db_effect_def\<close>)+
qed (simp_all add: more_notedI)

interpretation mn: frame_load more_noted
  by unfold_locales (simp_all add: more_notedI)

lemma mn_small:
  "steps more_noted (ipset_add E n ip d)" "steps more_noted (dispatch_alert a b c)" "steps more_noted (record_latency k x)"
  "steps more_noted (add_step_secs k x)" "steps more_noted (record_ddos_source ip cls v r t)"
  unfolding ipset_add_def dispatch_alert_def record_latency_def add_step_secs_def record_ddos_source_def Let_def
  by (intro mn.rules mn.check_hash; simp add: more_notedI run_cmd_def steps_def)+

lemma mn_note: "more_noted s (note_action ip now s)"
  by (auto simp: more_noted_def note_action_def noted_def tier_of_def)

lemma mn_reach: "steps more_noted (reach_tier v n)"
  by (auto simp: steps_def reach_tier_def more_noted_def noted_def tier_of_def dict_get_def update_conv')

lemma mn_actions: "steps more_noted (ratelimit_ip E ip d v r cls en)" "steps more_noted (block_ip E ip d v r en)"
proof -
  show rl: "steps more_noted (ratelimit_ip E ip d v r cls en)" for v cls
    unfolding ratelimit_ip_def
    by (intro mn.io_rules mn.check_hash mn.resolve_victim_ip mn.if_listed mn.get_enforcement_config mn.db_ops mn_small mn_note)
  show "steps more_noted (block_ip E ip d v r en)"
    unfolding block_ip_def
    by (intro mn.io_rules mn.check_hash mn.resolve_victim_ip mn.if_listed mn.get_enforcement_config mn.db_ops mn_small mn_note rl)
qed

lemma mn_sources: "steps more_noted (block_source E w v cfg ip r)" "steps more_noted (ratelimit_source E w v cfg cls ip r)"
  unfolding block_source_def ratelimit_source_def maybe_alert_block_def timed_enforcement_def
  by (intro mn.io_rules mn.check_hash mn_actions mn_small; simp add: more_notedI)+

text \<open>\<open>leaves_note ip m\<close>: when the code returns, the address has been noted.\<close>

definition leaves_note :: "json \<Rightarrow> 'a op \<Rightarrow> bool" where
  "leaves_note ip m \<longleftrightarrow> (\<forall>s x s'. m s = (Inr x, s') \<longrightarrow> ip \<in> noted s')"

lemma note_then: "leaves_note ip m \<Longrightarrow> (\<And>x. steps more_noted (f x)) \<Longrightarrow> leaves_note ip (bnd m f)"
  unfolding leaves_note_def by (metis bnd_InrE more_noted_def stepsD2 subsetD)

lemma note_last: "(\<And>x. leaves_note ip (f x)) \<Longrightarrow> leaves_note ip (bnd m f)"
  unfolding leaves_note_def by (metis bnd_InrE)

lemma actions_note: "leaves_note ip (ratelimit_ip E ip d v r cls en)" "leaves_note ip (block_ip E ip d v r en)"
  unfolding ratelimit_ip_def block_ip_def leaves_note_def
  by (auto elim!: bnd_InrE simp: gets_def ret_def finally_do_def note_action_def noted_def debounced_def
      split: if_splits prod.splits option.splits)

lemma sources_note: "leaves_note ip (ratelimit_source E w v cfg cls ip r)" "leaves_note ip (block_source E w v cfg ip r)"
proof -
  have timed: "leaves_note ip (timed_enforcement E ts m)" if "leaves_note ip m" for ts m
    unfolding timed_enforcement_def
    by (rule note_last, rule note_then [OF that]) (intro mn.io_rules mn_small)
  show "leaves_note ip (ratelimit_source E w v cfg cls ip r)"
    unfolding ratelimit_source_def by (intro note_last timed actions_note)
  have alert: "steps more_noted (maybe_alert_block E ip v r cfg)" for r
    unfolding maybe_alert_block_def by (intro mn.io_rules mn.check_hash mn_small; simp add: more_notedI)
  show "leaves_note ip (block_source E w v cfg ip r)"
    unfolding block_source_def by (rule note_last, rule note_then [OF timed [OF actions_note(2)] alert])
qed

text \<open>What the list of the sources acted on stands for.\<close>

definition acted_ok :: "json \<Rightarrow> json list \<Rightarrow> world \<Rightarrow> bool" where
  "acted_ok v acted s \<longleftrightarrow> set acted \<subseteq> noted s \<and> (acted \<noteq> [] \<longrightarrow> 1 \<le> tier_of v s)"

lemma acted_ok_mono: "more_noted s s' \<Longrightarrow> acted_ok v acted s \<Longrightarrow> acted_ok v acted s'"
  unfolding acted_ok_def more_noted_def by (meson order_trans subset_trans)

lemma reach_tier_at_least: "reach_tier v n s = (Inr u, s') \<Longrightarrow> n \<le> tier_of v s'"
  by (auto simp: reach_tier_def modify_def tier_of_def dict_get_def update_conv')

lemma act_and_reach:
  assumes "leaves_note ip m" and "steps more_noted m" and "1 \<le> n"
    and "bnd m (\<lambda>_. reach_tier v n) s = (Inr u, s')" and "acted_ok v acted s"
  shows "acted_ok v (ip # acted) s'"
proof -
  obtain x t where m: "m s = (Inr x, t)" and r: "reach_tier v n t = (Inr u, s')" using assms(4) by (rule bnd_InrE)
  have "more_noted s t" "more_noted t s'" using stepsD2 [OF assms(2) m] stepsD2 [OF mn_reach r] by auto
  moreover have "ip \<in> noted t" using assms(1) m by (auto simp: leaves_note_def)
  ultimately show ?thesis
    using assms(3,5) reach_tier_at_least [OF r] unfolding acted_ok_def more_noted_def by auto
qed

lemma each_source_acts:
  assumes "\<And>ip r. leaves_note ip (act ip r)" and "\<And>ip r. steps more_noted (act ip r)" and "1 \<le> n"
  shows "each_source (\<lambda>ip r. bnd (act ip r) (\<lambda>_. reach_tier v n)) th acted rs s = (Inr acted', s') \<Longrightarrow> acted_ok v acted s \<Longrightarrow>
    acted_ok v acted' s' \<and> set acted \<subseteq> set acted' \<and> (\<forall>(ip, r) \<in> set rs. fle th r \<longrightarrow> ip \<in> set acted')"
proof (induction rs arbitrary: acted s)
  case (Cons p rs)
  obtain ip r where p: "p = (ip, r)" by fastforce
  show ?case
  proof (cases "ip \<in> set acted \<or> \<not> fle th r")
    case True
    then have "each_source (\<lambda>ip r. bnd (act ip r) (\<lambda>_. reach_tier v n)) th acted rs s = (Inr acted', s')"
      using Cons.prems(1) unfolding p by (auto split: if_splits)
    from Cons.IH [OF this Cons.prems(2)] True show ?thesis unfolding p by auto
  next
    case False
    then obtain t u where a: "bnd (act ip r) (\<lambda>_. reach_tier v n) s = (Inr u, t)" and
      rest: "each_source (\<lambda>ip r. bnd (act ip r) (\<lambda>_. reach_tier v n)) th (ip # acted) rs t = (Inr acted', s')"
      using Cons.prems(1) unfolding p by (auto elim: bnd_InrE)
    from Cons.IH [OF rest act_and_reach [OF assms a Cons.prems(2)]] show ?thesis unfolding p by auto
  qed
qed (simp add: ret_def)

lemma tiers_act:
  assumes "run_tiers E w v cfg ready bt ft rates s = (Inr u, s')"
  shows "(\<forall>(ip, r) \<in> set rates. fle ft r \<longrightarrow> ip \<in> noted s') \<and> (rates \<noteq> [] \<longrightarrow> 1 \<le> tier_of v s')"
proof -
  obtain a1 s1 a2 s2 a3 s3 where 1: "tier1 E w v cfg ready s = (Inr a1, s1)" and
    2: "tier2 E w v cfg ready bt rates a1 s1 = (Inr a2, s2)" and 3: "tier3 E w v cfg ft rates a2 s2 = (Inr a3, s3)" and
    4: "tier4 E w v cfg rates a3 s3 = (Inr u, s')"
    using assms unfolding run_tiers_def by (elim bnd_InrE) blast
  have "acted_ok v a1 s1"
  proof (cases a1)
    case (Cons ip as)
    then obtain t1 t2 t3 x where "block_source E w v cfg ip (dominant_rate w) t1 = (Inr x, t2)" "reach_tier v 1 t2 = (Inr (), s1)" "as = []"
      using 1 unfolding tier1_def by (auto elim!: bnd_InrE simp: ret_def split: if_splits)
    then have "bnd (block_source E w v cfg ip (dominant_rate w)) (\<lambda>_. reach_tier v 1) t1 = (Inr (), s1)" by simp
    from act_and_reach [OF sources_note(2) mn_sources(1) _ this, of "[]"] show ?thesis
      using Cons \<open>as = []\<close> by (simp add: acted_ok_def)
  qed (simp add: acted_ok_def)
  then have "acted_ok v a2 s2"
    using 2 each_source_acts [OF sources_note(2) mn_sources(1), of 2] unfolding tier2_def by (auto split: if_splits simp: ret_def)
  from each_source_acts [OF sources_note(1) mn_sources(2) _ 3 [unfolded tier3_def] this]
  have a3: "acted_ok v a3 s3" "\<forall>(ip, r) \<in> set rates. fle ft r \<longrightarrow> ip \<in> set a3" by auto
  have "steps more_noted (tier4 E w v cfg rates a3)"
    unfolding tier4_def by (intro mn.rules mn.for_each mn_sources mn_small mn_reach)
  then have m: "more_noted s3 s'" using 4 by (rule stepsD2)
  have "1 \<le> tier_of v s'" if "rates \<noteq> []"
  proof (cases "a3 = []")
    case True
    then have "4 \<le> tier_of v s'"
      using 4 that unfolding tier4_def by (simp split: if_splits) (elim bnd_InrE, erule reach_tier_at_least)
    then show ?thesis by simp
  qed (use acted_ok_mono [OF m a3(1)] in \<open>simp add: acted_ok_def\<close>)
  then show ?thesis using acted_ok_mono [OF m a3(1)] a3(2) by (auto simp: acted_ok_def)
qed

text \<open>
  C5. A DDoS verdict is acted on. For a known victim, with numeric settings, the four tiers always run to their end; then every source of
  the flow snapshot whose rate reaches the flow threshold has been given to an enforcement action (its time of
  action is noted), and if the snapshot has any source at all some tier was reached: when no single source
  stands out, the fallback takes all of them.
\<close>

theorem ddos_verdict_acts:
  assumes "known_victim v" and "numeric_config cfg" and "\<forall>(ip, r) \<in> set rates. hashable ip" and "sound flows saved s"
  shows "\<exists>s'. run_tiers E w v cfg block_ready block_threshold flow_threshold rates s = (Inr (), s') \<and>
    (\<forall>ip r. (ip, r) \<in> set rates \<and> fle flow_threshold r \<longrightarrow> map_of (recently_blocked s') ip \<noteq> None) \<and>
    (rates \<noteq> [] \<longrightarrow> 1 \<le> dict_get (last_tier_reached s') v 0)"
proof -
  obtain s' where run: "run_tiers E w v cfg block_ready block_threshold flow_threshold rates s = (Inr (), s')"
    using done_tiers [OF assms(1-3), of flows saved E w block_ready block_threshold flow_threshold] assms(4) unfolding runs_def by auto
  then show ?thesis using tiers_act [OF run] by (auto simp: noted_def tier_of_def dom_def)
qed

theorem ddos_verdict_acts_witness:
  "\<exists>s'. run_tiers lab_env lab_window (JStr ''10.0.0.3'') DEFAULT_ENFORCEMENT_CONFIG False (Fin 300) (Fin 50)
       [(JStr ''10.0.0.8'', Fin 70), (JStr ''10.0.0.9'', Fin 20)] lab_files = (Inr (), s') \<and>
     map_of (recently_blocked s') (JStr ''10.0.0.8'') \<noteq> None"
proof -
  have "known_victim (JStr ''10.0.0.3'')" by (simp add: known_victim_def unknown_addrs_def)
  from ddos_verdict_acts [OF this default_numeric _ lab_facts(1), where rates = "[(JStr ''10.0.0.8'', Fin 70), (JStr ''10.0.0.9'', Fin 20)]"
      and flow_threshold = "Fin 50" and E = lab_env and w = lab_window and block_ready = False and block_threshold = "Fin 300"]
  show ?thesis by (auto simp del: not_None_eq)
qed

lemma whitelisted_block:
  assumes "known_victim v" and "lists_readable E" and "w_json s WHITELIST_PATH = JVal (JArr l)" and "JStr ip \<in> set l"
  obtains n m b where "block_ip E (JStr ip) d v r en s = (Inr (), s\<lparr>w_tick := n, w_io := m, recently_blocked := b\<rparr>)"
proof -
  let ?s = "s\<lparr>w_tick := Suc (w_tick s)\<rparr>"
  have "py_in (JStr ip) (JArr l) = Inr True" using assms(4) by (auto simp: list_ex_iff intro!: bexI [of _ "JStr ip"])
  then have listed: "if_listed E WHITELIST_PATH (JStr ip) yes no ?s = yes (?s\<lparr>w_io := Suc (w_io s)\<rparr>)" for yes no
    using if_listed_present [of E WHITELIST_PATH ?s "JArr l"] assms(2,3) by (simp add: lists_readable_def)
  show ?thesis
  proof (cases "debounced (JStr ip) (e_clock E (w_tick s)) s")
    case True
    then have "block_ip E (JStr ip) d v r en s = (Inr (), s\<lparr>w_tick := Suc (w_tick s), w_io := w_io s, recently_blocked := recently_blocked s\<rparr>)"
      by (simp add: block_ip_def time_time_def check_hash_def debounced_def bnd_def [of "time_time E"] py_eval)
    then show ?thesis by (rule that)
  next
    case False
    then have "block_ip E (JStr ip) d v r en s = (Inr (), s\<lparr>w_tick := Suc (w_tick s), w_io := Suc (w_io s),
        recently_blocked := AList.update (JStr ip) (e_clock E (w_tick s)) (recently_blocked s)\<rparr>)"
      by (simp add: block_ip_def resolve_known [OF assms(1)] time_time_def check_hash_def debounced_def bnd_def [of "time_time E"]
          finally_do_def try_except_def listed note_action_def)
    then show ?thesis by (rule that)
  qed
qed

lemma record_latency_eq:
  assumes "latency_ok (w_latency s)" and "k \<in> set KINDS"
  obtains l where "record_latency k x s = (Inr (), s\<lparr>w_latency := l\<rparr>)" "latency_ok l"
proof -
  obtain l where l: "latency_record k x (w_latency s) = Inr l" using latency_record_total assms by blast
  then have "record_latency k x s = (Inr (), s\<lparr>w_latency := l\<rparr>)" by (simp add: record_latency_def py_eval)
  then show thesis using latency_ok_record [OF assms(1) l] by (rule that)
qed

lemma timed_whitelisted:
  assumes "known_victim v" and "lists_readable E" and "w_json s WHITELIST_PATH = JVal (JArr l)" and "JStr ip \<in> set l"
    and "latency_ok (w_latency s)"
  obtains n m b ss la where "timed_enforcement E ts (block_ip E (JStr ip) d v r en) s =
    (Inr (), s\<lparr>w_io := m, recently_blocked := b, w_tick := n, step_secs := ss, w_latency := la\<rparr>)"
proof -
  let ?s = "s\<lparr>w_tick := Suc (w_tick s)\<rparr>"
  obtain n m b where run: "block_ip E (JStr ip) d v r en ?s = (Inr (), s\<lparr>w_tick := n, w_io := m, recently_blocked := b\<rparr>)"
    by (rule whitelisted_block [OF assms(1,2), of ?s l ip d r en]) (use assms(3,4) in simp_all)
  have kinds: "''enforcement'' \<in> set KINDS" "''window_to_rule'' \<in> set KINDS" by (simp_all add: KINDS_def)
  let ?fin = "e_clock E n" and ?st = "e_clock E (w_tick s)"
  let ?t = "s\<lparr>w_io := m, recently_blocked := b, w_tick := Suc n, step_secs := AList.update ''enforcement''
      (fadd (dict_get (step_secs s) ''enforcement'' (Fin 0)) (fsub ?fin ?st)) (step_secs s)\<rparr>"
  obtain l1 where l1: "record_latency ''enforcement'' (fmul (fsub ?fin ?st) (Fin 1000)) ?t = (Inr (), ?t\<lparr>w_latency := l1\<rparr>)" "latency_ok l1"
    by (rule record_latency_eq [of ?t, OF _ kinds(1)]) (use assms(5) in simp)
  obtain l2 where "record_latency ''window_to_rule'' (fmul (fsub ?fin ts) (Fin 1000)) (?t\<lparr>w_latency := l1\<rparr>) =
      (Inr (), ?t\<lparr>w_latency := l1\<rparr>\<lparr>w_latency := l2\<rparr>)"
    by (rule record_latency_eq [of "?t\<lparr>w_latency := l1\<rparr>", OF _ kinds(2)]) (use l1(2) in simp)
  then have "timed_enforcement E ts (block_ip E (JStr ip) d v r en) s = (Inr (), ?t\<lparr>w_latency := l2\<rparr>)"
    using run l1(1) by (simp add: timed_enforcement_def bnd_def [of "time_time E"] time_time_def add_step_secs_def bnd_def [of "modify _"] modify_def)
  then show thesis by (rule that)
qed

text \<open>
  C31. An alert that a source was blocked can be wrong. Tiers 1 and 2 report the block whatever became of it: for an
  address of the whitelist no command is executed at all, and yet, unless such an alert was sent within the block's
  duration, the alert that the address has been blocked is queued.
\<close>

theorem false_block_alert:
  assumes "known_victim v" and "lists_readable E" and "w_json s WHITELIST_PATH = JVal (JArr l)" and "JStr ip \<in> set l"
    and "cfg_at cfg ''block_duration_seconds'' = Inr (JInt d)" and "latency_ok (w_latency s)"
    and "map_of (last_block_alert s) (JStr ip) = None" and "\<forall>n. \<not> flt (fsub (e_clock E n) (Fin 0)) (Fin (of_int d))"
    and "length (alert_queue s) < ALERT_QUEUE_MAX"
  shows "\<exists>s' msg. block_source E w v cfg (JStr ip) rate s = (Inr (), s') \<and> w_cmds s' = w_cmds s \<and>
    alert_queue s' = alert_queue s @ [(''FLOD System: IP Blocked'', msg, ''all'')]"
proof -
  obtain n m b ss la where run: "timed_enforcement E (fv_timestamp w) (block_ip E (JStr ip) (JInt d) v (Some rate) (Some (fv_entropy w))) s =
      (Inr (), s\<lparr>w_io := m, recently_blocked := b, w_tick := n, step_secs := ss, w_latency := la\<rparr>)"
    by (rule timed_whitelisted [OF assms(1-4,6)])
  have num: "cfg_num cfg ''block_duration_seconds'' = Inr (Fin (of_int d))" by (simp add: cfg_num_def assms(5) need_num_def)
  have due: "\<not> flt (fsub (e_clock E n) (Fin 0)) (Fin (of_int d))" using assms(8) by blast
  show ?thesis
    by (simp add: block_source_def assms(5) run maybe_alert_block_def bnd_def [of "time_time E"] bnd_def [of "lift_res (Inr _)"]
        time_time_def check_hash_def dict_get_def assms(7,9) num due lift_res_def bnd_def [of "gets _"] gets_def bnd_def [of "modify _"] modify_def
        dispatch_alert_def ALERT_CHANNELS_def Let_def)
qed

theorem false_block_alert_witness:
  "let s = (init_world (Fin 0))\<lparr>w_json := (\<lambda>_. JVal (JArr [JStr ''10.0.0.9'']))\<rparr>
   in \<exists>s' msg. block_source lab_env lab_window (JStr ''10.0.0.3'') [(''block_duration_seconds'', JInt 60)] (JStr ''10.0.0.9'') (Fin 500) s = (Inr (), s') \<and>
        w_cmds s' = [] \<and> alert_queue s' = [(''FLOD System: IP Blocked'', msg, ''all'')]"
proof -
  let ?s = "(init_world (Fin 0))\<lparr>w_json := (\<lambda>_. JVal (JArr [JStr ''10.0.0.9'']))\<rparr>"
  have k: "known_victim (JStr ''10.0.0.3'')" by (simp add: known_victim_def unknown_addrs_def)
  have r: "lists_readable lab_env" by (simp add: lists_readable_def lab_env_io)
  have c: "\<forall>n. \<not> flt (fsub (e_clock lab_env n) (Fin 0)) (Fin (of_int 60))"
  proof
    fix n
    have "fle (fl_round 60) (fl_round (1000 + of_nat n))" by (rule fl_round_mono) simp
    then show "\<not> flt (fsub (e_clock lab_env n) (Fin 0)) (Fin (of_int 60))"
      using fl_round_of_int [of 60] fle_not_flt by (simp add: lab_env_clock fsub_Fin)
  qed
  show ?thesis
    using false_block_alert [OF k r, of ?s "[JStr ''10.0.0.9'']" "''10.0.0.9''" "[(''block_duration_seconds'', JInt 60)]" 60 lab_window "Fin 500"] c
    by (simp add: cfg_at_def init_world_def latency_ok_init ALERT_QUEUE_MAX_def Let_def)
qed

end
