(* ===== verification/Auto_Label.thy ===== *)
theory Auto_Label
  imports Capture Db
begin

text \<open>
  \<open>stage2/auto_label.py\<close>: the periodic job that gives captured windows a label when two models, both trained after
  the capture, agree on it with confidence. The models and numpy's \<open>argmax\<close> are parameters, collected in
  \<open>models\<close>; the files are their texts, read and written by the \<open>csv\<close> module.

  \<open>process_capture_file\<close> holds the lock of the capture file twice, to read it and to swap in the result; the two
  sections and the scoring between them are separate definitions, so that the appends of the receive loop can come in
  between. Replacing a file is one operation that works or raises; its steps are those of \<open>atomic_write\<close>.
\<close>

section \<open>Parameters and columns\<close>

record scorer =
  predict_proba :: "features list \<Rightarrow> pyfloat list list res"
  classes :: "int list"

record models =
  rf :: scorer
  second :: scorer
  mtimes :: "pyfloat list"
  np_argmax :: "pyfloat list \<Rightarrow> nat"

definition BASE_CSV_HEADER :: "string list" where
  "BASE_CSV_HEADER =
     [''entropy'', ''ewma_rate'', ''mean_h'', ''mean_r'', ''sigma_h'', ''sigma_r'', ''proto_ratio'', ''dominant_ip_ratio'',
      ''source_port_entropy'', ''ttl_variance'', ''fingerprint_diversity'', ''timestamp'', ''label'']"

definition TIMESTAMP_COL :: nat where "TIMESTAMP_COL = 11"

definition LABEL_COL :: nat where "LABEL_COL = 12"

text \<open>\<open>xs[i]\<close> with an index that is not negative.\<close>

definition at_index :: "'a list \<Rightarrow> nat \<Rightarrow> 'a res" where
  "at_index xs i = (if i < length xs then Inr (xs ! i) else Inl IndexError)"

section \<open>Deciding on one row\<close>

definition is_row_eligible :: "pyfloat \<Rightarrow> pyfloat list \<Rightarrow> pyfloat \<Rightarrow> pyfloat \<Rightarrow> bool" where
  "is_row_eligible row_timestamp model_mtimes delay_hours now =
     (case fdiv (fsub now row_timestamp) (Fin 3600) of
        Inl _ \<Rightarrow> False
      | Inr age_hours \<Rightarrow> \<not> flt age_hours delay_hours \<and> list_all (\<lambda>m. flt row_timestamp m) model_mtimes)"

text \<open>The base columns read as numbers, in the order in which the source reads them.\<close>

fun read_cols :: "(string \<times> string) list \<Rightarrow> string list \<Rightarrow> pyfloat list res" where
  "read_cols by_name [] = Inr []"
| "read_cols by_name (c # cs) =
     (case map_of by_name c of
        None \<Rightarrow> Inl KeyError
      | Some v \<Rightarrow>
          (case read_float v of
             Inl e \<Rightarrow> Inl e
           | Inr x \<Rightarrow> (case read_cols by_name cs of Inl e \<Rightarrow> Inl e | Inr xs \<Rightarrow> Inr (x # xs))))"

text \<open>\<open>dict(zip(header, row))\<close> keeps the last of two columns with the same name. The result is in the order of
  \<open>FEATURE_COLS\<close>.\<close>

definition row_to_features :: "string list \<Rightarrow> string list \<Rightarrow> features res" where
  "row_to_features row header =
     (case read_cols (rev (zip header row)) (take 11 BASE_CSV_HEADER) of
        Inl e \<Rightarrow> Inl e
      | Inr [entropy, ewma_rate, mean_h, mean_r, sigma_h, sigma_r, proto_ratio, dominant_ip_ratio, spe, ttl, fpd] \<Rightarrow>
          Inr [entropy, ewma_rate, mean_h, mean_r, sigma_h, sigma_r, proto_ratio, dominant_ip_ratio,
               fsub ewma_rate mean_r, fsub entropy mean_h, fmul ewma_rate dominant_ip_ratio, spe, ttl, fpd]
      | Inr _ \<Rightarrow> Inl KeyError)"

text \<open>\<open>DEGENERATE_FIELDS\<close> as positions of \<open>FEATURE_COLS\<close>.\<close>

definition DEGENERATE_FIELDS :: "nat list" where
  "DEGENERATE_FIELDS = [0, 6, 7, 11, 12, 13]"

definition is_row_degenerate :: "features \<Rightarrow> bool" where
  "is_row_degenerate f = list_all (\<lambda>i. feq (f ! i) (Fin 0)) DEGENERATE_FIELDS"

definition decide_label :: "models \<Rightarrow> pyfloat list \<Rightarrow> pyfloat list \<Rightarrow> pyfloat \<Rightarrow> int option res" where
  "decide_label M rf_proba second_proba confidence_threshold =
     (if classes (rf M) \<noteq> classes (second M) then Inr None
      else let i = np_argmax M rf_proba; j = np_argmax M second_proba
           in if i \<noteq> j then Inr None
              else case (at_index rf_proba i, at_index second_proba j) of
                (Inr p, Inr q) \<Rightarrow>
                  if flt p confidence_threshold \<or> flt q confidence_threshold then Inr None
                  else map_sum id Some (at_index (classes (rf M)) i)
              | (Inl e, _) \<Rightarrow> Inl e
              | (Inr p, Inl e) \<Rightarrow> if flt p confidence_threshold then Inr None else Inl e)"

section \<open>Bounding and reading a file\<close>

definition sort_key :: "string list \<Rightarrow> pyfloat" where
  "sort_key row =
     (case at_index row TIMESTAMP_COL of
        Inl _ \<Rightarrow> NInf
      | Inr v \<Rightarrow> (case read_float v of Inl _ \<Rightarrow> NInf | Inr x \<Rightarrow> x))"

definition trim_csv_rows :: "string list list \<Rightarrow> int \<Rightarrow> string list list \<times> nat" where
  "trim_csv_rows rows max_rows =
     (if int (length rows) \<le> max_rows then (rows, 0)
      else let dropped = nat (int (length rows) - max_rows)
           in (drop dropped (py_sorted sort_key rows), dropped))"

text \<open>A deque with a bound keeps the last elements put into it; a negative bound raises.\<close>

definition last_rows :: "int \<Rightarrow> 'a list \<Rightarrow> 'a list res" where
  "last_rows n xs = (if n < 0 then Inl ValueError else Inr (drop (length xs - nat n) xs))"

definition read_rows :: "env \<Rightarrow> cpath \<Rightarrow> (string list option \<times> string list list \<times> bool) op" where
  "read_rows E p =
     bnd (gets (\<lambda>s. w_csv s p)) (\<lambda>f.
     case f of
       None \<Rightarrow> ret (None, [], False)
     | Some t \<Rightarrow>
         bnd (io_check E (IO_Csv p) OSError) (\<lambda>_.
         case csv_read t of
           [] \<Rightarrow> ret (None, [], False)
         | header # data \<Rightarrow>
             bnd (lift_res (last_rows (AUTO_LABEL_MAX_QUEUE_ROWS (e_conf E)) data)) (\<lambda>rows.
             ret (Some header, rows, AUTO_LABEL_MAX_QUEUE_ROWS (e_conf E) < int (length data)))))"

definition read_training_csv :: "env \<Rightarrow> cpath \<Rightarrow> (string list option \<times> string list list) op" where
  "read_training_csv E p =
     bnd (gets (\<lambda>s. w_csv s p)) (\<lambda>f.
     case f of
       None \<Rightarrow> ret (None, [])
     | Some t \<Rightarrow>
         bnd (io_check E (IO_Csv p) OSError) (\<lambda>_.
         case csv_read t of
           [] \<Rightarrow> ret (None, [])
         | header # rows \<Rightarrow> ret (Some header, rows)))"

definition rewrite_csv :: "env \<Rightarrow> cpath \<Rightarrow> string list \<Rightarrow> string list list \<Rightarrow> unit op" where
  "rewrite_csv E p header rows =
     bnd (io_check E (IO_Csv p) OSError) (\<lambda>_.
     modify (\<lambda>s. s\<lparr>w_csv := (w_csv s)(p := Some (csv_write (header # rows)))\<rparr>))"

text \<open>Opening the lock file may raise; the lock itself is waited for.\<close>

definition exclusive_lock :: "env \<Rightarrow> cpath \<Rightarrow> 'a op \<Rightarrow> 'a op" where
  "exclusive_lock E p m = bnd (io_check E (IO_Csv p) OSError) (\<lambda>_. m)"

definition read_appended_rows :: "env \<Rightarrow> cpath \<Rightarrow> nat \<Rightarrow> string list list option op" where
  "read_appended_rows E p offset =
     bnd (io_check E (IO_Csv p) OSError) (\<lambda>_.
     bnd (gets (\<lambda>s. w_csv s p)) (\<lambda>f.
     case f of
       None \<Rightarrow> raise_exn OSError
     | Some t \<Rightarrow> if length t < offset then ret None else ret (Some (csv_read (drop offset t)))))"

section \<open>Scoring\<close>

text \<open>The features of a row that is to be scored; \<open>None\<close> for one that stays where it is. What the three conversions can
  raise is what the source catches.\<close>

definition examine_row :: "env \<Rightarrow> models \<Rightarrow> string list \<Rightarrow> string list \<Rightarrow> features option op" where
  "examine_row E M header row =
     (case at_index row TIMESTAMP_COL of
        Inl _ \<Rightarrow> ret None
      | Inr v \<Rightarrow>
          (case read_float v of
             Inl _ \<Rightarrow> ret None
           | Inr row_timestamp \<Rightarrow>
               bnd (time_time E) (\<lambda>now.
               if \<not> is_row_eligible row_timestamp (mtimes M) (AUTO_LABEL_DELAY_HOURS (e_conf E)) now then ret None
               else case row_to_features row header of
                 Inl _ \<Rightarrow> ret None
               | Inr f \<Rightarrow> ret (if \<not> list_all is_finite f then None else if is_row_degenerate f then None else Some f))))"

fun scan_rows :: "env \<Rightarrow> models \<Rightarrow> string list \<Rightarrow> string list list \<Rightarrow>
    (string list list \<times> (string list \<times> features) list \<times> nat) op" where
  "scan_rows E M header [] = ret ([], [], 0)"
| "scan_rows E M header (row # rows) =
     (if length row \<noteq> length header
      then bnd (scan_rows E M header rows) (\<lambda>(kept, scorable, corrupt). ret (kept, scorable, Suc corrupt))
      else bnd (examine_row E M header row) (\<lambda>f.
           bnd (scan_rows E M header rows) (\<lambda>(kept, scorable, corrupt).
           ret (case f of
                  None \<Rightarrow> (row # kept, scorable, corrupt)
                | Some f \<Rightarrow> (kept, (row, f) # scorable, corrupt)))))"

text \<open>The label written into the staged row: the base columns, with \<open>str(label)\<close> in the last.\<close>

definition labeled_row :: "string list \<Rightarrow> int \<Rightarrow> string list res" where
  "labeled_row row label =
     (let base = take (length BASE_CSV_HEADER) row
      in if LABEL_COL < length base then Inr (base[LABEL_COL := show_int label]) else Inl IndexError)"

fun label_rows :: "models \<Rightarrow> pyfloat \<Rightarrow> ((string list \<times> features) \<times> pyfloat list \<times> pyfloat list) list \<Rightarrow>
    (string list list \<times> string list list) res" where
  "label_rows M th [] = Inr ([], [])"
| "label_rows M th (((row, _), rf_proba, second_proba) # rest) =
     (case decide_label M rf_proba second_proba th of
        Inl e \<Rightarrow> Inl e
      | Inr None \<Rightarrow> (case label_rows M th rest of Inl e \<Rightarrow> Inl e | Inr (kept, labeled) \<Rightarrow> Inr (row # kept, labeled))
      | Inr (Some label) \<Rightarrow>
          (case labeled_row row label of
             Inl e \<Rightarrow> Inl e
           | Inr r \<Rightarrow> (case label_rows M th rest of Inl e \<Rightarrow> Inl e | Inr (kept, labeled) \<Rightarrow> Inr (kept, r # labeled))))"

definition score_rows :: "env \<Rightarrow> models \<Rightarrow> string list list \<Rightarrow> string list \<Rightarrow> (string list list \<times> string list list \<times> nat) op" where
  "score_rows E M rows header =
     bnd (scan_rows E M header rows) (\<lambda>(kept, scorable, corrupt).
     if scorable = [] then ret (kept, [], corrupt)
     else bnd (lift_res (predict_proba (rf M) (map snd scorable))) (\<lambda>rf_probas.
          bnd (lift_res (predict_proba (second M) (map snd scorable))) (\<lambda>second_probas.
          bnd (lift_res (label_rows M (AUTO_LABEL_CONFIDENCE_THRESHOLD (e_conf E))
                 (zip scorable (zip rf_probas second_probas)))) (\<lambda>(unsure, labeled).
          ret (kept @ unsure, labeled, corrupt)))))"

section \<open>One capture file\<close>

definition append_labeled_row :: "env \<Rightarrow> cpath \<Rightarrow> string list \<Rightarrow> unit op" where
  "append_labeled_row E p row =
     bnd (io_ok E (IO_Csv p)) (\<lambda>ok.
     if \<not> ok then ret ()
     else modify (\<lambda>s.
       let old = (case w_csv s p of None \<Rightarrow> csv_write [BASE_CSV_HEADER] | Some t \<Rightarrow> t)
       in s\<lparr>w_csv := (w_csv s)(p := Some (old @ csv_write [row]))\<rparr>))"

definition take_snapshot :: "env \<Rightarrow> cpath \<Rightarrow> (nat \<times> string list \<times> string list list \<times> bool) option op" where
  "take_snapshot E p =
     exclusive_lock E p
       (bnd (gets (\<lambda>s. w_csv s p)) (\<lambda>f.
        case f of
          None \<Rightarrow> ret None
        | Some t \<Rightarrow>
            bnd (io_check E (IO_Csv p) OSError) (\<lambda>_.
            bnd (read_rows E p) (\<lambda>(header, rows, was_bounded).
            ret (map_option (\<lambda>h. (length t, h, rows, was_bounded)) header)))))"

definition swap_in :: "env \<Rightarrow> cpath \<Rightarrow> cpath \<Rightarrow> nat \<Rightarrow> string list \<Rightarrow> string list list \<Rightarrow> string list list \<Rightarrow> nat op" where
  "swap_in E p labeled_out snapshot_size header kept labeled =
     exclusive_lock E p
       (bnd (read_appended_rows E p snapshot_size) (\<lambda>appended.
        case appended of
          None \<Rightarrow> ret 0
        | Some extra \<Rightarrow>
            bnd (for_each (append_labeled_row E labeled_out) labeled) (\<lambda>_.
            bnd (rewrite_csv E p header (kept @ extra)) (\<lambda>_. ret (length labeled)))))"

definition score_snapshot :: "env \<Rightarrow> models \<Rightarrow> string list \<Rightarrow> string list list \<Rightarrow> bool \<Rightarrow> (string list list \<times> string list list) option op" where
  "score_snapshot E M header rows was_bounded =
     (let (rows', dropped) = trim_csv_rows rows (AUTO_LABEL_MAX_QUEUE_ROWS (e_conf E))
      in bnd (score_rows E M rows' header) (\<lambda>(kept, labeled, corrupt).
         ret (if dropped = 0 \<and> corrupt = 0 \<and> labeled = [] \<and> \<not> was_bounded then None else Some (kept, labeled))))"

definition process_capture_file :: "env \<Rightarrow> models \<Rightarrow> cpath \<Rightarrow> cpath \<Rightarrow> nat op" where
  "process_capture_file E M p labeled_out =
     bnd (take_snapshot E p) (\<lambda>snap.
     case snap of
       None \<Rightarrow> ret 0
     | Some (snapshot_size, header, rows, was_bounded) \<Rightarrow>
         bnd (score_snapshot E M header rows was_bounded) (\<lambda>res.
         case res of
           None \<Rightarrow> ret 0
         | Some (kept, labeled) \<Rightarrow> swap_in E p labeled_out snapshot_size header kept labeled))"

definition trim_capture_file_only :: "env \<Rightarrow> cpath \<Rightarrow> nat op" where
  "trim_capture_file_only E p =
     bnd (read_rows E p) (\<lambda>(header, rows, was_bounded).
     case header of
       None \<Rightarrow> ret 0
     | Some h \<Rightarrow>
         (let (rows', dropped) = trim_csv_rows rows (AUTO_LABEL_MAX_QUEUE_ROWS (e_conf E))
          in if dropped \<noteq> 0 \<or> was_bounded then bnd (rewrite_csv E p h rows') (\<lambda>_. ret dropped) else ret dropped))"

section \<open>The job\<close>

fun label_files :: "env \<Rightarrow> models option \<Rightarrow> cpath list \<Rightarrow> nat op" where
  "label_files E ms [] = ret 0"
| "label_files E ms (p # ps) =
     bnd (try_except
            (case ms of
               None \<Rightarrow> bnd (trim_capture_file_only E p) (\<lambda>_. ret 0)
             | Some M \<Rightarrow> process_capture_file E M p AUTO_LABELED_CSV_PATH)
            (\<lambda>_. ret 0)) (\<lambda>n.
     bnd (label_files E ms ps) (\<lambda>m. ret (n + m)))"

text \<open>The models are \<open>None\<close> when one of them is missing or was refused by \<open>load_trusted_model\<close>.\<close>

definition main :: "env \<Rightarrow> models option \<Rightarrow> unit op" where
  "main E ms =
     bnd (label_files E ms [PRETRAINING_CSV_PATH, ANOMALOUS_CSV_PATH, DDOS_CAPTURE_CSV_PATH]) (\<lambda>total_labeled.
     if total_labeled = 0 then ret ()
     else try_except
            (bnd (time_time E) (\<lambda>now. record_auto_label_run E now total_labeled))
            (\<lambda>_. ret ()))"

end
