(* ===== verification/Auto_Label_Laws.thy ===== *)
theory Auto_Label_Laws
  imports Auto_Label
begin

text \<open>
  What the labelling job of \<open>stage2/auto_label.py\<close> guarantees: a label needs two fresh models that agree, no row is lost to the
  receive loop that writes the same file, and what the bound on a file keeps. A staging file that cannot be
  written is the case in which rows are lost.
\<close>

section \<open>What scoring does to the rows\<close>

definition earned :: "env \<Rightarrow> models \<Rightarrow> string list \<Rightarrow> string list \<Rightarrow> features \<Rightarrow> bool" where
  "earned E M header row f \<longleftrightarrow>
     length row = length header \<and> row_to_features row header = Inr f \<and> list_all is_finite f \<and> \<not> is_row_degenerate f \<and>
     (\<exists>v ts n. at_index row TIMESTAMP_COL = Inr v \<and> read_float v = Inr ts \<and>
        is_row_eligible ts (mtimes M) (AUTO_LABEL_DELAY_HOURS (e_conf E)) (e_clock E n))"

lemma examine_row_cases:
  assumes "examine_row E M header row s = (Inr z, s')" and "length row = length header"
  shows "z = None \<or> (\<exists>f. z = Some f \<and> earned E M header row f)"
  using assms unfolding examine_row_def earned_def
  by (auto simp: ret_def time_time_def elim!: bnd_InrE split: sum.splits if_splits)

lemma scan_rows_split:
  "scan_rows E M header rows s = (Inr (kept, scorable, corrupt), s') \<Longrightarrow>
     mset rows = mset kept + mset (map fst scorable) + mset (filter (\<lambda>r. length r \<noteq> length header) rows) \<and>
     corrupt = length (filter (\<lambda>r. length r \<noteq> length header) rows) \<and>
     (\<forall>(row, f) \<in> set scorable. earned E M header row f)"
proof (induction rows arbitrary: s kept scorable corrupt)
  case (Cons row rows)
  show ?case
  proof (cases "length row = length header")
    case False
    then obtain c where "scan_rows E M header rows s = (Inr (kept, scorable, c), s')" "corrupt = Suc c"
      using Cons.prems by (auto simp: ret_def elim!: bnd_InrE)
    from Cons.IH [OF this(1)] this(2) False show ?thesis by auto
  next
    case True
    then obtain z t k sc c where z: "examine_row E M header row s = (Inr z, t)" and
      r: "scan_rows E M header rows t = (Inr (k, sc, c), s')" and
      res: "(kept, scorable, corrupt) = (case z of None \<Rightarrow> (row # k, sc, c) | Some f \<Rightarrow> (k, (row, f) # sc, c))"
      using Cons.prems by (auto simp: ret_def elim!: bnd_InrE)
    from Cons.IH [OF r] examine_row_cases [OF z True] res True show ?thesis by auto
  qed
qed (simp add: ret_def)

lemma label_rows_split:
  "label_rows M th zs = Inr (kept, labeled) \<Longrightarrow>
     \<exists>lab. mset (map (\<lambda>z. fst (fst z)) zs) = mset kept + mset (map fst lab) \<and>
       list_all2 (\<lambda>(row, l) r. labeled_row row l = Inr r) lab labeled \<and>
       (\<forall>(row, l) \<in> set lab. \<exists>f pr ps. ((row, f), pr, ps) \<in> set zs \<and> decide_label M pr ps th = Inr (Some l))"
proof (induction zs arbitrary: kept labeled)
  case (Cons z rest)
  obtain row f pr ps where z: "z = ((row, f), pr, ps)" by (metis surj_pair)
  obtain d where d: "decide_label M pr ps th = Inr d" using Cons.prems z by (cases "decide_label M pr ps th") simp_all
  obtain k l where kl: "label_rows M th rest = Inr (k, l)"
    using Cons.prems z d by (auto split: option.splits sum.splits)
  obtain lab where lab: "mset (map (\<lambda>z. fst (fst z)) rest) = mset k + mset (map fst lab)"
      "list_all2 (\<lambda>(row, l) r. labeled_row row l = Inr r) lab l"
      "\<forall>(row, l) \<in> set lab. \<exists>f pr ps. ((row, f), pr, ps) \<in> set rest \<and> decide_label M pr ps th = Inr (Some l)"
    using Cons.IH [OF kl] by blast
  have more: "\<forall>(row, l) \<in> set lab. \<exists>f pr ps. ((row, f), pr, ps) \<in> set (z # rest) \<and> decide_label M pr ps th = Inr (Some l)"
  proof clarify
    fix a b
    assume "(a, b) \<in> set lab"
    from bspec [OF lab(3) this] show "\<exists>f pr ps. ((a, f), pr, ps) \<in> set (z # rest) \<and> decide_label M pr ps th = Inr (Some b)"
      by auto
  qed
  show ?case
  proof (cases d)
    case None
    then have "kept = row # k" "labeled = l" using Cons.prems z d kl by auto
    then show ?thesis using lab(1,2) z more by (intro exI [of _ lab] conjI) simp_all
  next
    case (Some c)
    then obtain r where r: "labeled_row row c = Inr r" "kept = k" "labeled = r # l"
      using Cons.prems z d kl by (auto split: sum.splits)
    moreover have "\<exists>f pr ps. ((row, f), pr, ps) \<in> set (z # rest) \<and> decide_label M pr ps th = Inr (Some c)"
      using d Some z by auto
    ultimately show ?thesis using lab(1,2) z more by (intro exI [of _ "(row, c) # lab"] conjI) simp_all
  qed
qed simp

lemma zip_map_triple: "((row, f), pr, ps) \<in> set (zip sc (zip (map g (map snd sc)) (map h (map snd sc)))) \<Longrightarrow>
    (row, f) \<in> set sc \<and> pr = g f \<and> ps = h f"
  by (induction sc) auto

text \<open>Both models put the label first, with enough confidence each.\<close>

definition both_sure :: "models \<Rightarrow> pyfloat \<Rightarrow> pyfloat list \<Rightarrow> pyfloat list \<Rightarrow> int \<Rightarrow> bool" where
  "both_sure M th pr ps label \<longleftrightarrow>
     (\<exists>i. i = np_argmax M pr \<and> i = np_argmax M ps \<and> i < length pr \<and> i < length ps \<and> \<not> flt (pr ! i) th \<and> \<not> flt (ps ! i) th \<and>
        i < length (classes (rf M)) \<and> classes (rf M) ! i = label \<and> classes (second M) ! i = label)"

lemma decide_label_sure: "decide_label M pr ps th = Inr (Some l) \<Longrightarrow> both_sure M th pr ps l"
  by (auto simp: decide_label_def both_sure_def Let_def at_index_def split: if_splits sum.splits)


definition lab_models :: models where
  "lab_models = \<lparr>rf = \<lparr>predict_proba = (\<lambda>fs. Inr (map (\<lambda>_. [Fin 0, Fin 0, Fin 1]) fs)), classes = [0, 1, 2]\<rparr>,
     second = \<lparr>predict_proba = (\<lambda>fs. Inr (map (\<lambda>_. [Fin 0, Fin 0, Fin 1]) fs)), classes = [0, 1, 2]\<rparr>,
     mtimes = [Fin 0, Fin 0], np_argmax = (\<lambda>_. 2)\<rparr>"

definition lab_row :: "string list" where
  "lab_row = replicate 11 ''1'' @ [''-100000'', '''']"

definition lab_labeled :: "string list" where
  "lab_labeled = replicate 11 ''1'' @ [''-100000'', ''2'']"

lemma lab_score:
  assumes "w_tick s = 0"
  shows "score_rows lab_env lab_models [lab_row] BASE_CSV_HEADER s = (Inr ([], [lab_labeled], 0), s\<lparr>w_tick := 1\<rparr>)"
proof -
  let ?f = "replicate 8 (Fin 1) @ [Fin 0, Fin 0, Fin 1] @ replicate 3 (Fin 1)"
  have f: "row_to_features lab_row BASE_CSV_HEADER = Inr ?f" by code_simp
  have t: "read_float ''-100000'' = Inr (Fin (- 100000))" by code_simp
  have e: "is_row_eligible (Fin (- 100000)) [Fin 0, Fin 0] (Fin 24) (Fin 1000)" by code_simp
  have d: "\<not> is_row_degenerate ?f" by code_simp
  have th: "\<not> flt (Fin 1) (lit (90 / 100))" by code_simp
  have r: "labeled_row lab_row 2 = Inr lab_labeled" by code_simp
  have len: "length lab_row = length BASE_CSV_HEADER" "at_index lab_row TIMESTAMP_COL = Inr ''-100000''" by code_simp+
  have x: "examine_row lab_env lab_models BASE_CSV_HEADER lab_row s = (Inr (Some ?f), s\<lparr>w_tick := 1\<rparr>)"
    using e d assms by (simp add: examine_row_def len t f time_time_def bnd_def ret_def lab_models_def lab_env_clock)
      (simp add: lab_env_def default_settings_def list_all_iff)
  have l: "decide_label lab_models [Fin 0, Fin 0, Fin 1] [Fin 0, Fin 0, Fin 1] (lit (90 / 100)) = Inr (Some 2)"
    using th by (simp add: decide_label_def lab_models_def at_index_def Let_def)
  have "scan_rows lab_env lab_models BASE_CSV_HEADER [lab_row] s = (Inr ([], [(lab_row, ?f)], 0), s\<lparr>w_tick := 1\<rparr>)"
    by (simp add: len x bnd_def ret_def)
  then show ?thesis
    using l r by (simp add: score_rows_def lab_models_def lift_res_def bnd_def ret_def)
      (simp add: lab_env_def default_settings_def ret_def)
qed


section \<open>The receive loop keeps writing\<close>

text \<open>Between the two locked sections the receive loop may append any rows to any capture file.\<close>

inductive receiver_appends :: "world \<Rightarrow> world \<Rightarrow> bool" where
  idle: "receiver_appends s s"
| append: "receiver_appends s t \<Longrightarrow> p \<noteq> AUTO_LABELED_CSV_PATH \<Longrightarrow> receiver_appends s (snd (append_csv_row E p header row t))"

text \<open>An append only ever adds whole rows at the end of a file.\<close>

definition csv_grows :: "world \<Rightarrow> world \<Rightarrow> bool" where
  "csv_grows s s' \<longleftrightarrow> (\<forall>p t. w_csv s p = Some t \<longrightarrow> (\<exists>rows. w_csv s' p = Some (t @ csv_write rows)))"

lemma csv_growsI: "w_csv s' = w_csv s \<Longrightarrow> csv_grows s s'"
  unfolding csv_grows_def by (auto intro: exI [of _ "[]"] simp: csv_write_def)

interpretation csvg: frame_io csv_grows
proof
  show "csv_grows s u" if st: "csv_grows s t" and tu: "csv_grows t u" for s t u
    unfolding csv_grows_def
  proof (intro allI impI)
    fix p x
    assume "w_csv s p = Some x"
    then obtain rows more where "w_csv t p = Some (x @ csv_write rows)" "w_csv u p = Some ((x @ csv_write rows) @ csv_write more)"
      using st tu unfolding csv_grows_def by meson
    then show "\<exists>rows. w_csv u p = Some (x @ csv_write rows)"
      by (intro exI [of _ "rows @ more"]) (simp add: csv_write_append)
  qed
qed (simp_all add: csv_growsI)

lemma append_csv_row_grows: "steps csv_grows (append_csv_row E p header row)"
proof -
  have "steps csv_grows (write_pending E p header)"
    unfolding write_pending_def Let_def
    by (intro csvg.io_rules) (auto simp: csv_grows_def csv_write_def intro: exI [of _ "[]"])
  then show ?thesis
    unfolding append_csv_row_def queue_row_def try_lock_def note_locked_def note_capped_def file_size_def Let_def
    by (intro csvg.io_rules) (simp_all add: steps_def csv_growsI)
qed

lemma append_csv_row_other: "q \<noteq> p \<Longrightarrow> steps (keeps (\<lambda>s. w_csv s q)) (append_csv_row E p header row)"
  unfolding append_csv_row_def queue_row_def try_lock_def note_locked_def note_capped_def file_size_def write_pending_def
    io_check_def io_ok_def Let_def
  by (intro keep.rules) (auto simp: keeps_def steps_def)

lemma receiver_appends_files:
  assumes "receiver_appends s s'"
  shows "csv_grows s s' \<and> w_csv s' AUTO_LABELED_CSV_PATH = w_csv s AUTO_LABELED_CSV_PATH"
  using assms
proof (induction rule: receiver_appends.induct)
  case (append s t p E header row)
  have "csv_grows t (snd (append_csv_row E p header row t))" by (rule stepsD [OF append_csv_row_grows])
  moreover have "w_csv (snd (append_csv_row E p header row t)) AUTO_LABELED_CSV_PATH = w_csv t AUTO_LABELED_CSV_PATH"
    using stepsD [OF append_csv_row_other [of AUTO_LABELED_CSV_PATH p E header row]] append(2) by (auto simp: keeps_def)
  ultimately show ?case using append.IH csvg.trans by metis
qed (simp add: csv_growsI)

definition torn :: "string list \<Rightarrow> string list list \<Rightarrow> string list list" where
  "torn header rows = filter (\<lambda>r. length r \<noteq> length header) rows"

definition one_per_row :: "scorer \<Rightarrow> bool" where
  "one_per_row c \<longleftrightarrow> (\<forall>fs ps. predict_proba c fs = Inr ps \<longrightarrow> length ps = length fs)"

definition relabelled :: "string list \<Rightarrow> string list \<Rightarrow> bool" where
  "relabelled row r \<longleftrightarrow> (\<exists>l. labeled_row row l = Inr r)"

lemma score_rows_split:
  assumes "score_rows E M rows header s = (Inr (kept, labeled, corrupt), s')" and "one_per_row (rf M)" and "one_per_row (second M)"
  shows "\<exists>src. mset rows = mset kept + mset src + mset (torn header rows) \<and> list_all2 relabelled src labeled"
proof -
  obtain k sc t where scan: "scan_rows E M header rows s = (Inr (k, sc, corrupt), t)" and
    cases: "sc = [] \<and> kept = k \<and> labeled = [] \<or>
      (\<exists>pr ps u. predict_proba (rf M) (map snd sc) = Inr pr \<and> predict_proba (second M) (map snd sc) = Inr ps \<and>
        label_rows M (AUTO_LABEL_CONFIDENCE_THRESHOLD (e_conf E)) (zip sc (zip pr ps)) = Inr (u, labeled) \<and> kept = k @ u)"
    using assms(1) by (auto simp: score_rows_def ret_def lift_res_def elim!: bnd_InrE split: if_splits)
  have all: "mset rows = mset k + mset (map fst sc) + mset (torn header rows)"
    using scan_rows_split [OF scan] by (simp add: torn_def)
  show ?thesis using cases
  proof (elim disjE exE conjE)
    assume "sc = []" "kept = k" "labeled = []"
    then show ?thesis using all by (intro exI [of _ "[]"]) simp
  next
    fix pr ps u
    assume p: "predict_proba (rf M) (map snd sc) = Inr pr" "predict_proba (second M) (map snd sc) = Inr ps"
      and l: "label_rows M (AUTO_LABEL_CONFIDENCE_THRESHOLD (e_conf E)) (zip sc (zip pr ps)) = Inr (u, labeled)" and k: "kept = k @ u"
    have len: "length pr = length sc" "length ps = length sc" using p assms(2,3) by (auto simp: one_per_row_def)
    obtain lab where lab: "mset (map (\<lambda>z. fst (fst z)) (zip sc (zip pr ps))) = mset u + mset (map fst lab)"
      "list_all2 (\<lambda>(row, l) r. labeled_row row l = Inr r) lab labeled"
      using label_rows_split [OF l] by blast
    have "map (\<lambda>z. fst (fst z)) (zip sc (zip pr ps)) = map fst (map fst (zip sc (zip pr ps)))" by simp
    also have "\<dots> = map fst sc" using len by (simp only: map_fst_zip length_zip min.idem)
    finally have fst: "map (\<lambda>z. fst (fst z)) (zip sc (zip pr ps)) = map fst sc" .
    have "list_all2 relabelled (map fst lab) labeled"
      using lab(2) unfolding list.rel_map by (rule list.rel_mono_strong) (auto simp: relabelled_def)
    moreover have "mset rows = mset kept + mset (map fst lab) + mset (torn header rows)"
      using all lab(1) unfolding fst k by simp
    ultimately show ?thesis by blast
  qed
qed

lemma score_rows_csv: "steps (keeps w_csv) (score_rows E M rows header)"
proof -
  have x: "steps (keeps w_csv) (examine_row E M header row)" for row
    unfolding examine_row_def by (auto intro!: keep.rules simp: keeps_def time_time_def steps_def split: sum.split)
  have "steps (keeps w_csv) (scan_rows E M header rows)"
  proof (induction rows)
    case Nil
    show ?case unfolding scan_rows.simps by (rule keep.ret)
  next
    case (Cons row rows)
    show ?case unfolding scan_rows.simps by (intro keep.rules x Cons.IH)
  qed
  then show ?thesis unfolding score_rows_def by (intro keep.rules)
qed

lemma append_labeled_rows:
  assumes "\<forall>n. e_io E n (IO_Csv q)"
  shows "w_csv s q = Some t \<Longrightarrow> \<exists>m. for_each (append_labeled_row E q) rs s =
    (Inr (), s\<lparr>w_io := m, w_csv := (w_csv s)(q := Some (t @ csv_write rs))\<rparr>)"
proof (induction rs arbitrary: s t)
  case Nil
  then have "(w_csv s)(q := Some t) = w_csv s" by auto
  then show ?case by (intro exI [of _ "w_io s"]) (simp add: ret_def csv_write_def)
next
  case (Cons r rs)
  let ?s = "s\<lparr>w_io := Suc (w_io s), w_csv := (w_csv s)(q := Some (t @ csv_write [r]))\<rparr>"
  have first: "append_labeled_row E q r s = (Inr (), ?s)"
    using assms Cons.prems by (simp add: append_labeled_row_def io_ok_def py_eval)
  have "w_csv ?s q = Some (t @ csv_write [r])" by simp
  from Cons.IH [OF this] obtain m where rest: "for_each (append_labeled_row E q) rs ?s =
      (Inr (), ?s\<lparr>w_io := m, w_csv := (w_csv ?s)(q := Some ((t @ csv_write [r]) @ csv_write rs))\<rparr>)" by blast
  have upd: "((w_csv s)(q := x))(q := y) = (w_csv s)(q := y)" for x y by simp
  have "for_each (append_labeled_row E q) (r # rs) s = for_each (append_labeled_row E q) rs ?s" using first by simp
  also have "\<dots> = (Inr (), s\<lparr>w_io := m, w_csv := (w_csv s)(q := Some (t @ csv_write (r # rs)))\<rparr>)"
    unfolding rest by (simp add: upd csv_write_def del: fun_upd_apply)
  finally show ?case by blast
qed

lemma take_snapshot_eq:
  assumes "take_snapshot E p s = (Inr (Some (bytes, header, rows', b)), s')" and "w_csv s p = Some (csv_write (h # rows))"
    and "int (length rows) \<le> AUTO_LABEL_MAX_QUEUE_ROWS (e_conf E)"
  shows "bytes = length (csv_write (h # rows)) \<and> header = h \<and> rows' = rows \<and> \<not> b \<and> w_csv s' = w_csv s"
  using assms
  by (auto simp: take_snapshot_def exclusive_lock_def read_rows_def last_rows_def io_check_def io_ok_def gets_def ret_def lift_res_def
      raise_exn_def elim!: bnd_InrE split: if_splits)

lemma score_snapshot_eq:
  assumes "score_snapshot E M header rows b s = (Inr (Some (kept, labeled)), s')"
    and "int (length rows) \<le> AUTO_LABEL_MAX_QUEUE_ROWS (e_conf E)"
  shows "\<exists>c. score_rows E M rows header s = (Inr (kept, labeled, c), s')"
  using assms by (auto simp: score_snapshot_def trim_csv_rows_def ret_def elim!: bnd_InrE split: if_splits)

lemma swap_in_eq:
  assumes "swap_in E p q (length t) header kept labeled s = (Inr n, s')" and "w_csv s p = Some (t @ csv_write extra)"
    and "\<forall>n. e_io E n (IO_Csv q)" and "w_csv s q = Some u" and "p \<noteq> q"
  shows "w_csv s' p = Some (csv_write (header # kept @ extra)) \<and> w_csv s' q = Some (u @ csv_write labeled) \<and> n = length labeled"
proof -
  obtain m s1 s2 where s1: "s1 = s\<lparr>w_io := m\<rparr>" and l: "for_each (append_labeled_row E q) labeled s1 = (Inr (), s2)" and
    r: "bnd (rewrite_csv E p header (kept @ extra)) (\<lambda>_. ret (length labeled)) s2 = (Inr n, s')"
    using assms(1,2)
    by (auto simp: swap_in_def exclusive_lock_def read_appended_rows_def io_check_def io_ok_def gets_def ret_def raise_exn_def
        elim!: bnd_InrE split: if_splits)
  obtain m' where "s2 = s1\<lparr>w_io := m', w_csv := (w_csv s1)(q := Some (u @ csv_write labeled))\<rparr>"
    using append_labeled_rows [OF assms(3), of s1 u labeled] l assms(4) s1 by auto
  then show ?thesis
    using r assms(5) s1
    by (auto simp: rewrite_csv_def io_check_def io_ok_def modify_def ret_def raise_exn_def elim!: bnd_InrE split: if_splits)
qed

text \<open>
  C33. Labelling loses no row, although the receive loop keeps writing. Take a capture file within the bound and a run of the job
  on it, with any appends by the receive loop between reading the file and replacing it, and a staging file that can be
  written. Then the rows of the file are divided among three: the rows kept, the originals of the rows labelled, and
  the torn rows, whose number of columns is wrong. The new file holds the rows kept followed by all rows appended
  in the meantime, and the staging file has gained exactly the labelled rows.
\<close>

theorem labelling_keeps_rows:
  assumes "w_csv s p = Some (csv_write (h # rows))" and "int (length rows) \<le> AUTO_LABEL_MAX_QUEUE_ROWS (e_conf E)"
    and "w_csv s AUTO_LABELED_CSV_PATH = Some (csv_write (BASE_CSV_HEADER # staged))" and "p \<noteq> AUTO_LABELED_CSV_PATH"
    and "\<forall>n. e_io E n (IO_Csv AUTO_LABELED_CSV_PATH)" and "one_per_row (rf M)" and "one_per_row (second M)"
    and "take_snapshot E p s = (Inr (Some (bytes, header, rows', was_bounded)), s1)"
    and "score_snapshot E M header rows' was_bounded s1 = (Inr (Some (kept, labeled)), s2)"
    and "receiver_appends s2 s3"
    and "swap_in E p AUTO_LABELED_CSV_PATH bytes header kept labeled s3 = (Inr n, s4)"
  shows "\<exists>originals appended.
    mset rows = mset kept + mset originals + mset (torn h rows) \<and> list_all2 relabelled originals labeled \<and>
    w_csv s3 p = Some (csv_write (h # rows @ appended)) \<and> w_csv s4 p = Some (csv_write (h # kept @ appended)) \<and>
    w_csv s4 AUTO_LABELED_CSV_PATH = Some (csv_write (BASE_CSV_HEADER # staged @ labeled)) \<and> n = length labeled"
proof -
  have snap: "bytes = length (csv_write (h # rows))" "header = h" "rows' = rows" "w_csv s1 = w_csv s"
    using take_snapshot_eq [OF assms(8,1,2)] by auto
  obtain c where score: "score_rows E M rows h s1 = (Inr (kept, labeled, c), s2)"
    using score_snapshot_eq [OF assms(9)] assms(2) snap by auto
  have "w_csv s2 = w_csv s1" by (rule keepsD [OF score_rows_csv score])
  then have s3: "csv_grows s2 s3" "w_csv s3 AUTO_LABELED_CSV_PATH = w_csv s AUTO_LABELED_CSV_PATH" "w_csv s2 = w_csv s"
    using receiver_appends_files [OF assms(10)] snap(4) by auto
  then obtain appended where app: "w_csv s3 p = Some (csv_write (h # rows) @ csv_write appended)"
    using assms(1) unfolding csv_grows_def by metis
  obtain originals where orig: "mset rows = mset kept + mset originals + mset (torn h rows)" "list_all2 relabelled originals labeled"
    using score_rows_split [OF score assms(6,7)] by blast
  have "w_csv s4 p = Some (csv_write (h # kept @ appended)) \<and>
      w_csv s4 AUTO_LABELED_CSV_PATH = Some (csv_write (BASE_CSV_HEADER # staged) @ csv_write labeled) \<and> n = length labeled"
    using swap_in_eq [OF assms(11) [unfolded snap(1,2)] app assms(5) _ assms(4)] s3(2) assms(3) by simp
  moreover have "csv_write (x # xs) @ csv_write ys = csv_write (x # xs @ ys)" for x and xs ys :: "string list list"
    by (simp add: csv_write_def)
  ultimately show ?thesis using orig app by (intro exI [of _ originals] exI [of _ appended]) simp
qed

definition lab_capture :: world where
  "lab_capture = (init_world (Fin 0))\<lparr>w_csv := (\<lambda>p. if p = DDOS_CAPTURE_CSV_PATH then Some (csv_write [BASE_CSV_HEADER, lab_row])
     else if p = AUTO_LABELED_CSV_PATH then Some (csv_write [BASE_CSV_HEADER]) else None)\<rparr>"

theorem labelling_keeps_rows_witness:
  "\<exists>s' appended. snd (process_capture_file lab_env lab_models DDOS_CAPTURE_CSV_PATH AUTO_LABELED_CSV_PATH lab_capture) = s' \<and>
     w_csv s' DDOS_CAPTURE_CSV_PATH = Some (csv_write (BASE_CSV_HEADER # appended)) \<and>
     w_csv s' AUTO_LABELED_CSV_PATH = Some (csv_write [BASE_CSV_HEADER, lab_labeled])"
proof -
  let ?p = DDOS_CAPTURE_CSV_PATH and ?n = "length (csv_write [BASE_CSV_HEADER, lab_row])"
  let ?s1 = "lab_capture\<lparr>w_io := 3\<rparr>" and ?s2 = "lab_capture\<lparr>w_io := 3, w_tick := 1\<rparr>"
  have cap: "w_csv lab_capture ?p = Some (csv_write (BASE_CSV_HEADER # [lab_row]))"
    and staged: "w_csv lab_capture AUTO_LABELED_CSV_PATH = Some (csv_write (BASE_CSV_HEADER # []))" by (simp_all add: lab_capture_def)
  have max: "AUTO_LABEL_MAX_QUEUE_ROWS (e_conf lab_env) = 50000" by (simp add: lab_env_def default_settings_def)
  have start: "w_io lab_capture = 0" "w_tick lab_capture = 0" by (simp_all add: lab_capture_def init_world_def)
  have snap: "take_snapshot lab_env ?p lab_capture = (Inr (Some (?n, BASE_CSV_HEADER, [lab_row], False)), ?s1)"
    using cap by (simp add: take_snapshot_def exclusive_lock_def read_rows_def last_rows_def io_check_def io_ok_def py_eval max lab_env_io start)
  have "score_rows lab_env lab_models [lab_row] BASE_CSV_HEADER ?s1 = (Inr ([], [lab_labeled], 0), ?s1\<lparr>w_tick := 1\<rparr>)"
    by (rule lab_score) (simp add: start)
  then have score: "score_snapshot lab_env lab_models BASE_CSV_HEADER [lab_row] False ?s1 = (Inr (Some ([], [lab_labeled])), ?s2)"
    by (simp add: score_snapshot_def trim_csv_rows_def max ret_def)
  have csv: "csv_read (drop ?n (csv_write [BASE_CSV_HEADER, lab_row])) = []" by (simp add: csv_read_def)
  obtain s' where swap: "swap_in lab_env ?p AUTO_LABELED_CSV_PATH ?n BASE_CSV_HEADER [] [lab_labeled] ?s2 = (Inr 1, s')"
    using cap staged csv by (simp add: swap_in_def exclusive_lock_def read_appended_rows_def rewrite_csv_def append_labeled_row_def
        io_check_def io_ok_def py_eval lab_env_io)
  have run: "process_capture_file lab_env lab_models ?p AUTO_LABELED_CSV_PATH lab_capture = (Inr 1, s')"
    using snap score swap by (simp add: process_capture_file_def)
  have one: "one_per_row (rf lab_models)" "one_per_row (second lab_models)" by (auto simp: one_per_row_def lab_models_def)
  have io: "\<forall>n. e_io lab_env n (IO_Csv AUTO_LABELED_CSV_PATH)" by (simp add: lab_env_io)
  have "int (length [lab_row]) \<le> AUTO_LABEL_MAX_QUEUE_ROWS (e_conf lab_env)" by (simp add: max)
  from labelling_keeps_rows [OF cap this staged _ io one snap score receiver_appends.idle swap]
  show ?thesis using run by auto
qed

section \<open>A staging file that cannot be written\<close>

lemma append_labeled_rows_fail:
  assumes "\<forall>n. \<not> e_io E n (IO_Csv q)"
  shows "\<exists>m. for_each (append_labeled_row E q) rs s = (Inr (), s\<lparr>w_io := m\<rparr>)"
proof (induction rs arbitrary: s)
  case Nil
  show ?case by (intro exI [of _ "w_io s"]) (simp add: ret_def)
next
  case (Cons r rs)
  have "append_labeled_row E q r s = (Inr (), s\<lparr>w_io := Suc (w_io s)\<rparr>)"
    using assms by (simp add: append_labeled_row_def io_ok_def py_eval)
  then show ?case using Cons.IH [of "s\<lparr>w_io := Suc (w_io s)\<rparr>"] by simp
qed

text \<open>
  C35. Labelled rows can be lost. If the staging file cannot be written while the capture file can, the labelled rows are removed
  from the capture file all the same, are written nowhere, and are counted as labelled.
\<close>

theorem staging_failure_loses_rows:
  assumes "\<forall>n. \<not> e_io E n (IO_Csv q)" and "\<forall>n. e_io E n (IO_Csv p)" and "p \<noteq> q"
    and "w_csv s p = Some (csv_write (header # rows))"
  shows "\<exists>s'. swap_in E p q (length (csv_write (header # rows))) header kept labeled s = (Inr (length labeled), s') \<and>
    w_csv s' p = Some (csv_write (header # kept)) \<and> w_csv s' q = w_csv s q"
proof -
  have csv: "csv_read (drop (length (csv_write (header # rows))) (csv_write (header # rows))) = []" by (simp add: csv_read_def)
  obtain m where "for_each (append_labeled_row E q) labeled (s\<lparr>w_io := Suc (Suc (w_io s))\<rparr>) = (Inr (), s\<lparr>w_io := m\<rparr>)"
    using append_labeled_rows_fail [OF assms(1), of labeled "s\<lparr>w_io := Suc (Suc (w_io s))\<rparr>"] by auto
  then show ?thesis
    using assms(2-4) csv
    by (simp add: swap_in_def exclusive_lock_def read_appended_rows_def rewrite_csv_def io_check_def io_ok_def py_eval)
qed

theorem staging_failure_loses_rows_witness:
  "let E = lab_env\<lparr>e_io := (\<lambda>_ k. k \<noteq> IO_Csv AUTO_LABELED_CSV_PATH)\<rparr>;
       run = swap_in E DDOS_CAPTURE_CSV_PATH AUTO_LABELED_CSV_PATH (length (csv_write [BASE_CSV_HEADER, lab_row])) BASE_CSV_HEADER [] [lab_labeled] lab_capture
   in fst run = Inr 1 \<and> w_csv (snd run) DDOS_CAPTURE_CSV_PATH = Some (csv_write [BASE_CSV_HEADER]) \<and>
      w_csv (snd run) AUTO_LABELED_CSV_PATH = Some (csv_write [BASE_CSV_HEADER])"
proof -
  let ?E = "lab_env\<lparr>e_io := (\<lambda>_ k. k \<noteq> IO_Csv AUTO_LABELED_CSV_PATH)\<rparr>"
  have "\<exists>s'. swap_in ?E DDOS_CAPTURE_CSV_PATH AUTO_LABELED_CSV_PATH (length (csv_write (BASE_CSV_HEADER # [lab_row]))) BASE_CSV_HEADER [] [lab_labeled] lab_capture =
      (Inr (length [lab_labeled]), s') \<and> w_csv s' DDOS_CAPTURE_CSV_PATH = Some (csv_write (BASE_CSV_HEADER # [])) \<and>
      w_csv s' AUTO_LABELED_CSV_PATH = w_csv lab_capture AUTO_LABELED_CSV_PATH"
    by (rule staging_failure_loses_rows) (simp_all add: lab_capture_def)
  then show ?thesis by (auto simp: Let_def lab_capture_def)
qed

section \<open>The bound on a file\<close>

text \<open>
  With no models the job keeps the last rows of a capture file: the file is replaced by its header and the last rows it has, as many as
  the bound allows, and left alone when it is within the bound. The rows kept are those at the end of the file,
  whatever their timestamps are, since reading the file already drops the others; the sort by timestamp is never
  reached, and the number of dropped rows returned is always zero.
\<close>

theorem trim_keeps_last_rows:
  assumes "w_csv s p = Some (csv_write (header # rows))" and "\<forall>n. e_io E n (IO_Csv p)"
    and "AUTO_LABEL_MAX_QUEUE_ROWS (e_conf E) = int cap"
  shows "\<exists>s'. trim_capture_file_only E p s = (Inr 0, s') \<and>
    w_csv s' p = Some (csv_write (header # drop (length rows - cap) rows)) \<and> (\<forall>q. q \<noteq> p \<longrightarrow> w_csv s' q = w_csv s q)"
  using assms
  by (auto simp: trim_capture_file_only_def read_rows_def last_rows_def trim_csv_rows_def rewrite_csv_def io_check_def io_ok_def py_eval Let_def)

theorem trim_keeps_last_rows_witness:
  "let E = lab_env\<lparr>e_conf := default_settings\<lparr>AUTO_LABEL_MAX_QUEUE_ROWS := 1\<rparr>\<rparr>;
       s = lab_capture\<lparr>w_csv := (\<lambda>_. Some (csv_write [[''t''], [''9''], [''1'']]))\<rparr>
   in w_csv (snd (trim_capture_file_only E DDOS_CAPTURE_CSV_PATH s)) DDOS_CAPTURE_CSV_PATH = Some (csv_write [[''t''], [''1'']])"
proof -
  let ?E = "lab_env\<lparr>e_conf := default_settings\<lparr>AUTO_LABEL_MAX_QUEUE_ROWS := 1\<rparr>\<rparr>"
  let ?s = "lab_capture\<lparr>w_csv := (\<lambda>_. Some (csv_write [[''t''], [''9''], [''1'']]))\<rparr>"
  have "\<exists>s'. trim_capture_file_only ?E DDOS_CAPTURE_CSV_PATH ?s = (Inr 0, s') \<and>
      w_csv s' DDOS_CAPTURE_CSV_PATH = Some (csv_write ([''t''] # drop (length [[''9''], [''1'']] - 1) [[''9''], [''1'']])) \<and>
      (\<forall>q. q \<noteq> DDOS_CAPTURE_CSV_PATH \<longrightarrow> w_csv s' q = w_csv ?s q)"
    by (rule trim_keeps_last_rows) (simp_all add: lab_env_def)
  then show ?thesis by (auto simp: Let_def)
qed

end
