(* ===== verification/Training_Balance.thy ===== *)
theory Training_Balance
  imports Auto_Label
begin

text \<open>
  \<open>stage2/training_balance.py\<close> and \<open>scripts/trim_ddos_class.py\<close>, two implementations of the same trim of a training
  file: DDoS rows are dropped by whole sessions until there are no more of them than of the smaller of the two
  other classes. The first works on rows as lists, the second on the dictionaries of \<open>csv.DictReader\<close>, into which it
  writes the session of a row.

  \<open>random.Random(seed).shuffle\<close> draws from the length of the list alone; \<open>perm n\<close> is the order it gives to \<open>n\<close> elements.
\<close>

section \<open>Rows as lists\<close>

definition NORMAL :: string where "NORMAL = ''0''"
definition FLASH_CROWD :: string where "FLASH_CROWD = ''1''"
definition DDOS :: string where "DDOS = ''2''"

definition SESSION_GAP_SECONDS :: pyfloat where "SESSION_GAP_SECONDS = Fin 30"

fun map_res :: "('a \<Rightarrow> 'b res) \<Rightarrow> 'a list \<Rightarrow> 'b list res" where
  "map_res f [] = Inr []"
| "map_res f (x # xs) =
     (case f x of
        Inl e \<Rightarrow> Inl e
      | Inr y \<Rightarrow> (case map_res f xs of Inl e \<Rightarrow> Inl e | Inr ys \<Rightarrow> Inr (y # ys)))"

definition shuffle :: "(nat \<Rightarrow> nat list) \<Rightarrow> 'a list \<Rightarrow> 'a list" where
  "shuffle perm xs = map (\<lambda>i. xs ! i) (perm (length xs))"

text \<open>The timestamp and the label of a row, read once for the sort and for the pass that follows it.\<close>

definition keyed :: "string list \<Rightarrow> (pyfloat \<times> string \<times> string list) res" where
  "keyed row =
     (case at_index row TIMESTAMP_COL of
        Inl e \<Rightarrow> Inl e
      | Inr v \<Rightarrow>
          (case read_float v of
             Inl e \<Rightarrow> Inl e
           | Inr ts \<Rightarrow> (case at_index row LABEL_COL of Inl e \<Rightarrow> Inl e | Inr label \<Rightarrow> Inr (ts, label, row))))"

definition new_session :: "(pyfloat \<times> 'l) option \<Rightarrow> pyfloat \<Rightarrow> 'l \<Rightarrow> bool" where
  "new_session prev ts label =
     (case prev of
        None \<Rightarrow> True
      | Some (prev_ts, prev_label) \<Rightarrow> flt SESSION_GAP_SECONDS (fsub ts prev_ts) \<or> label \<noteq> prev_label)"

fun tag_rows :: "nat \<Rightarrow> (pyfloat \<times> string) option \<Rightarrow> (pyfloat \<times> string \<times> string list) list \<Rightarrow> (string list \<times> nat) list" where
  "tag_rows session_id prev [] = []"
| "tag_rows session_id prev ((ts, label, row) # rest) =
     (let sid = (if new_session prev ts label then Suc session_id else session_id)
      in (row, sid) # tag_rows sid (Some (ts, label)) rest)"

definition assign_sessions :: "string list list \<Rightarrow> (string list \<times> nat) list res" where
  "assign_sessions rows =
     (case map_res keyed rows of
        Inl e \<Rightarrow> Inl e
      | Inr ks \<Rightarrow> Inr (tag_rows 0 None (py_sorted fst ks)))"

definition add_to_session :: "string list \<times> nat \<Rightarrow> (nat \<times> string list list) list \<Rightarrow> (nat \<times> string list list) list" where
  "add_to_session p d =
     (case p of (row, sid) \<Rightarrow> if row ! LABEL_COL = DDOS then AList.update sid (dict_get d sid [] @ [row]) d else d)"

definition ddos_sessions :: "(string list \<times> nat) list \<Rightarrow> (nat \<times> string list list) list" where
  "ddos_sessions tagged = fold add_to_session tagged []"

fun keep_sessions :: "nat \<Rightarrow> ('k \<times> 'r list) list \<Rightarrow> 'k list \<Rightarrow> 'k list \<times> nat \<Rightarrow> 'k list \<times> nat" where
  "keep_sessions cap sessions [] kept = kept"
| "keep_sessions cap sessions (sid # sids) (ids, n) =
     (let k = length (dict_get sessions sid [])
      in keep_sessions cap sessions sids (if n + k \<le> cap then (sid # ids, n + k) else (ids, n)))"

definition trim_ddos_sessions :: "(nat \<Rightarrow> nat list) \<Rightarrow> string list list \<Rightarrow> (string list list \<times> nat \<times> nat) res" where
  "trim_ddos_sessions perm rows =
     (case map_res (\<lambda>row. at_index row LABEL_COL) rows of
        Inl e \<Rightarrow> Inl e
      | Inr labels \<Rightarrow>
          (let cap = min (count_list labels NORMAL) (count_list labels FLASH_CROWD)
           in if count_list labels DDOS \<le> cap then Inr (rows, 0, cap)
              else case assign_sessions rows of
                Inl e \<Rightarrow> Inl e
              | Inr tagged \<Rightarrow>
                  (let sessions = ddos_sessions tagged;
                       (ids, n) = keep_sessions cap sessions (shuffle perm (map fst sessions)) ([], 0)
                   in Inr (map fst (filter (\<lambda>(row, sid). row ! LABEL_COL \<noteq> DDOS \<or> sid \<in> set ids) tagged),
                           count_list labels DDOS - n, cap))))"

section \<open>Rows as dictionaries\<close>

text \<open>A row of \<open>csv.DictReader\<close>: a column the row does not have is \<open>None\<close>. What a row has beyond the columns is kept by
  the reader under a key that nothing here reads.\<close>

type_synonym dict_row = "(string \<times> string option) list"

definition read_dict_row :: "string list \<Rightarrow> string list \<Rightarrow> dict_row" where
  "read_dict_row fieldnames row =
     fold (\<lambda>(k, v). AList.update k v) (zip fieldnames (map Some row @ replicate (length fieldnames - length row) None)) []"

definition col :: "dict_row \<Rightarrow> string \<Rightarrow> string option res" where
  "col row k = (case map_of row k of None \<Rightarrow> Inl KeyError | Some v \<Rightarrow> Inr v)"

definition SESSION_KEY :: string where "SESSION_KEY = ''_session_id''"

definition dict_keyed :: "dict_row \<Rightarrow> (pyfloat \<times> string option \<times> dict_row) res" where
  "dict_keyed row =
     (case col row ''timestamp'' of
        Inl e \<Rightarrow> Inl e
      | Inr None \<Rightarrow> Inl TypeError
      | Inr (Some v) \<Rightarrow>
          (case read_float v of
             Inl e \<Rightarrow> Inl e
           | Inr ts \<Rightarrow> (case col row ''label'' of Inl e \<Rightarrow> Inl e | Inr label \<Rightarrow> Inr (ts, label, row))))"

fun dict_tag_rows :: "nat \<Rightarrow> (pyfloat \<times> string option) option \<Rightarrow> (pyfloat \<times> string option \<times> dict_row) list \<Rightarrow> dict_row list" where
  "dict_tag_rows session_id prev [] = []"
| "dict_tag_rows session_id prev ((ts, label, row) # rest) =
     (let sid = (if new_session prev ts label then Suc session_id else session_id)
      in AList.update SESSION_KEY (Some (show_nat sid)) row # dict_tag_rows sid (Some (ts, label)) rest)"

definition dict_assign_sessions :: "dict_row list \<Rightarrow> dict_row list res" where
  "dict_assign_sessions rows =
     (case map_res dict_keyed rows of
        Inl e \<Rightarrow> Inl e
      | Inr ks \<Rightarrow> Inr (dict_tag_rows 0 None (py_sorted fst ks)))"

text \<open>The label and the session of a row that has both.\<close>

definition cell :: "dict_row \<Rightarrow> string \<Rightarrow> string option" where
  "cell row k = (case map_of row k of None \<Rightarrow> None | Some v \<Rightarrow> v)"

definition dict_add_to_session :: "dict_row \<Rightarrow> (string option \<times> dict_row list) list \<Rightarrow> (string option \<times> dict_row list) list" where
  "dict_add_to_session row d =
     (if cell row ''label'' = Some DDOS
      then AList.update (cell row SESSION_KEY) (dict_get d (cell row SESSION_KEY) [] @ [row]) d else d)"

definition dict_trim_ddos_sessions :: "(nat \<Rightarrow> nat list) \<Rightarrow> dict_row list \<Rightarrow> (dict_row list \<times> nat \<times> nat) res" where
  "dict_trim_ddos_sessions perm rows0 =
     (case dict_assign_sessions rows0 of
        Inl e \<Rightarrow> Inl e
      | Inr rows \<Rightarrow>
          (let labels = map (\<lambda>row. cell row ''label'') rows;
               cap = min (count_list labels (Some NORMAL)) (count_list labels (Some FLASH_CROWD))
           in if count_list labels (Some DDOS) \<le> cap then Inr (rows, 0, cap)
              else let sessions = fold dict_add_to_session rows [];
                       (ids, n) = keep_sessions cap sessions (shuffle perm (map fst sessions)) ([], 0)
                   in Inr (filter (\<lambda>row. cell row ''label'' \<noteq> Some DDOS \<or> cell row SESSION_KEY \<in> set ids) rows,
                           count_list labels (Some DDOS) - n, cap)))"

text \<open>What the script does with the text of the file: it refuses it, leaves it alone or writes a new one. A blank line is not
  a row for \<open>csv.DictReader\<close>, and \<open>None\<close> is written as an empty field.\<close>

datatype trim_outcome = Refused | Unchanged | Written string

definition trim_script :: "(nat \<Rightarrow> nat list) \<Rightarrow> bool \<Rightarrow> string \<Rightarrow> trim_outcome res" where
  "trim_script perm dry_run text =
     (case csv_read text of
        [] \<Rightarrow> Inr Refused
      | fieldnames # data \<Rightarrow>
          if ''label'' \<notin> set fieldnames \<or> ''timestamp'' \<notin> set fieldnames then Inr Refused
          else (case dict_trim_ddos_sessions perm (map (read_dict_row fieldnames) (filter (\<lambda>r. r \<noteq> []) data)) of
                  Inl e \<Rightarrow> Inl e
                | Inr (trimmed, dropped, cap) \<Rightarrow>
                    Inr (if dropped = 0 \<or> dry_run then Unchanged
                         else Written (csv_write (fieldnames #
                           map (\<lambda>row. map (\<lambda>k. case cell row k of None \<Rightarrow> [] | Some v \<Rightarrow> v) fieldnames) trimmed)))))"

end
