(* ===== verification/Training_Balance_Laws.thy ===== *)
theory Training_Balance_Laws
  imports Training_Balance
begin

text \<open>
  The laws of trimming the training file: the dashboard's trim never leaves more attack rows than the cap and keeps every
  other row, and the terminal script, which works on dictionaries instead of lists, writes the same file.
\<close>

section \<open>The trim respects the cap\<close>

abbreviation label_of :: "string list \<Rightarrow> string" where
  "label_of row \<equiv> row ! LABEL_COL"

lemma map_res_labels: "map_res (\<lambda>row. at_index row LABEL_COL) rows = Inr labels \<Longrightarrow> labels = map label_of rows"
  by (induction rows arbitrary: labels) (auto simp: at_index_def split: sum.splits if_splits)

lemma map_res_labels_ok: "\<forall>row \<in> set rows. LABEL_COL < length row \<Longrightarrow> map_res (\<lambda>row. at_index row LABEL_COL) rows = Inr (map label_of rows)"
  by (induction rows) (auto simp: at_index_def)

lemma map_res_labels_len: "map_res (\<lambda>row. at_index row LABEL_COL) rows = Inr labels \<Longrightarrow> row \<in> set rows \<Longrightarrow> LABEL_COL < length row"
  by (induction rows arbitrary: labels) (auto simp: at_index_def split: sum.splits if_splits)

lemma keyed_row: "keyed row = Inr (ts, l, r) \<Longrightarrow> r = row \<and> l = label_of row"
  by (auto simp: keyed_def at_index_def split: sum.splits if_splits)

lemma map_res_keyed: "map_res keyed rows = Inr ks \<Longrightarrow> map (\<lambda>(ts, l, row). row) ks = rows \<and> (\<forall>(ts, l, row) \<in> set ks. l = label_of row)"
  by (induction rows arbitrary: ks) (auto split: sum.splits dest: keyed_row)

lemma tag_rows_rows: "map fst (tag_rows sid prev ks) = map (\<lambda>(ts, l, row). row) ks"
  by (induction ks arbitrary: sid prev) (auto simp: Let_def)

lemma assign_sessions_rows: "assign_sessions rows = Inr tagged \<Longrightarrow> mset (map fst tagged) = mset rows"
  unfolding assign_sessions_def
  by (auto split: sum.splits simp del: mset_map simp add: tag_rows_rows dest!: map_res_keyed) (metis mset_map mset_py_sorted)

lemma ddos_sessions_fold:
  "dict_get (fold add_to_session tagged d) sid [] = dict_get d sid [] @ map fst (filter (\<lambda>(row, s). s = sid \<and> label_of row = DDOS) tagged)"
  by (induction tagged arbitrary: d) (auto simp: add_to_session_def split: if_splits)

lemma ddos_sessions_get:
  "dict_get (ddos_sessions tagged) sid [] = map fst (filter (\<lambda>(row, s). s = sid \<and> label_of row = DDOS) tagged)"
  using ddos_sessions_fold [of tagged "[]" sid] by (simp add: ddos_sessions_def dict_get_def)

lemma ddos_sessions_distinct: "distinct (map fst d) \<Longrightarrow> distinct (map fst (fold add_to_session tagged d))"
  by (induction tagged arbitrary: d) (auto simp: add_to_session_def distinct_update split: prod.split)

definition is_permutation :: "(nat \<Rightarrow> nat list) \<Rightarrow> bool" where
  "is_permutation perm \<longleftrightarrow> (\<forall>n. distinct (perm n) \<and> set (perm n) = {..<n})"

lemma shuffle_distinct: "is_permutation perm \<Longrightarrow> distinct xs \<Longrightarrow> distinct (shuffle perm xs) \<and> set (shuffle perm xs) = set xs"
  unfolding is_permutation_def shuffle_def
  by (auto simp: distinct_map inj_on_def nth_eq_iff_index_eq) (metis imageI in_set_conv_nth lessThan_iff)

lemma keep_sessions_sum:
  fixes d :: "('k \<times> 'r list) list"
  assumes "keep_sessions cap d sids (ids0, n0) = (ids, n)" and "distinct (ids0 @ sids)"
    and "n0 = (\<Sum>i \<leftarrow> ids0. length (dict_get d i []))" and "n0 \<le> cap"
  shows "n = (\<Sum>i \<leftarrow> ids. length (dict_get d i [])) \<and> n \<le> cap \<and> distinct ids \<and> set ids \<subseteq> set ids0 \<union> set sids"
  using assms
proof (induction sids arbitrary: ids0 n0)
  case (Cons sid sids)
  let ?k = "length (dict_get d sid [])"
  show ?case
  proof (cases "n0 + ?k \<le> cap")
    case True
    then have "keep_sessions cap d sids (sid # ids0, n0 + ?k) = (ids, n)" using Cons.prems(1) by simp
    from Cons.IH [OF this] show ?thesis using Cons.prems True by auto
  next
    case False
    then have "keep_sessions cap d sids (ids0, n0) = (ids, n)" using Cons.prems(1) by simp
    from Cons.IH [OF this] show ?thesis using Cons.prems by auto
  qed
qed simp

lemma length_filter_ids:
  "distinct ids \<Longrightarrow> length (filter (\<lambda>(row, s). s \<in> set ids \<and> P row) tagged) =
     (\<Sum>i \<leftarrow> ids. length (filter (\<lambda>(row, s). s = i \<and> P row) tagged))"
proof (induction ids)
  case (Cons i ids)
  have "length (filter (\<lambda>(row, s). s \<in> set (i # ids) \<and> P row) tagged) =
      length (filter (\<lambda>(row, s). s = i \<and> P row) tagged) + length (filter (\<lambda>(row, s). s \<in> set ids \<and> P row) tagged)"
    using Cons.prems by (induction tagged) auto
  then show ?case using Cons by simp
qed simp

lemma count_label: "count_list (map label_of rows) l = length (filter (\<lambda>row. label_of row = l) rows)"
  by (induction rows) auto

lemma count_other_labels:
  assumes "mset (filter (\<lambda>row. label_of row \<noteq> DDOS) kept) = mset (filter (\<lambda>row. label_of row \<noteq> DDOS) rows)" and "l \<noteq> DDOS"
  shows "count_list (map label_of kept) l = count_list (map label_of rows) l"
proof -
  have "count_list (map label_of rs) l = size (filter_mset (\<lambda>row. label_of row = l) (mset (filter (\<lambda>row. label_of row \<noteq> DDOS) rs)))" for rs
    unfolding count_label using assms(2) by (induction rs) auto
  then show ?thesis using assms(1) by metis
qed

lemma kept_rows:
  fixes ids :: "nat list"
  assumes "mset (map fst tagged) = mset rows"
  defines "kept \<equiv> map fst (filter (\<lambda>(row, sid). label_of row \<noteq> DDOS \<or> sid \<in> set ids) tagged)"
  shows "mset (filter (\<lambda>row. label_of row \<noteq> DDOS) kept) = mset (filter (\<lambda>row. label_of row \<noteq> DDOS) rows)"
    and "set kept \<subseteq> set rows" and "count_list (map label_of kept) DDOS \<le> count_list (map label_of rows) DDOS"
proof -
  have "filter (\<lambda>row. label_of row \<noteq> DDOS) kept = filter (\<lambda>row. label_of row \<noteq> DDOS) (map fst tagged)"
    unfolding kept_def by (simp add: filter_map comp_def) (metis (mono_tags, lifting) case_prod_unfold)
  then show "mset (filter (\<lambda>row. label_of row \<noteq> DDOS) kept) = mset (filter (\<lambda>row. label_of row \<noteq> DDOS) rows)" using assms(1) by (metis mset_filter)
  show "set kept \<subseteq> set rows" using mset_eq_setD [OF assms(1)] by (auto simp: kept_def)
  have "count_list (map label_of (map fst (filter P xs))) l \<le> count_list (map label_of (map fst xs)) l" for P and xs :: "(string list \<times> nat) list" and l
    by (induction xs) auto
  then have "count_list (map label_of kept) DDOS \<le> count_list (map label_of (map fst tagged)) DDOS" unfolding kept_def by blast
  also have "\<dots> = count_list (map label_of rows) DDOS" unfolding count_label using assms(1) by (metis mset_filter size_mset)
  finally show "count_list (map label_of kept) DDOS \<le> count_list (map label_of rows) DDOS" .
qed

lemma kept_ddos:
  assumes "is_permutation perm"
    and "keep_sessions cap (ddos_sessions tagged) (shuffle perm (map fst (ddos_sessions tagged))) ([], 0) = (ids, n)"
  shows "count_list (map label_of (map fst (filter (\<lambda>(row, sid). label_of row \<noteq> DDOS \<or> sid \<in> set ids) tagged))) DDOS = n \<and> n \<le> cap"
proof -
  have "distinct (shuffle perm (map fst (ddos_sessions tagged)))"
    using shuffle_distinct [OF assms(1), of "map fst (ddos_sessions tagged)"] ddos_sessions_distinct [of "[]" tagged]
    unfolding ddos_sessions_def by simp
  then have n: "n = (\<Sum>i \<leftarrow> ids. length (dict_get (ddos_sessions tagged) i []))" "n \<le> cap" "distinct ids"
    using keep_sessions_sum [OF assms(2)] by auto
  have "count_list (map label_of (map fst (filter (\<lambda>(row, sid). label_of row \<noteq> DDOS \<or> sid \<in> set ids) tagged))) DDOS =
      length (filter (\<lambda>(row, s). s \<in> set ids \<and> label_of row = DDOS) tagged)"
    unfolding count_label by (simp add: filter_map comp_def) (metis (mono_tags, lifting) case_prod_unfold)
  also have "\<dots> = n" using length_filter_ids [OF n(3), of "\<lambda>row. label_of row = DDOS" tagged] n(1) by (simp add: ddos_sessions_get)
  finally show ?thesis using n(2) by simp
qed

text \<open>
  C37. The trim does what it is for, and only that. Whatever order the shuffle gives the sessions: afterwards there are no more DDoS rows than
  rows of the smaller of the two other classes, every row of another class is still there, the number reported
  as dropped is the number of DDoS rows that are gone, and trimming the result again changes nothing.
\<close>

theorem trim_caps_ddos:
  assumes "is_permutation perm" and "trim_ddos_sessions perm rows = Inr (kept, dropped, cap)"
  shows "count_list (map label_of kept) DDOS \<le> cap \<and>
    cap = min (count_list (map label_of rows) NORMAL) (count_list (map label_of rows) FLASH_CROWD) \<and>
    count_list (map label_of kept) DDOS + dropped = count_list (map label_of rows) DDOS \<and>
    mset (filter (\<lambda>row. label_of row \<noteq> DDOS) kept) = mset (filter (\<lambda>row. label_of row \<noteq> DDOS) rows) \<and>
    trim_ddos_sessions perm kept = Inr (kept, 0, cap)"
proof -
  have ok: "map_res (\<lambda>row. at_index row LABEL_COL) rows = Inr (map label_of rows)"
    using assms(2) map_res_labels unfolding trim_ddos_sessions_def by (auto split: sum.splits)
  have long: "\<forall>row \<in> set rows. LABEL_COL < length row" using map_res_labels_len [OF ok] by blast
  let ?c = "\<lambda>rs l. count_list (map label_of rs) l"
  have cap: "cap = min (?c rows NORMAL) (?c rows FLASH_CROWD)"
    using assms(2) unfolding trim_ddos_sessions_def ok by (auto simp: Let_def split: if_splits sum.splits prod.splits)
  show ?thesis
  proof (cases "?c rows DDOS \<le> cap")
    case True
    then show ?thesis using assms(2) cap ok by (auto simp: trim_ddos_sessions_def)
  next
    case False
    obtain tagged ids n where tagged: "assign_sessions rows = Inr tagged" and
      keep: "keep_sessions cap (ddos_sessions tagged) (shuffle perm (map fst (ddos_sessions tagged))) ([], 0) = (ids, n)" and
      kept: "kept = map fst (filter (\<lambda>(row, sid). label_of row \<noteq> DDOS \<or> sid \<in> set ids) tagged)" and dropped: "dropped = ?c rows DDOS - n"
      using assms(2) False cap unfolding trim_ddos_sessions_def ok by (auto simp: Let_def split: if_splits sum.splits prod.splits)
    have ddos: "?c kept DDOS = n" "n \<le> cap" using kept_ddos [OF assms(1) keep] by (simp_all add: kept)
    note rest = kept_rows [OF assign_sessions_rows [OF tagged], of ids, folded kept]
    have "\<forall>row \<in> set kept. LABEL_COL < length row" using rest(2) long by blast
    then have "trim_ddos_sessions perm kept = Inr (kept, 0, cap)"
      using ddos count_other_labels [OF rest(1), of NORMAL] count_other_labels [OF rest(1), of FLASH_CROWD]
      by (simp add: trim_ddos_sessions_def map_res_labels_ok cap NORMAL_def FLASH_CROWD_def DDOS_def)
    then show ?thesis using ddos rest cap dropped by simp
  qed
qed

theorem trim_caps_ddos_witness:
  "let row = (\<lambda>t l. replicate 11 [] @ [t, l]);
       rows = [row ''1'' ''0'', row ''2'' ''1'', row ''3'' ''2'', row ''100'' ''2'', row ''4'' ''2'']
   in trim_ddos_sessions (\<lambda>n. rev [0..<n]) rows = Inr ([row ''1'' ''0'', row ''2'' ''1'', row ''100'' ''2''], 2, 1) \<and>
      trim_ddos_sessions (\<lambda>n. rev [0..<n]) [row ''1'' ''0'', row ''2'' ''1'', row ''100'' ''2''] =
        Inr ([row ''1'' ''0'', row ''2'' ''1'', row ''100'' ''2''], 0, 1)"
proof -
  let ?row = "\<lambda>t l. replicate 11 [] @ [t, l]" and ?perm = "\<lambda>n. rev [0..<n]"
  have perm: "is_permutation ?perm" by (auto simp: is_permutation_def)
  have run: "trim_ddos_sessions ?perm [?row ''1'' ''0'', ?row ''2'' ''1'', ?row ''3'' ''2'', ?row ''100'' ''2'', ?row ''4'' ''2''] =
      Inr ([?row ''1'' ''0'', ?row ''2'' ''1'', ?row ''100'' ''2''], 2, 1)"
    by code_simp
  have "trim_ddos_sessions ?perm [?row ''1'' ''0'', ?row ''2'' ''1'', ?row ''100'' ''2''] =
      Inr ([?row ''1'' ''0'', ?row ''2'' ''1'', ?row ''100'' ''2''], 0, 1)"
    using trim_caps_ddos [OF perm run] by (elim conjE)
  with run show ?thesis unfolding Let_def by (rule conjI)
qed

section \<open>The button and the script agree\<close>

definition as_dict :: "string list \<Rightarrow> dict_row" where
  "as_dict row = zip BASE_CSV_HEADER (map Some row)"

definition with_session :: "string list \<Rightarrow> nat \<Rightarrow> dict_row" where
  "with_session row sid = AList.update SESSION_KEY (Some (show_nat sid)) (as_dict row)"

definition full_row :: "string list \<Rightarrow> bool" where
  "full_row row \<longleftrightarrow> length row = length BASE_CSV_HEADER"

lemma header_distinct: "distinct BASE_CSV_HEADER"
  by code_simp

lemma fold_update_append:
  "distinct (map fst d @ map fst kvs) \<Longrightarrow> fold (\<lambda>(k, v). AList.update k v) kvs d = d @ kvs"
proof (induction kvs arbitrary: d)
  case (Cons kv kvs)
  obtain k v where kv: "kv = (k, v)" by fastforce
  have "AList.update k v d = d @ [(k, v)]" if "k \<notin> fst ` set d" for d
    using that by (induction d) auto
  then have "AList.update k v d = d @ [(k, v)]" using Cons.prems kv by auto
  then show ?case using Cons kv by simp
qed simp

lemma read_full_row: "full_row row \<Longrightarrow> read_dict_row BASE_CSV_HEADER row = as_dict row"
  unfolding read_dict_row_def as_dict_def full_row_def
  using fold_update_append [of "[]" "zip BASE_CSV_HEADER (map Some row)"] header_distinct by simp

lemma cell_nth: "full_row row \<Longrightarrow> i < length BASE_CSV_HEADER \<Longrightarrow> map_of (as_dict row) (BASE_CSV_HEADER ! i) = Some (Some (row ! i))"
  unfolding as_dict_def full_row_def by (simp add: map_of_zip_nth header_distinct)

lemma columns: "BASE_CSV_HEADER ! TIMESTAMP_COL = ''timestamp''" "BASE_CSV_HEADER ! LABEL_COL = ''label''"
  "TIMESTAMP_COL < length BASE_CSV_HEADER" "LABEL_COL < length BASE_CSV_HEADER" "SESSION_KEY \<notin> set BASE_CSV_HEADER"
  by code_simp+

lemma as_dict_cols:
  assumes "full_row row"
  shows "map_of (as_dict row) ''timestamp'' = Some (Some (row ! TIMESTAMP_COL))" "map_of (as_dict row) ''label'' = Some (Some (label_of row))"
  using cell_nth [OF assms columns(3)] cell_nth [OF assms columns(4)] by (simp_all add: columns(1,2))

lemma cell_with_session:
  assumes "full_row row"
  shows "cell (with_session row sid) ''label'' = Some (label_of row)" "cell (with_session row sid) SESSION_KEY = Some (show_nat sid)"
    "map (\<lambda>k. case cell (with_session row sid) k of None \<Rightarrow> [] | Some v \<Rightarrow> v) BASE_CSV_HEADER = row"
proof -
  have ne: "''label'' \<noteq> SESSION_KEY" by (simp add: SESSION_KEY_def)
  show "cell (with_session row sid) ''label'' = Some (label_of row)" "cell (with_session row sid) SESSION_KEY = Some (show_nat sid)"
    using ne as_dict_cols [OF assms] by (simp_all add: cell_def with_session_def update_conv')
  show "map (\<lambda>k. case cell (with_session row sid) k of None \<Rightarrow> [] | Some v \<Rightarrow> v) BASE_CSV_HEADER = row"
  proof (rule nth_equalityI)
    fix i
    assume "i < length (map (\<lambda>k. case cell (with_session row sid) k of None \<Rightarrow> [] | Some v \<Rightarrow> v) BASE_CSV_HEADER)"
    then have i: "i < length BASE_CSV_HEADER" by simp
    then have "BASE_CSV_HEADER ! i \<noteq> SESSION_KEY" using columns(5) nth_mem by metis
    then show "map (\<lambda>k. case cell (with_session row sid) k of None \<Rightarrow> [] | Some v \<Rightarrow> v) BASE_CSV_HEADER ! i = row ! i"
      using i cell_nth [OF assms i] by (simp add: cell_def with_session_def update_conv')
  qed (use assms in \<open>simp add: full_row_def\<close>)
qed

lemma insort_map: "insort f (g x) (map g xs) = map g (insort (\<lambda>x. f (g x)) x xs)"
  by (induction xs) auto

lemma py_sorted_map: "py_sorted f (map g xs) = map g (py_sorted (\<lambda>x. f (g x)) xs)"
  unfolding py_sorted_def by (induction xs) (simp_all add: insort_map)

definition dict_key :: "pyfloat \<times> string \<times> string list \<Rightarrow> pyfloat \<times> string option \<times> dict_row" where
  "dict_key k = (case k of (ts, label, row) \<Rightarrow> (ts, Some label, as_dict row))"

lemma dict_keyed_rows:
  assumes "\<forall>row \<in> set rows. full_row row"
  shows "map_res dict_keyed (map as_dict rows) = map_sum id (map dict_key) (map_res keyed rows)"
proof -
  have "dict_keyed (as_dict row) = map_sum id dict_key (keyed row)" if "full_row row" for row
    using as_dict_cols [OF that] that columns(3,4)
    by (auto simp: dict_keyed_def keyed_def col_def at_index_def full_row_def dict_key_def split: sum.split)
  then show ?thesis using assms by (induction rows) (auto split: sum.split)
qed

lemma dict_tags:
  "dict_tag_rows sid (map_option (\<lambda>(t, l). (t, Some l)) prev) (map dict_key ks) = map (\<lambda>(row, sid). with_session row sid) (tag_rows sid prev ks)"
proof (induction ks arbitrary: sid prev)
  case (Cons k ks)
  obtain ts l row where k: "k = (ts, l, row)" by (metis surj_pair)
  have "new_session (map_option (\<lambda>(t, l). (t, Some l)) prev) ts (Some l) = new_session prev ts l"
    by (auto simp: new_session_def split: option.split)
  then show ?case using Cons.IH [of _ "Some (ts, l)"] by (simp add: k dict_key_def Let_def with_session_def)
qed simp

text \<open>Sessions under their two kinds of key.\<close>

definition dict_sessions :: "(nat \<times> string list list) list \<Rightarrow> (string option \<times> dict_row list) list" where
  "dict_sessions d = map (\<lambda>(sid, rows). (Some (show_nat sid), map (\<lambda>row. with_session row sid) rows)) d"

lemma dict_sessions_get: "dict_get (dict_sessions d) (Some (show_nat sid)) [] = map (\<lambda>row. with_session row sid) (dict_get d sid [])"
  by (induction d) (auto simp: dict_sessions_def dict_get_def dest: show_nat_inj)

lemma dict_sessions_update:
  "AList.update (Some (show_nat sid)) (map (\<lambda>row. with_session row sid) rows) (dict_sessions d) = dict_sessions (AList.update sid rows d)"
  by (induction d) (auto simp: dict_sessions_def dest: show_nat_inj)

lemma dict_add_rows:
  "\<forall>(row, sid) \<in> set tagged. full_row row \<Longrightarrow>
     fold dict_add_to_session (map (\<lambda>(row, sid). with_session row sid) tagged) (dict_sessions d) = dict_sessions (fold add_to_session tagged d)"
proof (induction tagged arbitrary: d)
  case (Cons p tagged)
  obtain row sid where p: "p = (row, sid)" by fastforce
  have row: "full_row row" using Cons.prems p by simp
  have "dict_add_to_session (with_session row sid) (dict_sessions d) = dict_sessions (add_to_session p d)"
    using dict_sessions_update [of sid "dict_get d sid [] @ [row]" d]
    by (simp add: dict_add_to_session_def add_to_session_def p cell_with_session [OF row] dict_sessions_get)
  then show ?case using Cons p by simp
qed simp

lemma shuffle_map: "is_permutation perm \<Longrightarrow> shuffle perm (map g xs) = map g (shuffle perm xs)"
  unfolding shuffle_def is_permutation_def by (auto simp: lessThan_def)

lemma keep_dict_sessions:
  "keep_sessions cap (dict_sessions d) (map (\<lambda>i. Some (show_nat i)) sids) (map (\<lambda>i. Some (show_nat i)) ids, n) =
     (case keep_sessions cap d sids (ids, n) of (ids', n') \<Rightarrow> (map (\<lambda>i. Some (show_nat i)) ids', n'))"
proof (induction sids arbitrary: ids n)
  case (Cons sid sids)
  show ?case
    using Cons.IH [of "sid # ids"] Cons.IH [of ids] by (simp add: Let_def dict_sessions_get)
qed simp

lemma count_list_perm: "mset xs = mset ys \<Longrightarrow> count_list xs a = count_list ys a"
  by (metis count_mset)

lemma count_list_Some: "count_list (map Some xs) (Some a) = count_list xs a"
  by (induction xs) auto

lemma tagged_full:
  assumes "assign_sessions rows = Inr tagged" and "\<forall>row \<in> set rows. full_row row"
  shows "\<forall>(row, sid) \<in> set tagged. full_row row"
proof -
  have "fst ` set tagged = set rows" using mset_eq_setD [OF assign_sessions_rows [OF assms(1)]] by simp
  then show ?thesis using assms(2) by force
qed

abbreviation annotate :: "string list \<times> nat \<Rightarrow> dict_row" where
  "annotate \<equiv> \<lambda>(row, sid). with_session row sid"

lemma dict_assigned:
  assumes full: "\<forall>row \<in> set rows. full_row row" and tagged: "assign_sessions rows = Inr tagged"
  shows "dict_assign_sessions (map as_dict rows) = Inr (map annotate tagged)"
    and "count_list (map (\<lambda>row. cell row ''label'') (map annotate tagged)) (Some l) = count_list (map label_of rows) l"
proof -
  obtain ks where ks: "map_res keyed rows = Inr ks" "tagged = tag_rows 0 None (py_sorted fst ks)"
    using tagged by (auto simp: assign_sessions_def split: sum.splits)
  have fst: "fst (dict_key k) = fst k" for k by (simp add: dict_key_def split: prod.split)
  show "dict_assign_sessions (map as_dict rows) = Inr (map annotate tagged)"
    using dict_tags [of 0 None "py_sorted fst ks"]
    by (simp add: dict_assign_sessions_def dict_keyed_rows [OF full] ks py_sorted_map fst)
  have labels: "map (\<lambda>row. cell row ''label'') (map annotate tagged) = map Some (map label_of (map fst tagged))"
    using tagged_full [OF tagged full] cell_with_session(1) by (auto simp: comp_def)
  show "count_list (map (\<lambda>row. cell row ''label'') (map annotate tagged)) (Some l) = count_list (map label_of rows) l"
    unfolding labels count_list_Some by (rule count_list_perm) (metis assign_sessions_rows [OF tagged] mset_map)
qed

lemma dict_trim_eq:
  assumes perm: "is_permutation perm" and full: "\<forall>row \<in> set rows. full_row row" and tagged: "assign_sessions rows = Inr tagged"
    and more: "\<not> count_list (map label_of rows) DDOS \<le> min (count_list (map label_of rows) NORMAL) (count_list (map label_of rows) FLASH_CROWD)"
  shows "\<exists>kept dropped cap. trim_ddos_sessions perm rows = Inr (map fst kept, dropped, cap) \<and> set kept \<subseteq> set tagged \<and>
    dict_trim_ddos_sessions perm (map as_dict rows) = Inr (map (\<lambda>(row, sid). with_session row sid) kept, dropped, cap)"
proof -
  have ft: "\<forall>(row, sid) \<in> set tagged. full_row row" by (rule tagged_full [OF tagged full])
  have ok: "map_res (\<lambda>row. at_index row LABEL_COL) rows = Inr (map label_of rows)"
    using full columns(4) by (intro map_res_labels_ok) (auto simp: full_row_def)
  let ?cap = "min (count_list (map label_of rows) NORMAL) (count_list (map label_of rows) FLASH_CROWD)"
  obtain ids n where keep: "keep_sessions ?cap (ddos_sessions tagged) (shuffle perm (map fst (ddos_sessions tagged))) ([], 0) = (ids, n)"
    by fastforce
  have sess: "fold dict_add_to_session (map annotate tagged) [] = dict_sessions (ddos_sessions tagged)"
    using dict_add_rows [OF ft, of "[]"] by (simp add: ddos_sessions_def dict_sessions_def)
  have keys: "map fst (dict_sessions (ddos_sessions tagged)) = map (\<lambda>i. Some (show_nat i)) (map fst (ddos_sessions tagged))"
    by (auto simp: dict_sessions_def)
  have shuf: "shuffle perm (map fst (dict_sessions (ddos_sessions tagged))) =
      map (\<lambda>i. Some (show_nat i)) (shuffle perm (map fst (ddos_sessions tagged)))"
    unfolding keys by (rule shuffle_map [OF perm])
  have dkeep: "keep_sessions ?cap (dict_sessions (ddos_sessions tagged))
      (shuffle perm (map fst (dict_sessions (ddos_sessions tagged)))) ([], 0) = (map (\<lambda>i. Some (show_nat i)) ids, n)"
    unfolding shuf using keep_dict_sessions [of ?cap "ddos_sessions tagged" "shuffle perm (map fst (ddos_sessions tagged))" "[]" 0]
    by (simp add: keep)
  let ?kept = "filter (\<lambda>(row, sid). label_of row \<noteq> DDOS \<or> sid \<in> set ids) tagged"
  have flt: "filter (\<lambda>row. cell row ''label'' \<noteq> Some DDOS \<or> cell row SESSION_KEY \<in> set (map (\<lambda>i. Some (show_nat i)) ids)) (map annotate tagged) =
      map annotate ?kept"
    unfolding filter_map
  proof (intro arg_cong [where f = "map annotate"] filter_cong refl)
    fix x
    assume "x \<in> set tagged"
    then obtain row sid where x: "x = (row, sid)" "full_row row" using ft by (cases x) auto
    show "((\<lambda>row. cell row ''label'' \<noteq> Some DDOS \<or> cell row SESSION_KEY \<in> set (map (\<lambda>i. Some (show_nat i)) ids)) \<circ> annotate) x =
        (case x of (row, sid) \<Rightarrow> label_of row \<noteq> DDOS \<or> sid \<in> set ids)"
      using cell_with_session(1,2) [OF x(2), of sid] by (auto simp: x(1) dest: show_nat_inj)
  qed
  have "dict_trim_ddos_sessions perm (map as_dict rows) = Inr (map annotate ?kept, count_list (map label_of rows) DDOS - n, ?cap)"
    unfolding dict_trim_ddos_sessions_def dict_assigned(1) [OF full tagged] Let_def sum.case dict_assigned(2) [OF full tagged]
      if_not_P [OF more] sess dkeep prod.case flt ..
  moreover have "trim_ddos_sessions perm rows = Inr (map fst ?kept, count_list (map label_of rows) DDOS - n, ?cap)"
    unfolding trim_ddos_sessions_def ok Let_def sum.case if_not_P [OF more] tagged keep prod.case ..
  ultimately show ?thesis by (intro exI [of _ ?kept]) auto
qed

lemma keyed_ok:
  assumes "full_row row" and "\<exists>x. read_float (row ! TIMESTAMP_COL) = Inr x"
  shows "\<exists>k. keyed row = Inr k"
  using assms columns(3,4) by (auto simp: keyed_def at_index_def full_row_def)

text \<open>
  C38. The dashboard button and the terminal script leave the same file. On a training file with the base columns, complete rows and
  numeric timestamps, and with the same order of the shuffle, the script writes exactly the rows the button's
  trim returns, and leaves the file alone exactly when the button does.
\<close>

theorem script_agrees_with_button:
  assumes "is_permutation perm" and "\<forall>row \<in> set rows. full_row row \<and> (\<exists>x. read_float (row ! TIMESTAMP_COL) = Inr x)"
  shows "\<exists>kept dropped cap. trim_ddos_sessions perm rows = Inr (kept, dropped, cap) \<and>
    trim_script perm False (csv_write (BASE_CSV_HEADER # rows)) =
      Inr (if dropped = 0 then Unchanged else Written (csv_write (BASE_CSV_HEADER # kept)))"
proof -
  have full: "\<forall>row \<in> set rows. full_row row" using assms(2) by blast
  have "\<exists>ks. map_res keyed rows = Inr ks" using assms(2) keyed_ok by (induction rows) (auto, fastforce)
  then obtain tagged where tagged: "assign_sessions rows = Inr tagged" by (auto simp: assign_sessions_def)
  have ok: "map_res (\<lambda>row. at_index row LABEL_COL) rows = Inr (map label_of rows)"
    using full columns(4) by (intro map_res_labels_ok) (auto simp: full_row_def)
  have data: "map (read_dict_row BASE_CSV_HEADER) (filter (\<lambda>r. r \<noteq> []) rows) = map as_dict rows"
    using full read_full_row by (induction rows) (auto simp: full_row_def BASE_CSV_HEADER_def)
  have cols: "''label'' \<in> set BASE_CSV_HEADER" "''timestamp'' \<in> set BASE_CSV_HEADER" by code_simp+
  have script: "trim_script perm False (csv_write (BASE_CSV_HEADER # rows)) =
      (case dict_trim_ddos_sessions perm (map as_dict rows) of Inl e \<Rightarrow> Inl e | Inr (trimmed, dropped, cap) \<Rightarrow>
        Inr (if dropped = 0 then Unchanged else Written (csv_write (BASE_CSV_HEADER #
          map (\<lambda>row. map (\<lambda>k. case cell row k of None \<Rightarrow> [] | Some v \<Rightarrow> v) BASE_CSV_HEADER) trimmed))))"
    using cols by (simp add: trim_script_def data split: sum.split)
  show ?thesis
  proof (cases "count_list (map label_of rows) DDOS \<le> min (count_list (map label_of rows) NORMAL) (count_list (map label_of rows) FLASH_CROWD)")
    case True
    have "dict_trim_ddos_sessions perm (map as_dict rows) = Inr (map annotate tagged, 0,
        min (count_list (map label_of rows) NORMAL) (count_list (map label_of rows) FLASH_CROWD))"
      unfolding dict_trim_ddos_sessions_def dict_assigned(1) [OF full tagged] Let_def sum.case dict_assigned(2) [OF full tagged]
        if_P [OF True] ..
    moreover have "trim_ddos_sessions perm rows = Inr (rows, 0,
        min (count_list (map label_of rows) NORMAL) (count_list (map label_of rows) FLASH_CROWD))"
      unfolding trim_ddos_sessions_def ok Let_def sum.case if_P [OF True] ..
    ultimately show ?thesis unfolding script by simp
  next
    case False
    obtain kept dropped cap where k: "trim_ddos_sessions perm rows = Inr (map fst kept, dropped, cap)" "set kept \<subseteq> set tagged"
      "dict_trim_ddos_sessions perm (map as_dict rows) = Inr (map (\<lambda>(row, sid). with_session row sid) kept, dropped, cap)"
      using dict_trim_eq [OF assms(1) full tagged False] by blast
    have written: "map (\<lambda>row. map (\<lambda>k. case cell row k of None \<Rightarrow> [] | Some v \<Rightarrow> v) BASE_CSV_HEADER) (map (\<lambda>(row, sid). with_session row sid) kept) =
        map fst kept"
      unfolding map_map
    proof (rule map_cong [OF refl])
      fix x
      assume x: "x \<in> set kept"
      have "full_row (fst x)" using bspec [OF tagged_full [OF tagged full] subsetD [OF k(2) x]] by (simp add: case_prod_beta)
      then show "((\<lambda>row. map (\<lambda>k. case cell row k of None \<Rightarrow> [] | Some v \<Rightarrow> v) BASE_CSV_HEADER) \<circ> annotate) x = fst x"
        using cell_with_session(3) by (simp add: case_prod_beta)
    qed
    show ?thesis unfolding script k(1,3) sum.case prod.case written by simp
  qed
qed

theorem script_agrees_with_button_witness:
  "let row = (\<lambda>t l. replicate 11 [] @ [t, l]);
       rows = [row ''1'' ''0'', row ''2'' ''1'', row ''3'' ''2'', row ''100'' ''2'', row ''4'' ''2'']
   in trim_script (\<lambda>n. rev [0..<n]) False (csv_write (BASE_CSV_HEADER # rows)) =
        Inr (Written (csv_write (BASE_CSV_HEADER # [row ''1'' ''0'', row ''2'' ''1'', row ''100'' ''2''])))"
proof -
  let ?row = "\<lambda>t l. replicate 11 [] @ [t, l]" and ?perm = "\<lambda>n. rev [0..<n]"
  let ?rows = "[?row ''1'' ''0'', ?row ''2'' ''1'', ?row ''3'' ''2'', ?row ''100'' ''2'', ?row ''4'' ''2'']"
  have perm: "is_permutation ?perm" by (auto simp: is_permutation_def)
  have run: "trim_ddos_sessions ?perm ?rows = Inr ([?row ''1'' ''0'', ?row ''2'' ''1'', ?row ''100'' ''2''], 2, 1)"
    by code_simp
  have nums: "read_float ''1'' = Inr (Fin 1)" "read_float ''2'' = Inr (Fin 2)" "read_float ''3'' = Inr (Fin 3)"
    "read_float ''100'' = Inr (Fin 100)" "read_float ''4'' = Inr (Fin 4)"
    by code_simp+
  have cols: "TIMESTAMP_COL = 11" "length BASE_CSV_HEADER = 13" by code_simp+
  have rows: "\<forall>row \<in> set ?rows. full_row row \<and> (\<exists>x. read_float (row ! TIMESTAMP_COL) = Inr x)"
    by (simp add: full_row_def cols nth_append nums)
  show ?thesis
    using script_agrees_with_button [OF perm rows] unfolding Let_def run by (elim exE conjE) simp
qed

end
