(* ===== verification/Auth.thy ===== *)
theory Auth
  imports Alerts
begin

text \<open>
  \<open>stage2/auth.py\<close> and \<open>stage2/users.py\<close>, with the payload checks of \<open>stage2/models.py\<close> they rely on: the
  gate every request passes, login and logout, the throttle on failed passwords, and the management of accounts.

  bcrypt and the two TLS files are parameters, collected in \<open>web\<close>; what is drawn at random, a session token or a
  salt, is an argument. The routes run in a pool of threads, so a login and a deletion are divided where another
  thread can come in between: \<open>login_check\<close> and \<open>login_grant\<close>, and the statements of \<open>delete_user\<close>.
\<close>

section \<open>Requests and answers\<close>

record web =
  checkpw :: "string \<Rightarrow> string \<Rightarrow> bool res"
  hashpw :: "string \<Rightarrow> string \<Rightarrow> string res"
  cert_exists :: bool
  key_exists :: bool

record request =
  rq_path :: string
  rq_content_length :: "string option"
  rq_session_id :: "string option"

record cookie =
  ck_value :: string
  ck_max_age :: int
  ck_httponly :: bool
  ck_samesite :: string
  ck_secure :: bool

datatype cookie_op = NoCookie | SetCookie cookie | DeleteCookie

datatype 'r answer =
    JSONResponse int string
  | RedirectResponse string int cookie_op
  | Handled 'r cookie_op

definition LOGIN_MAX_ATTEMPTS :: nat where "LOGIN_MAX_ATTEMPTS = 5"
definition LOGIN_WINDOW_SECS :: pyfloat where "LOGIN_WINDOW_SECS = Fin 300"
definition LOGIN_LOCKOUT_SECS :: int where "LOGIN_LOCKOUT_SECS = 300"
definition SESSION_IDLE_TIMEOUT_SECS :: int where "SESSION_IDLE_TIMEOUT_SECS = 600"
definition MAX_REQUEST_BODY_BYTES :: int where "MAX_REQUEST_BODY_BYTES = 10 * 1024 * 1024"

definition tls_enabled :: "web \<Rightarrow> bool" where
  "tls_enabled W \<longleftrightarrow> cert_exists W \<and> key_exists W"

definition session_cookie :: "web \<Rightarrow> string \<Rightarrow> cookie" where
  "session_cookie W token =
     \<lparr>ck_value = token, ck_max_age = SESSION_IDLE_TIMEOUT_SECS, ck_httponly = True, ck_samesite = ''lax'',
      ck_secure = tls_enabled W\<rparr>"

section \<open>The throttle\<close>

definition recent :: "pyfloat \<Rightarrow> pyfloat list \<Rightarrow> pyfloat list" where
  "recent now attempts = filter (\<lambda>t. fle (fsub now t) LOGIN_WINDOW_SECS) attempts"

definition login_locked_out :: "env \<Rightarrow> string \<Rightarrow> bool op" where
  "login_locked_out E client_ip =
     bnd (time_time E) (\<lambda>now.
     bnd (gets (\<lambda>s. recent now (dict_get (failed_login_attempts s) client_ip []))) (\<lambda>attempts.
     bnd (modify (\<lambda>s. s\<lparr>failed_login_attempts := AList.update client_ip attempts (failed_login_attempts s)\<rparr>)) (\<lambda>_.
     ret (LOGIN_MAX_ATTEMPTS \<le> length attempts))))"

definition record_login_failure :: "env \<Rightarrow> string \<Rightarrow> unit op" where
  "record_login_failure E client_ip =
     bnd (time_time E) (\<lambda>now.
     modify (\<lambda>s. s\<lparr>failed_login_attempts :=
       AList.update client_ip (dict_get (failed_login_attempts s) client_ip [] @ [now]) (failed_login_attempts s)\<rparr>))"

definition reauth_locked_out :: "env \<Rightarrow> string \<Rightarrow> bool op" where
  "reauth_locked_out E username =
     bnd (time_time E) (\<lambda>now.
     bnd (gets (\<lambda>s. recent now (dict_get (failed_reauth_attempts s) username []))) (\<lambda>attempts.
     bnd (modify (\<lambda>s. s\<lparr>failed_reauth_attempts := AList.update username attempts (failed_reauth_attempts s)\<rparr>)) (\<lambda>_.
     ret (LOGIN_MAX_ATTEMPTS \<le> length attempts))))"

definition record_reauth_failure :: "env \<Rightarrow> string \<Rightarrow> unit op" where
  "record_reauth_failure E username =
     bnd (time_time E) (\<lambda>now.
     modify (\<lambda>s. s\<lparr>failed_reauth_attempts :=
       AList.update username (dict_get (failed_reauth_attempts s) username [] @ [now]) (failed_reauth_attempts s)\<rparr>))"

section \<open>Sessions\<close>

definition lookup_session :: "request \<Rightarrow> world \<Rightarrow> session option" where
  "lookup_session rq s = Option.bind (rq_session_id rq) (map_of (active_sessions s))"

definition get_session_username :: "request \<Rightarrow> string op" where
  "get_session_username rq =
     bnd (gets (lookup_session rq)) (\<lambda>session.
     case session of
       None \<Rightarrow> raise_exn (HTTPException 401 ''Session expired. Re-authenticate.'')
     | Some x \<Rightarrow> ret (sess_username x))"

definition revoke_sessions_for_user :: "string \<Rightarrow> unit op" where
  "revoke_sessions_for_user username =
     modify (\<lambda>s. s\<lparr>active_sessions := filter (\<lambda>(_, x). sess_username x \<noteq> username) (active_sessions s)\<rparr>)"

section \<open>The gate\<close>

text \<open>\<open>int(s)\<close> refuses a text with more than 4300 digits.\<close>

definition read_header_int :: "string \<Rightarrow> int res" where
  "read_header_int t = (if 4300 < length (filter is_digit t) then Inl ValueError else read_int t)"

definition body_too_large :: "request \<Rightarrow> bool" where
  "body_too_large rq =
     (case rq_content_length rq of
        None \<Rightarrow> False
      | Some t \<Rightarrow> (case read_header_int t of Inl _ \<Rightarrow> False | Inr n \<Rightarrow> MAX_REQUEST_BODY_BYTES < n))"

definition protected_path :: "string \<Rightarrow> bool" where
  "protected_path path \<longleftrightarrow> ends_with path ''.html'' \<or> path = ''/'' \<or> starts_with path ''/api/''"

definition open_path :: "string \<Rightarrow> bool" where
  "open_path path \<longleftrightarrow>
     starts_with path ''/static/login.html'' \<or> starts_with path ''/api/login'' \<or> starts_with path ''/static/base.css''"

definition redirected :: "string \<Rightarrow> string option" where
  "redirected path =
     (if contains_str ''active-ips.html'' path
      then let new_path = str_replace ''active-ips.html'' ''active_ips.html'' path
           in Some (if starts_with new_path ''/static/'' then new_path else ''/static'' @ new_path)
      else if path \<noteq> ''/'' \<and> ends_with path ''.html'' \<and> \<not> starts_with path ''/static/''
      then Some (''/static'' @ path)
      else None)"

text \<open>Whether the caller's session is alive: one that is gets its time renewed, one that is not is removed.\<close>

definition check_session :: "env \<Rightarrow> request \<Rightarrow> bool op" where
  "check_session E rq =
     bnd (gets (lookup_session rq)) (\<lambda>session.
     case (rq_session_id rq, session) of
       (Some sid, Some x) \<Rightarrow>
         bnd (time_time E) (\<lambda>now.
         if fle (fsub now (sess_last_active x)) (Fin (of_int SESSION_IDLE_TIMEOUT_SECS))
         then bnd (time_time E) (\<lambda>now.
              bnd (modify (\<lambda>s. s\<lparr>active_sessions := AList.update sid (x\<lparr>sess_last_active := now\<rparr>) (active_sessions s)\<rparr>)) (\<lambda>_.
              ret True))
         else bnd (modify (\<lambda>s. s\<lparr>active_sessions := AList.delete sid (active_sessions s)\<rparr>)) (\<lambda>_. ret False))
     | _ \<Rightarrow> ret False)"

definition auth_middleware :: "env \<Rightarrow> web \<Rightarrow> request \<Rightarrow> 'r op \<Rightarrow> 'r answer op" where
  "auth_middleware E W rq call_next =
     (if body_too_large rq then ret (JSONResponse 413 ''Request body too large.'')
      else case redirected (rq_path rq) of
        Some url \<Rightarrow> ret (RedirectResponse url 307 NoCookie)
      | None \<Rightarrow>
          if open_path (rq_path rq) \<or> \<not> protected_path (rq_path rq) then bnd call_next (\<lambda>r. ret (Handled r NoCookie))
          else bnd (check_session E rq) (\<lambda>is_valid.
               if is_valid
               then bnd call_next (\<lambda>r. ret (Handled r (case rq_session_id rq of
                      None \<Rightarrow> NoCookie | Some sid \<Rightarrow> SetCookie (session_cookie W sid))))
               else if starts_with (rq_path rq) ''/api/''
               then ret (JSONResponse 401 ''Session expired. Re-authenticate.'')
               else ret (RedirectResponse ''/static/login.html'' 307 NoCookie)))"

section \<open>Login and logout\<close>

definition find_hash :: "string \<Rightarrow> database \<Rightarrow> string option" where
  "find_hash username d = map_option user_password_hash (find (\<lambda>u. user_name u = username) (db_users d))"

text \<open>A stored hash that is not in bcrypt's format makes \<open>checkpw\<close> raise \<open>ValueError\<close>.\<close>

definition password_ok :: "web \<Rightarrow> string \<Rightarrow> string \<Rightarrow> bool res" where
  "password_ok W password stored = (case checkpw W password stored of Inl ValueError \<Rightarrow> Inr False | r \<Rightarrow> r)"

definition login_check :: "env \<Rightarrow> web \<Rightarrow> string \<Rightarrow> string \<Rightarrow> string \<Rightarrow> unit op" where
  "login_check E W client_ip username password =
     bnd (login_locked_out E client_ip) (\<lambda>locked.
     if locked
     then raise_exn (HTTPException 429 (''Too many failed login attempts. Try again in up to '' @
            show_int (LOGIN_LOCKOUT_SECS div 60) @ '' minutes.''))
     else bnd (db_read E (find_hash username)) (\<lambda>row.
          case row of
            None \<Rightarrow>
              bnd (record_login_failure E client_ip) (\<lambda>_. raise_exn (HTTPException 401 ''Invalid admin credentials.''))
          | Some stored_hash \<Rightarrow>
              bnd (lift_res (password_ok W password stored_hash)) (\<lambda>ok.
              if ok then ret ()
              else bnd (record_login_failure E client_ip) (\<lambda>_.
                   raise_exn (HTTPException 401 ''Handshake credentials rejected.'')))))"

definition login_grant :: "env \<Rightarrow> web \<Rightarrow> string \<Rightarrow> string \<Rightarrow> string \<Rightarrow> unit answer op" where
  "login_grant E W session_token client_ip username =
     bnd (time_time E) (\<lambda>now.
     bnd (modify (\<lambda>s. s\<lparr>active_sessions :=
       AList.update session_token \<lparr>sess_username = username, sess_last_active = now\<rparr> (active_sessions s)\<rparr>)) (\<lambda>_.
     bnd (modify (\<lambda>s. s\<lparr>failed_login_attempts := AList.delete client_ip (failed_login_attempts s)\<rparr>)) (\<lambda>_.
     ret (RedirectResponse ''/static/index.html'' 303 (SetCookie (session_cookie W session_token))))))"

definition login :: "env \<Rightarrow> web \<Rightarrow> string \<Rightarrow> string \<Rightarrow> string \<Rightarrow> string \<Rightarrow> unit answer op" where
  "login E W session_token client_ip username password =
     try_except
       (bnd (login_check E W client_ip username password) (\<lambda>_. login_grant E W session_token client_ip username))
       (\<lambda>e. case e of HTTPException _ _ \<Rightarrow> raise_exn e | _ \<Rightarrow> raise_exn (HTTPException 500 (e_exn_text E e)))"

definition logout :: "request \<Rightarrow> unit answer op" where
  "logout rq =
     bnd (modify (\<lambda>s. case rq_session_id rq of
            None \<Rightarrow> s
          | Some sid \<Rightarrow> s\<lparr>active_sessions := AList.delete sid (active_sessions s)\<rparr>)) (\<lambda>_.
     ret (RedirectResponse ''/static/login.html'' 307 DeleteCookie))"

section \<open>Payloads\<close>

definition check_username :: "string \<Rightarrow> string res" where
  "check_username v = (if 1 \<le> length v \<and> length v \<le> 64 then Inr v else Inl ValueError)"

definition check_password_strength :: "string \<Rightarrow> string res" where
  "check_password_strength v = (if length v < 8 then Inl ValueError else Inr v)"

record user_payload =
  pl_username :: string
  pl_password :: string
  pl_admin_password :: string

definition delete_user_payload :: "user_payload \<Rightarrow> unit res" where
  "delete_user_payload p = map_sum id (\<lambda>_. ()) (check_username (pl_username p))"

text \<open>\<open>CreateUserPayload\<close> and \<open>SetPasswordPayload\<close>, which only differ in the name of a field.\<close>

definition password_payload :: "user_payload \<Rightarrow> unit res" where
  "password_payload p =
     (case check_username (pl_username p) of
        Inl e \<Rightarrow> Inl e
      | Inr _ \<Rightarrow> map_sum id (\<lambda>_. ()) (check_password_strength (pl_password p)))"

section \<open>Accounts\<close>

definition verify_admin_password :: "env \<Rightarrow> web \<Rightarrow> string \<Rightarrow> string \<Rightarrow> unit op" where
  "verify_admin_password E W username password =
     bnd (reauth_locked_out E username) (\<lambda>locked.
     if locked
     then raise_exn (HTTPException 429 (''Too many failed attempts. Try again in up to '' @
            show_int (LOGIN_LOCKOUT_SECS div 60) @ '' minutes.''))
     else bnd (db_read E (find_hash username)) (\<lambda>row.
          case row of
            None \<Rightarrow> raise_exn (HTTPException 401 ''Could not verify your credentials.'')
          | Some stored \<Rightarrow>
              bnd (lift_res (password_ok W password stored)) (\<lambda>ok.
              if ok
              then modify (\<lambda>s. s\<lparr>failed_reauth_attempts := AList.delete username (failed_reauth_attempts s)\<rparr>)
              else bnd (record_reauth_failure E username) (\<lambda>_.
                   raise_exn (HTTPException 403 ''Your current password is incorrect.'')))))"

text \<open>The statements of these routes run on a connection of their own and are committed before it is closed; an error
  reaches the caller.\<close>

definition user_txn :: "env \<Rightarrow> (user_row list \<Rightarrow> (user_row list \<times> 'a) res) \<Rightarrow> 'a op" where
  "user_txn E f =
     txn (bnd (io_check E IO_Db SqlError) (\<lambda>_.
          bnd (gets (\<lambda>s. f (db_users (w_db s)))) (\<lambda>r.
          bnd (lift_res r) (\<lambda>(us, x).
          bnd (modify (\<lambda>s. s\<lparr>w_db := (w_db s)\<lparr>db_users := us\<rparr>\<rparr>)) (\<lambda>_.
          bnd (io_check E IO_Db SqlError) (\<lambda>_. ret x))))))"

definition user_exists :: "string \<Rightarrow> database \<Rightarrow> bool" where
  "user_exists username d \<longleftrightarrow> username \<in> user_name ` set (db_users d)"

definition list_users :: "env \<Rightarrow> string list op" where
  "list_users E = db_read E (\<lambda>d. str_sorted (map user_name (db_users d)))"

definition insert_user :: "string \<Rightarrow> string \<Rightarrow> user_row list \<Rightarrow> (user_row list \<times> unit) res" where
  "insert_user username password_hash us =
     (if username \<in> user_name ` set us
      then Inl (HTTPException 400 (''User '' @ [CHR 0x27] @ username @ [CHR 0x27] @ '' already exists.''))
      else Inr (us @ [\<lparr>user_name = username, user_password_hash = password_hash, user_salt = Some []\<rparr>], ()))"

definition create_user :: "env \<Rightarrow> web \<Rightarrow> string \<Rightarrow> user_payload \<Rightarrow> request \<Rightarrow> unit op" where
  "create_user E W salt p rq =
     bnd (get_session_username rq) (\<lambda>caller.
     bnd (verify_admin_password E W caller (pl_admin_password p)) (\<lambda>_.
     bnd (lift_res (hashpw W (pl_password p) salt)) (\<lambda>password_hash.
     user_txn E (insert_user (pl_username p) password_hash))))"

text \<open>\<open>DELETE FROM users WHERE username = ? AND (SELECT COUNT(*) FROM users) > 1\<close>, with whether it deleted a row.\<close>

definition delete_stmt :: "string \<Rightarrow> user_row list \<Rightarrow> (user_row list \<times> bool) res" where
  "delete_stmt username us =
     (let us' = (if 1 < length us then filter (\<lambda>u. user_name u \<noteq> username) us else us)
      in Inr (us', length us' < length us))"

definition not_found :: "string \<Rightarrow> py_exn" where
  "not_found username = HTTPException 404 (''User '' @ [CHR 0x27] @ username @ [CHR 0x27] @ '' not found.'')"

definition delete_user :: "env \<Rightarrow> web \<Rightarrow> user_payload \<Rightarrow> request \<Rightarrow> unit op" where
  "delete_user E W p rq =
     bnd (get_session_username rq) (\<lambda>caller.
     bnd (verify_admin_password E W caller (pl_admin_password p)) (\<lambda>_.
     bnd (db_read E (user_exists (pl_username p))) (\<lambda>found.
     if \<not> found then raise_exn (not_found (pl_username p))
     else bnd (user_txn E (delete_stmt (pl_username p))) (\<lambda>deleted.
          if \<not> deleted then raise_exn (HTTPException 400 ''Cannot delete the last remaining administrator account.'')
          else revoke_sessions_for_user (pl_username p)))))"

definition update_stmt :: "string \<Rightarrow> string \<Rightarrow> user_row list \<Rightarrow> (user_row list \<times> unit) res" where
  "update_stmt username password_hash us =
     Inr (map (\<lambda>u. if user_name u = username then u\<lparr>user_password_hash := password_hash, user_salt := Some []\<rparr> else u) us, ())"

definition set_password :: "env \<Rightarrow> web \<Rightarrow> string \<Rightarrow> user_payload \<Rightarrow> request \<Rightarrow> unit op" where
  "set_password E W salt p rq =
     bnd (get_session_username rq) (\<lambda>caller.
     bnd (verify_admin_password E W caller (pl_admin_password p)) (\<lambda>_.
     bnd (db_read E (user_exists (pl_username p))) (\<lambda>found.
     if \<not> found then raise_exn (not_found (pl_username p))
     else bnd (lift_res (hashpw W (pl_password p) salt)) (\<lambda>password_hash.
          bnd (user_txn E (update_stmt (pl_username p) password_hash)) (\<lambda>_.
          revoke_sessions_for_user (pl_username p))))))"

end
