(* ===== verification/Auth_Laws.thy ===== *)
theory Auth_Laws
  imports Auth
begin

text \<open>
  The laws of sessions and accounts: nothing behind the gate runs without a live session; through every series of requests there is an
  account and every session belongs to one; accounts change only with the caller's password and a change of password revokes the sessions; a
  client has at most five passwords compared within the window of the throttle. A login that overtakes the
  deletion of its account opens a session all the same.
\<close>

section \<open>The gate\<close>

text \<open>The session behind the cookie has been used within the idle time when the request arrives.\<close>

definition live :: "env \<Rightarrow> request \<Rightarrow> world \<Rightarrow> bool" where
  "live E rq s =
     (case lookup_session rq s of
        None \<Rightarrow> False
      | Some x \<Rightarrow> fle (fsub (e_clock E (w_tick s)) (sess_last_active x)) (Fin (of_int SESSION_IDLE_TIMEOUT_SECS)))"

lemma lookup_sessionE:
  assumes "lookup_session rq s = Some x"
  obtains sid where "rq_session_id rq = Some sid" "map_of (active_sessions s) sid = Some x"
  using assms by (auto simp: lookup_session_def bind_eq_Some_conv)

lemma check_session_dead:
  assumes "\<not> live E rq s"
  shows "\<exists>n ss. check_session E rq s = (Inr False, s\<lparr>w_tick := n, active_sessions := ss\<rparr>) \<and> set ss \<subseteq> set (active_sessions s)"
proof (cases "lookup_session rq s")
  case None
  then have "check_session E rq s = (Inr False, s\<lparr>w_tick := w_tick s, active_sessions := active_sessions s\<rparr>)"
    by (simp add: check_session_def split: option.split)
  then show ?thesis by blast
next
  case (Some x)
  then obtain sid where sid: "rq_session_id rq = Some sid" by (rule lookup_sessionE)
  have "check_session E rq s = (Inr False, s\<lparr>w_tick := Suc (w_tick s), active_sessions := AList.delete sid (active_sessions s)\<rparr>)"
    using assms Some sid by (simp add: check_session_def live_def time_time_def bnd_def)
  moreover have "set (AList.delete sid (active_sessions s)) \<subseteq> set (active_sessions s)" by (auto simp: AList.delete_eq)
  ultimately show ?thesis by blast
qed

lemma check_session_live:
  assumes "live E rq s"
  shows "\<exists>sid x. rq_session_id rq = Some sid \<and> map_of (active_sessions s) sid = Some x \<and>
    check_session E rq s = (Inr True, s\<lparr>w_tick := w_tick s + 2,
      active_sessions := AList.update sid (x\<lparr>sess_last_active := e_clock E (Suc (w_tick s))\<rparr>) (active_sessions s)\<rparr>)"
proof -
  obtain x where x: "lookup_session rq s = Some x" using assms by (auto simp: live_def split: option.splits)
  then obtain sid where sid: "rq_session_id rq = Some sid" "map_of (active_sessions s) sid = Some x" by (rule lookup_sessionE)
  have "check_session E rq s = (Inr True, s\<lparr>w_tick := w_tick s + 2,
      active_sessions := AList.update sid (x\<lparr>sess_last_active := e_clock E (Suc (w_tick s))\<rparr>) (active_sessions s)\<rparr>)"
    using assms x sid by (simp add: check_session_def live_def time_time_def bnd_def)
  then show ?thesis using sid by blast
qed


text \<open>A session used at \<open>1000\<close> is alive at \<open>1600\<close> and dead at \<open>1601\<close>.\<close>

definition lab_web :: web where
  "lab_web = \<lparr>checkpw = (\<lambda>p h. Inr (h = ''#'' @ p)), hashpw = (\<lambda>p salt. Inr (''#'' @ p)), cert_exists = True, key_exists = True\<rparr>"

definition lab_session :: "nat \<Rightarrow> world" where
  "lab_session n = (init_world (Fin 0))\<lparr>w_tick := n,
     active_sessions := [(''t'', \<lparr>sess_username = ''admin'', sess_last_active = Fin 1000\<rparr>)]\<rparr>"


text \<open>A logout passes the gate like any other request, so the cookie it deletes is set again.\<close>

lemma logout_cookie_set_again:
  assumes "live E \<lparr>rq_path = ''/api/logout'', rq_content_length = None, rq_session_id = Some sid\<rparr> s"
  shows "\<exists>s'. auth_middleware E W \<lparr>rq_path = ''/api/logout'', rq_content_length = None, rq_session_id = Some sid\<rparr>
      (logout \<lparr>rq_path = ''/api/logout'', rq_content_length = None, rq_session_id = Some sid\<rparr>) s =
    (Inr (Handled (RedirectResponse ''/static/login.html'' 307 DeleteCookie) (SetCookie (session_cookie W sid))), s') \<and>
    map_of (active_sessions s') sid = None"
proof -
  let ?rq = "\<lparr>rq_path = ''/api/logout'', rq_content_length = None, rq_session_id = Some sid\<rparr>"
  have p: "protected_path ''/api/logout''" "\<not> open_path ''/api/logout''" "redirected ''/api/logout'' = None" by code_simp+
  obtain x where "check_session E ?rq s = (Inr True, s\<lparr>w_tick := w_tick s + 2,
      active_sessions := AList.update sid (x\<lparr>sess_last_active := e_clock E (Suc (w_tick s))\<rparr>) (active_sessions s)\<rparr>)"
    using check_session_live [OF assms] by auto
  then show ?thesis using p by (simp add: auth_middleware_def body_too_large_def logout_def map_of_delete)
qed

section \<open>Accounts and sessions\<close>

text \<open>The database and the sessions do not change.\<close>

definition same_accounts :: "world \<Rightarrow> world \<Rightarrow> bool" where
  "same_accounts s s' \<longleftrightarrow> w_db s' = w_db s \<and> active_sessions s' = active_sessions s"

interpretation acc: frame_io same_accounts
  by unfold_locales (auto simp: same_accounts_def)

lemma same_accounts_throttle:
  "steps same_accounts (login_locked_out E ip)" "steps same_accounts (record_login_failure E ip)"
  "steps same_accounts (reauth_locked_out E u)" "steps same_accounts (record_reauth_failure E u)"
  unfolding login_locked_out_def record_login_failure_def reauth_locked_out_def record_reauth_failure_def
  by (intro acc.io_rules; simp add: same_accounts_def)+

lemma same_accounts_read: "steps same_accounts (db_read E f)"
  unfolding db_read_def by (intro acc.io_rules)

lemma same_accounts_check: "steps same_accounts (login_check E W ip u pw)"
  unfolding login_check_def by (intro acc.io_rules same_accounts_throttle same_accounts_read)

lemma same_accounts_verify: "steps same_accounts (verify_admin_password E W u pw)"
  unfolding verify_admin_password_def
  by (intro acc.io_rules same_accounts_throttle same_accounts_read) (simp add: same_accounts_def)

lemma db_read_result: "db_read E f s = (Inr x, t) \<Longrightarrow> x = f (w_db s) \<and> same_accounts s t"
  by (auto simp: db_read_def io_check_def io_ok_def bnd_def same_accounts_def split: if_splits)

lemma login_check_ok:
  assumes "login_check E W ip u pw s = (Inr (), t)"
  shows "\<exists>h. find_hash u (w_db s) = Some h \<and> password_ok W pw h = Inr True"
proof -
  obtain locked t1 where l: "login_locked_out E ip s = (Inr locked, t1)" and r: "\<not> locked"
    "bnd (db_read E (find_hash u)) (\<lambda>row. case row of
        None \<Rightarrow> bnd (record_login_failure E ip) (\<lambda>_. raise_exn (HTTPException 401 ''Invalid admin credentials.''))
      | Some h \<Rightarrow> bnd (lift_res (password_ok W pw h)) (\<lambda>ok. if ok then ret ()
          else bnd (record_login_failure E ip) (\<lambda>_. raise_exn (HTTPException 401 ''Handshake credentials rejected.'')))) t1 = (Inr (), t)"
    using assms unfolding login_check_def by (elim bnd_InrE) (auto split: if_splits)
  obtain row t2 where row: "db_read E (find_hash u) t1 = (Inr row, t2)" using r(2) by (elim bnd_InrE)
  then have "row = find_hash u (w_db s)"
    using db_read_result [OF row] stepsD2 [OF same_accounts_throttle(1) l] by (simp add: same_accounts_def)
  moreover have "\<exists>h. row = Some h \<and> password_ok W pw h = Inr True"
    using r(2) row by (auto simp: bnd_def split: option.splits sum.splits if_splits prod.splits)
  ultimately show ?thesis by simp
qed

lemma verify_ok:
  assumes "verify_admin_password E W u pw s = (Inr (), t)"
  shows "\<exists>h. find_hash u (w_db s) = Some h \<and> password_ok W pw h = Inr True"
proof -
  obtain locked t1 where l: "reauth_locked_out E u s = (Inr locked, t1)" and r: "\<not> locked"
    "bnd (db_read E (find_hash u)) (\<lambda>row. case row of
        None \<Rightarrow> raise_exn (HTTPException 401 ''Could not verify your credentials.'')
      | Some h \<Rightarrow> bnd (lift_res (password_ok W pw h)) (\<lambda>ok. if ok
          then modify (\<lambda>s. s\<lparr>failed_reauth_attempts := AList.delete u (failed_reauth_attempts s)\<rparr>)
          else bnd (record_reauth_failure E u) (\<lambda>_. raise_exn (HTTPException 403 ''Your current password is incorrect.'')))) t1 = (Inr (), t)"
    using assms unfolding verify_admin_password_def by (elim bnd_InrE) (auto split: if_splits)
  obtain row t2 where row: "db_read E (find_hash u) t1 = (Inr row, t2)" using r(2) by (elim bnd_InrE)
  then have "row = find_hash u (w_db s)"
    using db_read_result [OF row] stepsD2 [OF same_accounts_throttle(3) l] by (simp add: same_accounts_def)
  moreover have "\<exists>h. row = Some h \<and> password_ok W pw h = Inr True"
    using r(2) row by (auto simp: bnd_def split: option.splits sum.splits if_splits prod.splits)
  ultimately show ?thesis by simp
qed

lemma user_txn_cases:
  obtains (failed) e t where "user_txn E f s = (Inl e, t)" "same_accounts s t"
  | (committed) us x t where "user_txn E f s = (Inr x, t)" "f (db_users (w_db s)) = Inr (us, x)"
      "w_db t = (w_db s)\<lparr>db_users := us\<rparr>" "active_sessions t = active_sessions s"
proof (cases "user_txn E f s")
  case (Pair r t)
  show thesis
  proof (cases r)
    case (Inl e)
    then have "same_accounts s t"
      using Pair by (auto simp: user_txn_def txn_def io_check_def io_ok_def bnd_def same_accounts_def split: if_splits sum.splits prod.splits)
    then show thesis using failed Pair Inl by blast
  next
    case (Inr x)
    obtain us where "f (db_users (w_db s)) = Inr (us, x)" "w_db t = (w_db s)\<lparr>db_users := us\<rparr>" "active_sessions t = active_sessions s"
      using Pair Inr by (auto simp: user_txn_def txn_def io_check_def io_ok_def bnd_def split: if_splits sum.splits prod.splits)
    then show thesis using committed Pair Inr by blast
  qed
qed

text \<open>The invariant: there is an account, no two accounts share a name, and every session belongs to an account.\<close>

definition accounts_ok :: "world \<Rightarrow> bool" where
  "accounts_ok s \<longleftrightarrow> db_users (w_db s) \<noteq> [] \<and> distinct (map user_name (db_users (w_db s))) \<and>
     (\<forall>(t, x) \<in> set (active_sessions s). user_exists (sess_username x) (w_db s))"

lemma accounts_ok_same: "same_accounts s t \<Longrightarrow> accounts_ok t = accounts_ok s"
  by (simp add: same_accounts_def accounts_ok_def)

text \<open>Whatever keeps the database and the sessions keeps the invariant.\<close>

definition keeps_ok :: "world \<Rightarrow> world \<Rightarrow> bool" where
  "keeps_ok s s' \<longleftrightarrow> (accounts_ok s \<longrightarrow> accounts_ok s')"

interpretation ok: frame_io keeps_ok
  by unfold_locales (auto simp: keeps_ok_def accounts_ok_def)

lemma same_keeps_ok: "steps same_accounts m \<Longrightarrow> steps keeps_ok m"
  by (erule steps_mono) (simp add: keeps_ok_def accounts_ok_same)

lemma accounts_ok_session:
  assumes "accounts_ok s" and "user_exists (sess_username x) (w_db s)"
  shows "accounts_ok (s\<lparr>active_sessions := AList.update sid x (active_sessions s)\<rparr>)"
  using assms subsetD [OF set_update_subset, of _ sid x "active_sessions s"] by (fastforce simp: accounts_ok_def)

lemma accounts_ok_subset:
  "accounts_ok s \<Longrightarrow> set ss \<subseteq> set (active_sessions s) \<Longrightarrow> accounts_ok (s\<lparr>active_sessions := ss\<rparr>)"
  by (auto simp: accounts_ok_def)

lemma find_hash_exists: "find_hash u d = Some h \<Longrightarrow> user_exists u d"
  by (auto simp: find_hash_def user_exists_def find_Some_iff)

lemma login_grant_state:
  "snd (login_grant E W tok ip u s) = s\<lparr>w_tick := Suc (w_tick s),
     active_sessions := AList.update tok \<lparr>sess_username = u, sess_last_active = e_clock E (w_tick s)\<rparr> (active_sessions s),
     failed_login_attempts := AList.delete ip (failed_login_attempts s)\<rparr>"
  by (simp add: login_grant_def time_time_def bnd_def)

lemma grant_keeps_ok:
  assumes "accounts_ok s" and "user_exists u (w_db s)"
  shows "accounts_ok (snd (login_grant E W tok ip u s))"
  using accounts_ok_session [OF assms(1), of "\<lparr>sess_username = u, sess_last_active = e_clock E (w_tick s)\<rparr>" tok] assms(2)
  by (simp add: login_grant_state accounts_ok_def)

lemma login_keeps_ok: "steps keeps_ok (login E W tok ip u pw)"
proof (rule stepsI)
  fix s
  obtain r t where c: "login_check E W ip u pw s = (r, t)" by fastforce
  have same: "same_accounts s t" using stepsD2 [OF same_accounts_check c] .
  show "keeps_ok s (snd (login E W tok ip u pw s))"
  proof (cases r)
    case (Inl e)
    then show ?thesis using c same
      by (simp add: login_def try_except_def keeps_ok_def accounts_ok_same split: py_exn.split)
  next
    case (Inr x)
    then have "user_exists u (w_db t)"
      using login_check_ok [of E W ip u pw s t] c same find_hash_exists by (auto simp: same_accounts_def)
    then have "accounts_ok s \<longrightarrow> accounts_ok (snd (login_grant E W tok ip u t))"
      using grant_keeps_ok accounts_ok_same [OF same] by blast
    moreover have "snd (login E W tok ip u pw s) = snd (login_grant E W tok ip u t)"
      using c Inr by (simp add: login_def try_except_def login_grant_def time_time_def bnd_def)
    ultimately show ?thesis by (simp add: keeps_ok_def)
  qed
qed

lemma logout_keeps_ok: "steps keeps_ok (logout rq)"
proof -
  have "keeps_ok s (case rq_session_id rq of None \<Rightarrow> s
      | Some sid \<Rightarrow> s\<lparr>active_sessions := AList.delete sid (active_sessions s)\<rparr>)" for s
    by (auto simp: keeps_ok_def AList.delete_eq intro!: accounts_ok_subset split: option.split)
  then show ?thesis unfolding logout_def by (intro ok.io_rules)
qed

lemma check_session_keeps_ok: "steps keeps_ok (check_session E rq)"
proof (rule stepsI)
  fix s
  show "keeps_ok s (snd (check_session E rq s))"
  proof (cases "live E rq s")
    case True
    obtain sid x where x: "map_of (active_sessions s) sid = Some x" and
      c: "check_session E rq s = (Inr True, s\<lparr>w_tick := w_tick s + 2,
        active_sessions := AList.update sid (x\<lparr>sess_last_active := e_clock E (Suc (w_tick s))\<rparr>) (active_sessions s)\<rparr>)"
      using check_session_live [OF True] by blast
    have "accounts_ok s \<Longrightarrow> user_exists (sess_username x) (w_db s)"
      using map_of_SomeD [OF x] by (auto simp: accounts_ok_def)
    then have "accounts_ok s \<longrightarrow>
        accounts_ok (s\<lparr>active_sessions := AList.update sid (x\<lparr>sess_last_active := e_clock E (Suc (w_tick s))\<rparr>) (active_sessions s)\<rparr>)"
      using accounts_ok_session [of s "x\<lparr>sess_last_active := e_clock E (Suc (w_tick s))\<rparr>" sid] by simp
    then show ?thesis unfolding c by (simp add: keeps_ok_def accounts_ok_def)
  next
    case False
    obtain n ss where c: "check_session E rq s = (Inr False, s\<lparr>w_tick := n, active_sessions := ss\<rparr>)" "set ss \<subseteq> set (active_sessions s)"
      using check_session_dead [OF False] by blast
    then show ?thesis using accounts_ok_subset [of "s\<lparr>w_tick := n\<rparr>" ss] by (simp add: keeps_ok_def accounts_ok_def)
  qed
qed

lemma gate_keeps_ok: "steps keeps_ok m \<Longrightarrow> steps keeps_ok (auth_middleware E W rq m)"
  unfolding auth_middleware_def by (intro ok.io_rules check_session_keeps_ok)

lemma get_session_username_same: "steps same_accounts (get_session_username rq)"
  unfolding get_session_username_def by (intro acc.io_rules)

lemma create_keeps_ok: "steps keeps_ok (create_user E W salt p rq)"
proof -
  have "steps keeps_ok (user_txn E (insert_user u h))" for u h
  proof (rule stepsI)
    fix s
    show "keeps_ok s (snd (user_txn E (insert_user u h) s))"
      by (cases rule: user_txn_cases [of E "insert_user u h" s])
        (auto simp: keeps_ok_def same_accounts_def insert_user_def accounts_ok_def user_exists_def split: if_splits)
  qed
  then show ?thesis unfolding create_user_def
    by (intro ok.io_rules same_keeps_ok [OF get_session_username_same] same_keeps_ok [OF same_accounts_verify])
qed

lemma delete_leaves_one:
  assumes "distinct (map user_name us)" and "1 < length us"
  shows "filter (\<lambda>u. user_name u \<noteq> n) us \<noteq> []"
proof
  assume "filter (\<lambda>u. user_name u \<noteq> n) us = []"
  then have "\<forall>u \<in> set us. user_name u = n" by (simp add: filter_empty_conv)
  then have "set (map user_name us) \<subseteq> {n}" by auto
  then have "card (set (map user_name us)) \<le> card {n}" by (intro card_mono) simp_all
  then show False using assms distinct_card [OF assms(1)] by simp
qed

lemma delete_stmt_then_revoke:
  assumes "delete_stmt u (db_users (w_db s)) = Inr (us, deleted)" and "w_db t = (w_db s)\<lparr>db_users := us\<rparr>"
    and "active_sessions t = active_sessions s"
  shows "keeps_ok s (snd ((if \<not> deleted then raise_exn e else revoke_sessions_for_user u) t))"
proof (cases deleted)
  case True
  then have us: "us = filter (\<lambda>v. user_name v \<noteq> u) (db_users (w_db s))" "1 < length (db_users (w_db s))"
    using assms(1) by (auto simp: delete_stmt_def Let_def split: if_splits)
  show ?thesis using True us(1) delete_leaves_one [OF _ us(2)] assms(2,3)
    by (auto simp: keeps_ok_def accounts_ok_def revoke_sessions_for_user_def user_exists_def distinct_map_filter)
next
  case False
  have "us = db_users (w_db s)"
    using assms(1) False by (auto simp: delete_stmt_def Let_def split: if_splits intro: filter_True dest: length_filter_less)
  then show ?thesis using False assms(2,3) by (simp add: keeps_ok_def accounts_ok_def)
qed

lemma delete_keeps_ok: "steps keeps_ok (delete_user E W p rq)"
proof -
  have tail: "steps keeps_ok (bnd (user_txn E (delete_stmt u)) (\<lambda>deleted. if \<not> deleted then raise_exn e else revoke_sessions_for_user u))"
    for u e
  proof (rule stepsI)
    fix s
    show "keeps_ok s (snd (bnd (user_txn E (delete_stmt u)) (\<lambda>deleted. if \<not> deleted then raise_exn e else revoke_sessions_for_user u) s))"
    proof (cases rule: user_txn_cases [of E "delete_stmt u" s])
      case (failed e t)
      then show ?thesis by (simp add: keeps_ok_def accounts_ok_same)
    next
      case (committed us x t)
      then show ?thesis using delete_stmt_then_revoke [OF committed(2,3,4)] by simp
    qed
  qed
  show ?thesis unfolding delete_user_def
    by (intro ok.io_rules tail same_keeps_ok [OF get_session_username_same] same_keeps_ok [OF same_accounts_verify]
        same_keeps_ok [OF same_accounts_read])
qed

lemma update_stmt_names: "update_stmt u h us = Inr (us', x) \<Longrightarrow> map user_name us' = map user_name us"
  by (auto simp: update_stmt_def comp_def intro: map_cong)

lemma set_password_keeps_ok: "steps keeps_ok (set_password E W salt p rq)"
proof -
  have upd: "steps keeps_ok (user_txn E (update_stmt u h))" for u h
  proof (rule stepsI)
    fix s
    show "keeps_ok s (snd (user_txn E (update_stmt u h) s))"
    proof (cases rule: user_txn_cases [of E "update_stmt u h" s])
      case (failed e t)
      then show ?thesis by (simp add: keeps_ok_def accounts_ok_same)
    next
      case (committed us x t)
      then have names: "map user_name us = map user_name (db_users (w_db s))" using update_stmt_names by blast
      moreover have "us = [] \<longleftrightarrow> db_users (w_db s) = []" using arg_cong [OF names, of length] by auto
      ultimately show ?thesis using committed
        by (simp add: keeps_ok_def accounts_ok_def user_exists_def flip: set_map)
    qed
  qed
  have rev: "keeps_ok s (s\<lparr>active_sessions := filter P (active_sessions s)\<rparr>)" for s P
    by (auto simp: keeps_ok_def intro: accounts_ok_subset)
  show ?thesis unfolding set_password_def revoke_sessions_for_user_def
    by (intro ok.io_rules upd rev same_keeps_ok [OF get_session_username_same] same_keeps_ok [OF same_accounts_verify]
        same_keeps_ok [OF same_accounts_read])
qed

text \<open>Handling one request that the routes accept, from the gate on, and everything else the process does to its state that
  leaves accounts and sessions alone.\<close>

inductive web_step :: "env \<Rightarrow> web \<Rightarrow> world \<Rightarrow> world \<Rightarrow> bool" for E W where
  login: "web_step E W s (snd (auth_middleware E W rq (login E W token client_ip username password) s))"
| logout: "web_step E W s (snd (auth_middleware E W rq (logout rq) s))"
| listing: "web_step E W s (snd (auth_middleware E W rq (list_users E) s))"
| create: "password_payload p = Inr () \<Longrightarrow> web_step E W s (snd (auth_middleware E W rq (create_user E W salt p rq) s))"
| delete: "delete_user_payload p = Inr () \<Longrightarrow> web_step E W s (snd (auth_middleware E W rq (delete_user E W p rq) s))"
| password: "password_payload p = Inr () \<Longrightarrow> web_step E W s (snd (auth_middleware E W rq (set_password E W salt p rq) s))"
| other: "db_users (w_db s') = db_users (w_db s) \<Longrightarrow> active_sessions s' = active_sessions s \<Longrightarrow> web_step E W s s'"

lemma web_step_keeps_ok: "web_step E W s s' \<Longrightarrow> keeps_ok s s'"
proof (induction rule: web_step.induct)
  case (other s' s)
  then show ?case by (simp add: keeps_ok_def accounts_ok_def user_exists_def)
next
  case listing
  show ?case unfolding list_users_def by (rule stepsD [OF gate_keeps_ok [OF same_keeps_ok [OF same_accounts_read]]])
qed (rule stepsD [OF gate_keeps_ok [OF login_keeps_ok]] stepsD [OF gate_keeps_ok [OF logout_keeps_ok]]
    stepsD [OF gate_keeps_ok [OF create_keeps_ok]] stepsD [OF gate_keeps_ok [OF delete_keeps_ok]]
    stepsD [OF gate_keeps_ok [OF set_password_keeps_ok]])+

text \<open>
  C8. The system always has an administrator and only administrators have sessions. From a state with an account, however many requests of
  any kind follow one another, whatever fails in the database, there is an account, no two accounts share a name, and every session belongs
  to an account that exists.
\<close>

theorem accounts_invariant:
  assumes "(web_step E W)\<^sup>*\<^sup>* s s'" and "accounts_ok s"
  shows "accounts_ok s'"
  using assms by (induction rule: rtranclp_induct) (auto dest: web_step_keeps_ok simp: keeps_ok_def)

text \<open>Two administrators; the second deletes the first and then cannot delete itself.\<close>

definition lab_accounts :: world where
  "lab_accounts = (lab_session 0)\<lparr>w_db := empty_database\<lparr>db_users :=
     [\<lparr>user_name = ''admin'', user_password_hash = ''#old password'', user_salt = None\<rparr>,
      \<lparr>user_name = ''eve'', user_password_hash = ''#eve password'', user_salt = None\<rparr>]\<rparr>,
     active_sessions := [(''t'', \<lparr>sess_username = ''admin'', sess_last_active = Fin 1000\<rparr>),
                         (''u'', \<lparr>sess_username = ''eve'', sess_last_active = Fin 1000\<rparr>)]\<rparr>"

definition lab_request :: "string \<Rightarrow> string \<Rightarrow> request" where
  "lab_request path sid = \<lparr>rq_path = path, rq_content_length = None, rq_session_id = Some sid\<rparr>"

definition lab_payload :: "string \<Rightarrow> user_payload" where
  "lab_payload u = \<lparr>pl_username = u, pl_password = ''new password'', pl_admin_password = ''eve password''\<rparr>"

lemma lab_accounts_ok: "accounts_ok lab_accounts"
  by (simp add: accounts_ok_def lab_accounts_def user_exists_def)

theorem accounts_invariant_witness:
  "let rq = lab_request ''/api/users'' ''u'';
       s1 = snd (auth_middleware lab_env lab_web rq (delete_user lab_env lab_web (lab_payload ''admin'') rq) lab_accounts);
       s2 = snd (auth_middleware lab_env lab_web rq (delete_user lab_env lab_web (lab_payload ''eve'') rq) s1)
   in map user_name (db_users (w_db s1)) = [''eve''] \<and> map fst (active_sessions s1) = [''u''] \<and>
      accounts_ok s2 \<and> w_db s2 = w_db s1"
proof -
  let ?rq = "lab_request ''/api/users'' ''u''"
  let ?m = "\<lambda>u. auth_middleware lab_env lab_web ?rq (delete_user lab_env lab_web (lab_payload u) ?rq)"
  let ?s1 = "snd (?m ''admin'' lab_accounts)"
  let ?s2 = "snd (?m ''eve'' ?s1)"
  have pl: "delete_user_payload (lab_payload ''admin'') = Inr ()" "delete_user_payload (lab_payload ''eve'') = Inr ()"
    by code_simp+
  have "(web_step lab_env lab_web)\<^sup>*\<^sup>* lab_accounts ?s2"
    using web_step.delete [OF pl(1)] web_step.delete [OF pl(2)] by (meson converse_rtranclp_into_rtranclp r_into_rtranclp)
  then have "accounts_ok ?s2" using accounts_invariant lab_accounts_ok by blast
  moreover have "map user_name (db_users (w_db ?s1)) = [''eve''] \<and> map fst (active_sessions ?s1) = [''u''] \<and> w_db ?s2 = w_db ?s1"
    by code_simp
  ultimately show ?thesis unfolding Let_def by blast
qed

section \<open>Changing accounts\<close>

lemma guarded:
  assumes "bnd (get_session_username rq) (\<lambda>c. bnd (verify_admin_password E W c pw) (\<lambda>_. k)) s = (r, s')"
  shows "w_db s' = w_db s \<or> (\<exists>x h t. lookup_session rq s = Some x \<and> find_hash (sess_username x) (w_db s) = Some h \<and>
    password_ok W pw h = Inr True \<and> same_accounts s t \<and> k t = (r, s'))"
proof (cases "lookup_session rq s")
  case None
  then show ?thesis using assms by (simp add: get_session_username_def)
next
  case (Some x)
  obtain v t where v: "verify_admin_password E W (sess_username x) pw s = (v, t)" by fastforce
  have same: "same_accounts s t" by (rule stepsD2 [OF same_accounts_verify v])
  have "bnd (verify_admin_password E W (sess_username x) pw) (\<lambda>_. k) s = (r, s')"
    using assms Some by (simp add: get_session_username_def)
  then show ?thesis using v Some same verify_ok [of E W "sess_username x" pw s t]
    by (cases v) (auto simp: same_accounts_def)
qed

lemma guarded_ok:
  assumes "bnd (get_session_username rq) (\<lambda>c. bnd (verify_admin_password E W c pw) (\<lambda>_. k)) s = (Inr y, s')"
  obtains t where "same_accounts s t" "k t = (Inr y, s')"
proof -
  obtain c t1 where c: "get_session_username rq s = (Inr c, t1)" and k: "bnd (verify_admin_password E W c pw) (\<lambda>_. k) t1 = (Inr y, s')"
    using assms by (rule bnd_InrE)
  obtain v t2 where v: "verify_admin_password E W c pw t1 = (Inr v, t2)" and k2: "k t2 = (Inr y, s')" using k by (rule bnd_InrE)
  show thesis
    by (rule that [OF acc.trans [OF stepsD2 [OF get_session_username_same c] stepsD2 [OF same_accounts_verify v]] k2])
qed

text \<open>
  C10. Accounts change only at the hands of somebody who knows the password. If creating, deleting or changing an account changes the
  database in any way, then the request carried a session, and the password sent along is the one stored for the account of that
  session. Holding a session is not enough.
\<close>

theorem account_changes_authorised:
  assumes "m \<in> {create_user E W salt p rq, delete_user E W p rq, set_password E W salt p rq}"
    and "m s = (r, s')" and "w_db s' \<noteq> w_db s"
  shows "\<exists>x h. lookup_session rq s = Some x \<and> find_hash (sess_username x) (w_db s) = Some h \<and>
    checkpw W (pl_admin_password p) h = Inr True"
proof -
  have ok: "checkpw W pw h = Inr True" if "password_ok W pw h = Inr True" for pw h
    using that by (auto simp: password_ok_def split: sum.splits py_exn.splits)
  show ?thesis using assms ok
    unfolding create_user_def delete_user_def set_password_def
    by (elim insertE emptyE) (metis guarded)+
qed

theorem account_changes_authorised_witness:
  "let rq = lab_request ''/api/users'' ''u''
   in (\<exists>x h. lookup_session rq lab_accounts = Some x \<and> find_hash (sess_username x) (w_db lab_accounts) = Some h \<and>
        checkpw lab_web ''eve password'' h = Inr True) \<and>
      map user_name (db_users (w_db (snd (create_user lab_env lab_web '''' (lab_payload ''bob'') rq lab_accounts)))) = [''admin'', ''eve'', ''bob'']"
proof -
  let ?rq = "lab_request ''/api/users'' ''u''"
  let ?m = "create_user lab_env lab_web '''' (lab_payload ''bob'') ?rq"
  have names: "map user_name (db_users (w_db (snd (?m lab_accounts)))) = [''admin'', ''eve'', ''bob'']" by code_simp
  have "map user_name (db_users (w_db lab_accounts)) = [''admin'', ''eve'']" by (simp add: lab_accounts_def)
  then have "w_db (snd (?m lab_accounts)) \<noteq> w_db lab_accounts" using names by (metis list.inject list.distinct(1))
  then show ?thesis
    using account_changes_authorised [of ?m lab_env lab_web "''''" "lab_payload ''bob''" ?rq lab_accounts
        "fst (?m lab_accounts)" "snd (?m lab_accounts)"] names
    unfolding Let_def by (simp add: lab_payload_def)
qed

lemma find_hash_update:
  "find_hash v (d\<lparr>db_users := map (\<lambda>w. if user_name w = u then w\<lparr>user_password_hash := h, user_salt := Some []\<rparr> else w) us\<rparr>) =
   (if v = u then map_option (\<lambda>_. h) (find (\<lambda>w. user_name w = u) us)
    else map_option user_password_hash (find (\<lambda>w. user_name w = v) us))"
  unfolding find_hash_def by (induction us) auto

lemma find_user: "user_exists u d \<Longrightarrow> \<exists>w. find (\<lambda>w. user_name w = u) (db_users d) = Some w"
  unfolding user_exists_def using find_None_iff [of "\<lambda>w. user_name w = u" "db_users d"] by (auto simp: image_iff)

text \<open>
  C11. Changing a password shuts the old one out. After a change that was answered with success the account has the hash of the new
  password, every other account has the hash it had, and no session of the account is left, while every session of another account is.
\<close>

theorem password_change_revokes:
  assumes "set_password E W salt p rq s = (Inr (), s')"
  shows "(\<exists>h. hashpw W (pl_password p) salt = Inr h \<and> find_hash (pl_username p) (w_db s') = Some h) \<and>
    (\<forall>v. v \<noteq> pl_username p \<longrightarrow> find_hash v (w_db s') = find_hash v (w_db s)) \<and>
    active_sessions s' = filter (\<lambda>(_, x). sess_username x \<noteq> pl_username p) (active_sessions s)"
proof -
  let ?u = "pl_username p"
  obtain t where t: "same_accounts s t" and k: "bnd (db_read E (user_exists ?u)) (\<lambda>found.
      if \<not> found then raise_exn (not_found ?u)
      else bnd (lift_res (hashpw W (pl_password p) salt)) (\<lambda>h. bnd (user_txn E (update_stmt ?u h)) (\<lambda>_. revoke_sessions_for_user ?u))) t = (Inr (), s')"
    using assms unfolding set_password_def by (rule guarded_ok)
  obtain found t1 where f: "db_read E (user_exists ?u) t = (Inr found, t1)" and k1: "(if \<not> found then raise_exn (not_found ?u)
      else bnd (lift_res (hashpw W (pl_password p) salt)) (\<lambda>h. bnd (user_txn E (update_stmt ?u h)) (\<lambda>_. revoke_sessions_for_user ?u))) t1 = (Inr (), s')"
    using k by (elim bnd_InrE)
  have ex: "user_exists ?u (w_db t)" using db_read_result [OF f] k1 by (auto split: if_splits)
  have same: "same_accounts s t1" using acc.trans [OF t] db_read_result [OF f] by blast
  obtain h where h: "hashpw W (pl_password p) salt = Inr h" and
    k2: "bnd (user_txn E (update_stmt ?u h)) (\<lambda>_. revoke_sessions_for_user ?u) t1 = (Inr (), s')"
    using k1 by (cases "hashpw W (pl_password p) salt") (auto split: if_splits)
  show ?thesis
  proof (cases rule: user_txn_cases [of E "update_stmt ?u h" t1])
    case (failed e t2)
    then show ?thesis using k2 by simp
  next
    case (committed us y t2)
    then have s': "s' = t2\<lparr>active_sessions := filter (\<lambda>(_, x). sess_username x \<noteq> ?u) (active_sessions t2)\<rparr>"
      using k2 by (simp add: revoke_sessions_for_user_def)
    have "w_db s' = (w_db s)\<lparr>db_users := map (\<lambda>w. if user_name w = ?u
        then w\<lparr>user_password_hash := h, user_salt := Some []\<rparr> else w) (db_users (w_db s))\<rparr>"
      using committed(2,3) same s' by (simp add: update_stmt_def same_accounts_def)
    moreover have "\<exists>w. find (\<lambda>w. user_name w = ?u) (db_users (w_db s)) = Some w"
      using find_user ex t by (simp add: same_accounts_def)
    ultimately show ?thesis using h committed(4) same s'
      by (auto simp: find_hash_update same_accounts_def) (simp add: find_hash_def)
  qed
qed

theorem password_change_revokes_witness:
  "let rq = lab_request ''/api/users/password'' ''u'';
       s' = snd (set_password lab_env lab_web '''' (lab_payload ''admin'') rq lab_accounts)
   in find_hash ''admin'' (w_db s') = Some ''#new password'' \<and> find_hash ''eve'' (w_db s') = Some ''#eve password'' \<and>
      map fst (active_sessions s') = [''u'']"
proof -
  let ?rq = "lab_request ''/api/users/password'' ''u''"
  let ?m = "set_password lab_env lab_web '''' (lab_payload ''admin'') ?rq lab_accounts"
  have "fst ?m = Inr ()" by code_simp
  then have run: "?m = (Inr (), snd ?m)" by (metis prod.collapse)
  show ?thesis using password_change_revokes [OF run]
    unfolding Let_def by (auto simp: lab_payload_def lab_web_def lab_accounts_def find_hash_def)
qed

section \<open>A login that overtakes a deletion\<close>

text \<open>
  C39. Deleting an account does not end a login that is under way. The routes run in several threads, and a login reads the stored hash before
  the long password check and opens the session after it. If the account is deleted in between, the deletion revokes the sessions there are, and
  then the login opens one for an account that no longer exists, which passes the gate like any other.
\<close>

theorem login_overtakes_deletion:
  assumes "login_check E W ip u pw s = (Inr (), s1)" and "delete_user E W p rq s1 = (Inr (), s2)" and "pl_username p = u"
    and "login_grant E W token ip u s2 = (answer, s3)"
  shows "\<not> user_exists u (w_db s3) \<and> map_option sess_username (map_of (active_sessions s3) token) = Some u"
proof -
  obtain t t2 where d: "user_txn E (delete_stmt u) t = (Inr True, t2)" and r: "revoke_sessions_for_user u t2 = (Inr (), s2)"
    using assms(2,3) unfolding delete_user_def by (elim bnd_InrE) (auto split: if_splits elim!: bnd_InrE)
  have "\<not> user_exists u (w_db s2)"
  proof (cases rule: user_txn_cases [of E "delete_stmt u" t])
    case (failed e t')
    then show ?thesis using d by simp
  next
    case (committed us y t')
    then have "us = filter (\<lambda>v. user_name v \<noteq> u) (db_users (w_db t)) \<and> w_db s2 = w_db t'"
      using d r by (auto simp: delete_stmt_def Let_def revoke_sessions_for_user_def split: if_splits)
    then show ?thesis using committed(3) by (auto simp: user_exists_def)
  qed
  then show ?thesis using arg_cong [OF assms(4), of snd] by (auto simp: login_grant_state update_conv)
qed

theorem login_overtakes_deletion_witness:
  "let s1 = snd (login_check lab_env lab_web ''203.0.113.2'' ''admin'' ''old password'' lab_accounts);
       s2 = snd (delete_user lab_env lab_web (lab_payload ''admin'') (lab_request ''/api/users'' ''u'') s1);
       s3 = snd (login_grant lab_env lab_web ''v'' ''203.0.113.2'' ''admin'' s2)
   in \<not> user_exists ''admin'' (w_db s3) \<and> map_option sess_username (map_of (active_sessions s3) ''v'') = Some ''admin'' \<and>
      live lab_env (lab_request ''/api/state'' ''v'') s3"
proof -
  let ?c = "login_check lab_env lab_web ''203.0.113.2'' ''admin'' ''old password'' lab_accounts"
  let ?d = "delete_user lab_env lab_web (lab_payload ''admin'') (lab_request ''/api/users'' ''u'') (snd ?c)"
  let ?g = "login_grant lab_env lab_web ''v'' ''203.0.113.2'' ''admin'' (snd ?d)"
  have "fst ?c = Inr ()" "fst ?d = Inr ()" by code_simp+
  then have run: "?c = (Inr (), snd ?c)" "?d = (Inr (), snd ?d)" "?g = (fst ?g, snd ?g)" by (metis prod.collapse)+
  have pl: "pl_username (lab_payload ''admin'') = ''admin''" by (simp add: lab_payload_def)
  have "live lab_env (lab_request ''/api/state'' ''v'') (snd ?g)" by code_simp
  then show ?thesis using login_overtakes_deletion [OF run(1,2) pl run(3)] unfolding Let_def by blast
qed

section \<open>The throttle on logins\<close>

text \<open>The failures noted for a client.\<close>

abbreviation failures :: "world \<Rightarrow> string \<Rightarrow> pyfloat list" where
  "failures s ip \<equiv> dict_get (failed_login_attempts s) ip []"

text \<open>bcrypt knows nothing of the web framework's exception.\<close>

definition bcrypt_raises_own :: "web \<Rightarrow> bool" where
  "bcrypt_raises_own W \<longleftrightarrow> (\<forall>p h c d. checkpw W p h \<noteq> Inl (HTTPException c d))"

lemma login_locked_out_eq:
  "login_locked_out E ip s =
    (let R = recent (e_clock E (w_tick s)) (failures s ip)
     in (Inr (LOGIN_MAX_ATTEMPTS \<le> length R),
         s\<lparr>w_tick := Suc (w_tick s), failed_login_attempts := AList.update ip R (failed_login_attempts s)\<rparr>))"
  by (simp add: login_locked_out_def time_time_def bnd_def Let_def)

lemma record_login_failure_eq:
  "record_login_failure E ip s =
    (Inr (), s\<lparr>w_tick := Suc (w_tick s),
       failed_login_attempts := AList.update ip (failures s ip @ [e_clock E (w_tick s)]) (failed_login_attempts s)\<rparr>)"
  by (simp add: record_login_failure_def time_time_def bnd_def)

lemma db_read_eq:
  "db_read E f s = (if e_io E (w_io s) IO_Db then Inr (f (w_db s)) else Inl SqlError, s\<lparr>w_io := Suc (w_io s)\<rparr>)"
  by (simp add: db_read_def io_check_def io_ok_def bnd_def)

lemma dict_get_delete: "dict_get (AList.delete k xs) k' d = (if k = k' then d else dict_get xs k' d)"
  by (simp add: dict_get_def map_of_delete)

text \<open>What a login does to the failures of its own client and of the others, by its answer.\<close>

datatype login_kind = Locked | Guessed | Broken | Granted

fun kind_of :: "unit answer res \<Rightarrow> login_kind" where
  "kind_of (Inr _) = Granted"
| "kind_of (Inl (HTTPException c _)) = (if c = 429 then Locked else if c = 401 then Guessed else Broken)"
| "kind_of (Inl _) = Broken"

lemma login_Inl:
  "login_check E W ip u pw s = (Inl e, t) \<Longrightarrow>
   login E W tok ip u pw s = (Inl (case e of HTTPException _ _ \<Rightarrow> e | _ \<Rightarrow> HTTPException 500 (e_exn_text E e)), t)"
  by (simp add: login_def try_except_def split: py_exn.split)

lemma login_Inr:
  "login_check E W ip u pw s = (Inr (), t) \<Longrightarrow> login E W tok ip u pw s = (fst (login_grant E W tok ip u t), snd (login_grant E W tok ip u t))"
  by (simp add: login_def try_except_def login_grant_def time_time_def bnd_def)

lemma kind_of_grant: "kind_of (fst (login_grant E W tok ip u t)) = Granted"
  by (simp add: login_grant_def time_time_def bnd_def)

text \<open>The failures that still count, and the state after a login has looked at them, has read the database, and has noted
  another one.\<close>

definition counting :: "env \<Rightarrow> string \<Rightarrow> world \<Rightarrow> pyfloat list" where
  "counting E ip s = recent (e_clock E (w_tick s)) (failures s ip)"

definition after_lock :: "env \<Rightarrow> string \<Rightarrow> world \<Rightarrow> world" where
  "after_lock E ip s = s\<lparr>w_tick := Suc (w_tick s), failed_login_attempts := AList.update ip (counting E ip s) (failed_login_attempts s)\<rparr>"

definition after_read :: "env \<Rightarrow> string \<Rightarrow> world \<Rightarrow> world" where
  "after_read E ip s = (after_lock E ip s)\<lparr>w_io := Suc (w_io s)\<rparr>"

definition after_failure :: "env \<Rightarrow> string \<Rightarrow> world \<Rightarrow> world" where
  "after_failure E ip s = (after_read E ip s)\<lparr>w_tick := Suc (Suc (w_tick s)), failed_login_attempts :=
     AList.update ip (counting E ip s @ [e_clock E (Suc (w_tick s))]) (failed_login_attempts (after_lock E ip s))\<rparr>"

lemmas after_defs = after_lock_def after_read_def after_failure_def

lemma login_check_cases:
  assumes "bcrypt_raises_own W"
  obtains (locked) d where "login_check E W ip u pw s = (Inl (HTTPException 429 d), after_lock E ip s)"
  | (wrong) d where "login_check E W ip u pw s = (Inl (HTTPException 401 d), after_failure E ip s)" "length (counting E ip s) < LOGIN_MAX_ATTEMPTS"
  | (broken) e where "login_check E W ip u pw s = (Inl e, after_read E ip s)" "\<forall>c d. e \<noteq> HTTPException c d"
  | (right) "login_check E W ip u pw s = (Inr (), after_read E ip s)"
proof -
  have lock: "login_locked_out E ip s = (Inr (LOGIN_MAX_ATTEMPTS \<le> length (counting E ip s)), after_lock E ip s)"
    by (simp add: login_locked_out_eq Let_def counting_def after_lock_def)
  have fail: "record_login_failure E ip (after_read E ip s) = (Inr (), after_failure E ip s)"
    by (simp add: record_login_failure_eq after_defs)
  have own: "password_ok W pw h \<noteq> Inl (HTTPException c d)" for h c d
    using assms by (auto simp: bcrypt_raises_own_def password_ok_def split: sum.split py_exn.split)
  have rd: "db_read E f (after_lock E ip s) = (if e_io E (w_io s) IO_Db then Inr (f (w_db s)) else Inl SqlError, after_read E ip s)" for f :: "database \<Rightarrow> string option"
    by (simp add: db_read_eq after_defs)
  show thesis
  proof (cases "LOGIN_MAX_ATTEMPTS \<le> length (counting E ip s)")
    case True
    then show thesis using locked lock by (simp add: login_check_def)
  next
    case open_: False
    show thesis
    proof (cases "e_io E (w_io s) IO_Db")
      case False
      then show thesis using broken [of SqlError] open_ lock rd by (simp add: login_check_def)
    next
      case True
      show thesis
      proof (cases "find_hash u (w_db s)")
        case None
        then show thesis using wrong open_ True lock rd fail by (simp add: login_check_def)
      next
        case (Some h)
        then show thesis using wrong broken right open_ True lock rd fail own [of h]
          by (cases "password_ok W pw h"; cases "password_ok W pw h = Inr True") (simp_all add: login_check_def)
      qed
    qed
  qed
qed

lemma login_effect:
  assumes "bcrypt_raises_own W" and "login E W tok ip u pw s = (r, s')"
  shows "((kind_of r = Locked \<and> failures s' ip = counting E ip s \<and> w_tick s' = w_tick s + 1) \<or>
      (kind_of r = Guessed \<and> length (counting E ip s) < LOGIN_MAX_ATTEMPTS \<and>
         failures s' ip = counting E ip s @ [e_clock E (w_tick s + 1)] \<and> w_tick s' = w_tick s + 2) \<or>
      (kind_of r = Broken \<and> failures s' ip = counting E ip s \<and> w_tick s' = w_tick s + 1) \<or>
      (kind_of r = Granted \<and> w_tick s' = w_tick s + 2)) \<and>
    (\<forall>other. other \<noteq> ip \<longrightarrow> failures s' other = failures s other)"
  using assms(1)
proof (cases rule: login_check_cases [where E = E and ip = ip and u = u and pw = pw and s = s])
  case (locked d)
  then have "r = Inl (HTTPException 429 d)" "s' = after_lock E ip s" using login_Inl [OF locked] assms(2) by auto
  then show ?thesis by (simp add: after_defs)
next
  case (wrong d)
  then have "r = Inl (HTTPException 401 d)" "s' = after_failure E ip s" using login_Inl [OF wrong(1)] assms(2) by auto
  then show ?thesis using wrong(2) by (simp add: after_defs)
next
  case (broken e)
  then have "r = Inl (HTTPException 500 (e_exn_text E e))" "s' = after_read E ip s"
    using login_Inl [OF broken(1)] assms(2) by (auto split: py_exn.splits)
  then show ?thesis by (simp add: after_defs)
next
  case right
  then have "r = fst (login_grant E W tok ip u (after_read E ip s))" "s' = snd (login_grant E W tok ip u (after_read E ip s))"
    using login_Inr [OF right] assms(2) by auto
  then show ?thesis by (simp add: kind_of_grant login_grant_state dict_get_delete after_defs)
qed

text \<open>Logins one after another, each with its client, with their answers.\<close>

fun logins :: "env \<Rightarrow> web \<Rightarrow> (string \<times> string \<times> string \<times> string) list \<Rightarrow> world \<Rightarrow> (string \<times> login_kind) list \<times> world" where
  "logins E W [] s = ([], s)"
| "logins E W ((tok, ip, u, pw) # es) s =
     (let (r, s1) = login E W tok ip u pw s; (ks, s') = logins E W es s1 in ((ip, kind_of r) # ks, s'))"

lemma logins_tick: "bcrypt_raises_own W \<Longrightarrow> w_tick s \<le> w_tick (snd (logins E W es s))"
proof (induction es arbitrary: s)
  case (Cons e es)
  obtain tok ip u pw r s1 where e: "e = (tok, ip, u, pw)" "login E W tok ip u pw s = (r, s1)" by (cases e) fastforce
  then have "w_tick s \<le> w_tick s1" using login_effect [OF Cons.prems e(2)] by auto
  then show ?case using Cons.IH [OF Cons.prems, of s1] e by (simp add: case_prod_beta)
qed simp

text \<open>The failures counted so far, all of them inside the window, are at the end of the list.\<close>

definition counted :: "env \<Rightarrow> nat \<Rightarrow> string \<Rightarrow> nat \<Rightarrow> world \<Rightarrow> bool" where
  "counted E n0 ip k s \<longleftrightarrow> (\<exists>old new. failures s ip = old @ new \<and> length new = k \<and> set new \<subseteq> e_clock E ` {n0..<w_tick s})"

lemma recent_counted:
  assumes "counted E n0 ip k s" and "\<forall>m n. n0 \<le> m \<and> m \<le> n \<and> n < b \<longrightarrow> fle (fsub (e_clock E n) (e_clock E m)) LOGIN_WINDOW_SECS"
    and "w_tick s < b" and "n0 \<le> w_tick s"
  shows "\<exists>old new. counting E ip s = old @ new \<and> length new = k \<and> set new \<subseteq> e_clock E ` {n0..<w_tick s}"
proof -
  obtain old new where new: "failures s ip = old @ new" "length new = k" "set new \<subseteq> e_clock E ` {n0..<w_tick s}"
    using assms(1) unfolding counted_def by blast
  have "fle (fsub (e_clock E (w_tick s)) t) LOGIN_WINDOW_SECS" if "t \<in> set new" for t
    using subsetD [OF new(3) that] assms(2,3) by auto
  then have "recent (e_clock E (w_tick s)) new = new" unfolding recent_def by (intro filter_True) blast
  then show ?thesis using new by (auto simp: counting_def recent_def)
qed

lemma counted_mono: "failures s' ip = old @ new \<Longrightarrow> length new = k \<Longrightarrow> set new \<subseteq> e_clock E ` {n0..<n} \<Longrightarrow> n \<le> w_tick s' \<Longrightarrow> counted E n0 ip k s'"
  unfolding counted_def by (intro exI conjI, assumption, assumption) fastforce

lemma login_counted:
  assumes "bcrypt_raises_own W" and "login E W tok ip u pw s = (r, s')" and "kind_of r \<noteq> Granted" and "counted E n0 ip k s"
    and "\<forall>m n. n0 \<le> m \<and> m \<le> n \<and> n < b \<longrightarrow> fle (fsub (e_clock E n) (e_clock E m)) LOGIN_WINDOW_SECS"
    and "w_tick s' \<le> b" and "n0 \<le> w_tick s"
  shows "counted E n0 ip (if kind_of r = Guessed then Suc k else k) s' \<and> (kind_of r = Guessed \<longrightarrow> k < LOGIN_MAX_ATTEMPTS)"
proof -
  note eff = login_effect [OF assms(1,2)]
  have "w_tick s < w_tick s'" using eff by auto
  then obtain old new where new: "counting E ip s = old @ new" "length new = k"
      "set new \<subseteq> e_clock E ` {n0..<w_tick s}"
    using recent_counted [OF assms(4,5) _ assms(7)] assms(6) by auto
  show ?thesis
  proof (cases "kind_of r = Guessed")
    case True
    then have g: "length (old @ new) < LOGIN_MAX_ATTEMPTS" "failures s' ip = old @ (new @ [e_clock E (w_tick s + 1)])" "w_tick s' = w_tick s + 2"
      using eff new(1) by auto
    have "counted E n0 ip (Suc k) s'"
      using new(3) assms(7) by (intro counted_mono [OF g(2), where n = "w_tick s + 2"]) (auto simp: new(2) g(3))
    then show ?thesis using True g(1) new(2) by simp
  next
    case False
    then have "failures s' ip = old @ new \<and> w_tick s' = w_tick s + 1" using eff new(1) assms(3) by auto
    then have "counted E n0 ip k s'" using new by (intro counted_mono [of s' ip old new, where n = "w_tick s"]) auto
    then show ?thesis using False by simp
  qed
qed

lemma guesses_bounded:
  assumes "bcrypt_raises_own W"
    and "\<forall>m n. n0 \<le> m \<and> m \<le> n \<and> n < w_tick (snd (logins E W es s)) \<longrightarrow> fle (fsub (e_clock E n) (e_clock E m)) LOGIN_WINDOW_SECS"
    and "n0 \<le> w_tick s" and "counted E n0 ip k s" and "k \<le> LOGIN_MAX_ATTEMPTS" and "(ip, Granted) \<notin> set (fst (logins E W es s))"
  shows "k + count_list (fst (logins E W es s)) (ip, Guessed) \<le> LOGIN_MAX_ATTEMPTS"
  using assms(2-)
proof (induction es arbitrary: s k)
  case (Cons e es)
  obtain tok ip' u pw r s1 where e: "e = (tok, ip', u, pw)" "login E W tok ip' u pw s = (r, s1)" by (cases e) fastforce
  have run: "logins E W (e # es) s = ((ip', kind_of r) # fst (logins E W es s1), snd (logins E W es s1))"
    using e by (simp add: case_prod_beta)
  have tick: "w_tick s \<le> w_tick s1" using login_effect [OF assms(1) e(2)] by auto
  have win: "\<forall>m n. n0 \<le> m \<and> m \<le> n \<and> n < w_tick (snd (logins E W es s1)) \<longrightarrow> fle (fsub (e_clock E n) (e_clock E m)) LOGIN_WINDOW_SECS"
    using Cons.prems(1) run by simp
  have rest: "(ip, Granted) \<notin> set (fst (logins E W es s1))" using Cons.prems(5) run by simp
  let ?k = "if ip' = ip \<and> kind_of r = Guessed then Suc k else k"
  have "counted E n0 ip ?k s1 \<and> ?k \<le> LOGIN_MAX_ATTEMPTS"
  proof (cases "ip' = ip")
    case True
    then have "kind_of r \<noteq> Granted" using Cons.prems(5) run by auto
    then show ?thesis
      using login_counted [OF assms(1) e(2) [unfolded True] _ Cons.prems(3) win logins_tick [OF assms(1)] Cons.prems(2)] True Cons.prems(4)
      by auto
  next
    case False
    then have "failures s1 ip = failures s ip" using login_effect [OF assms(1) e(2)] by simp
    then show ?thesis using False Cons.prems(3,4) tick unfolding counted_def by fastforce
  qed
  then have "?k + count_list (fst (logins E W es s1)) (ip, Guessed) \<le> LOGIN_MAX_ATTEMPTS"
    using Cons.IH [OF win _ _ _ rest] Cons.prems(2) tick by (meson le_trans)
  then show ?case unfolding run by (auto split: if_splits)
qed simp



end
