(* ===== verification/Ip_Address.thy ===== *)
theory Ip_Address
  imports Wire
begin

text \<open>
  What \<open>stage2/models.py\<close> and \<open>stage2/playbooks_api.py\<close> use of Python's \<open>ipaddress\<close> module: whether \<open>ip_address\<close> and
  \<open>ip_network\<close> (with \<open>strict=False\<close>) accept a text. An IPv6 address may carry a scope after a percent sign. The
  validators of the request payloads follow.
\<close>

section \<open>Addresses\<close>

definition is_hex :: "char \<Rightarrow> bool" where
  "is_hex c \<longleftrightarrow> is_digit c \<or> c \<in> set ''abcdefABCDEF''"

definition octet_value :: "string \<Rightarrow> int option" where
  "octet_value s =
     (if s = [] \<or> \<not> list_all is_digit s \<or> 3 < length s \<or> (s \<noteq> ''0'' \<and> hd s = CHR ''0'') then None
      else case read_digits 0 s of None \<Rightarrow> None | Some n \<Rightarrow> if 255 < n then None else Some n)"

fun octet_values :: "string list \<Rightarrow> int \<Rightarrow> int option" where
  "octet_values [] acc = Some acc"
| "octet_values (s # ss) acc = (case octet_value s of None \<Rightarrow> None | Some n \<Rightarrow> octet_values ss (acc * 256 + n))"

definition ipv4_value :: "string \<Rightarrow> int option" where
  "ipv4_value s =
     (if CHR ''/'' \<in> set s then None
      else let octets = split_on (CHR ''.'') s in if length octets \<noteq> 4 then None else octet_values octets 0)"

definition hextet_ok :: "string \<Rightarrow> bool" where
  "hextet_ok s \<longleftrightarrow> s \<noteq> [] \<and> list_all is_hex s \<and> length s \<le> 4"

text \<open>The last part may be a dotted IPv4 address, which stands for two parts.\<close>

definition ipv6_parts :: "string \<Rightarrow> string list option" where
  "ipv6_parts s =
     (let parts = split_on (CHR '':'') s
      in if length parts < 3 then None
         else if CHR ''.'' \<in> set (last parts)
         then map_option (\<lambda>n. butlast parts @ [show_hex (nat (n div 65536)), show_hex (nat (n mod 65536))]) (ipv4_value (last parts))
         else Some parts)"

text \<open>The positions of the empty parts between the two ends, where a double colon is.\<close>

definition inner_gaps :: "string list \<Rightarrow> nat list" where
  "inner_gaps parts = filter (\<lambda>i. parts ! i = []) [1..<length parts - 1]"

definition parts_ok :: "string list \<Rightarrow> bool" where
  "parts_ok parts \<longleftrightarrow>
     length parts \<le> 9 \<and>
     (case inner_gaps parts of
        [] \<Rightarrow> length parts = 8 \<and> list_all hextet_ok parts
      | [skip] \<Rightarrow>
          (let hi = (if hd parts = [] then skip - 1 else skip);
               lo = (if last parts = [] then length parts - skip - 2 else length parts - skip - 1)
           in (hd parts = [] \<longrightarrow> hi = 0) \<and> (last parts = [] \<longrightarrow> lo = 0) \<and> hi + lo < 8 \<and>
              list_all hextet_ok (take hi parts) \<and> list_all hextet_ok (drop (length parts - lo) parts))
      | _ \<Rightarrow> False)"

definition split_scope :: "string \<Rightarrow> (string \<times> string option) option" where
  "split_scope s =
     (case break_at (\<lambda>c. c = CHR ''%'') s of
        (addr, None) \<Rightarrow> Some (addr, None)
      | (addr, Some scope) \<Rightarrow> if scope = [] \<or> CHR ''%'' \<in> set scope then None else Some (addr, Some scope))"

definition ipv6_ok :: "string \<Rightarrow> bool" where
  "ipv6_ok s \<longleftrightarrow>
     CHR ''/'' \<notin> set s \<and>
     (case split_scope s of
        None \<Rightarrow> False
      | Some (addr, _) \<Rightarrow> (case ipv6_parts addr of None \<Rightarrow> False | Some parts \<Rightarrow> parts_ok parts))"

definition is_ip_address :: "string \<Rightarrow> bool" where
  "is_ip_address s \<longleftrightarrow> ipv4_value s \<noteq> None \<or> ipv6_ok s"

section \<open>Networks\<close>

definition prefix_ok :: "int \<Rightarrow> string \<Rightarrow> bool" where
  "prefix_ok bits s \<longleftrightarrow> s \<noteq> [] \<and> list_all is_digit s \<and> (case read_digits 0 s of None \<Rightarrow> False | Some n \<Rightarrow> n \<le> bits)"

text \<open>A netmask or a hostmask in dotted form.\<close>

definition mask_ok :: "string \<Rightarrow> bool" where
  "mask_ok s =
     (case ipv4_value s of
        None \<Rightarrow> False
      | Some n \<Rightarrow> list_ex (\<lambda>k. n = 2 ^ 32 - 2 ^ k \<or> n = 2 ^ k - 1) [0..<33])"

definition is_ip_network :: "string \<Rightarrow> bool" where
  "is_ip_network s =
     (case split_on (CHR ''/'') s of
        [addr] \<Rightarrow> ipv4_value addr \<noteq> None \<or> ipv6_ok addr
      | [addr, netmask] \<Rightarrow>
          ipv4_value addr \<noteq> None \<and> (prefix_ok 32 netmask \<or> mask_ok netmask) \<or> ipv6_ok addr \<and> prefix_ok 128 netmask
      | _ \<Rightarrow> False)"

section \<open>Payloads\<close>

definition validate_host_ip :: "string \<Rightarrow> string res" where
  "validate_host_ip ip = (if is_ip_address ip then Inr ip else Inl ValueError)"

definition validate_host_ip_or_400 :: "string \<Rightarrow> string res" where
  "validate_host_ip_or_400 ip =
     (case validate_host_ip ip of
        Inr v \<Rightarrow> Inr v
      | Inl _ \<Rightarrow> Inl (HTTPException 400 ([CHR 0x27] @ ip @ [CHR 0x27] @ '' is not a valid IP address.'')))"

record ip_payload =
  pl_ip :: string
  pl_victim_ip :: "string option"

definition ip_payload_ok :: "ip_payload \<Rightarrow> bool" where
  "ip_payload_ok p \<longleftrightarrow>
     is_ip_address (pl_ip p) \<and> (case pl_victim_ip p of None \<Rightarrow> True | Some v \<Rightarrow> v = [] \<or> is_ip_address v)"

record victim_payload =
  vp_ip :: string
  vp_description :: string

definition victim_payload_ok :: "victim_payload \<Rightarrow> bool" where
  "victim_payload_ok p \<longleftrightarrow> is_ip_address (vp_ip p) \<and> length (vp_description p) \<le> 200"

end
