(* ===== verification/Ip_Address_Laws.thy ===== *)
theory Ip_Address_Laws
  imports Ip_Address
begin

text \<open>
  The laws of the address validator: every address the sensor can report is accepted, nothing accepted holds a slash, and without a
  scope it is made of hexadecimal digits, dots and colons; with a scope nearly any text passes.
\<close>

section \<open>What the validators let through\<close>

lemma split_on_aux_chars: "set s \<subseteq> insert sep (\<Union>(set ` set (split_on_aux sep acc s)))"
proof (induction s arbitrary: acc)
  case (Cons c cs)
  have "c \<in> \<Union>(set ` set (split_on_aux sep acc' cs))" if "c \<in> set acc'" for acc'
    using that by (induction cs arbitrary: acc') auto
  then show ?case using Cons [of "[]"] Cons [of "c # acc"] by auto
qed simp

lemma split_on_chars: "set s \<subseteq> insert sep (\<Union>(set ` set (split_on sep s)))"
  unfolding split_on_def by (rule split_on_aux_chars)

definition addr_chars :: "char set" where
  "addr_chars = {c. is_hex c \<or> c = CHR ''.'' \<or> c = CHR '':''}"

lemma is_hex_digit: "is_digit c \<Longrightarrow> is_hex c"
  by (simp add: is_hex_def)

lemma octet_values_digits: "octet_values ss acc = Some n \<Longrightarrow> s \<in> set ss \<Longrightarrow> list_all is_digit s"
  by (induction ss arbitrary: acc) (auto simp: octet_value_def split: option.splits if_splits)

lemma ipv4_chars:
  assumes "ipv4_value s = Some n"
  shows "set s \<subseteq> addr_chars"
proof -
  have "octet_values (split_on (CHR ''.'') s) 0 = Some n" using assms by (simp add: ipv4_value_def Let_def split: if_splits)
  then have "\<forall>q \<in> set (split_on (CHR ''.'') s). list_all is_digit q" by (intro ballI) (rule octet_values_digits)
  then have "\<Union>(set ` set (split_on (CHR ''.'') s)) \<subseteq> addr_chars" by (auto simp: addr_chars_def list_all_iff intro: is_hex_digit)
  moreover have "CHR ''.'' \<in> addr_chars" by (simp add: addr_chars_def)
  ultimately show ?thesis using split_on_chars [of s "CHR ''.''"] by blast
qed

text \<open>Every part is empty or a group of hexadecimal digits.\<close>

lemma parts_ok_each:
  assumes "parts_ok parts" and "p \<in> set parts"
  shows "p = [] \<or> hextet_ok p"
proof (cases "inner_gaps parts")
  case Nil
  then show ?thesis using assms by (auto simp: parts_ok_def list_all_iff)
next
  case (Cons skip rest)
  then have rest: "rest = []" using assms(1) by (cases rest) (auto simp: parts_ok_def)
  have "skip \<in> set (inner_gaps parts)" using Cons by simp
  then have skip: "1 \<le> skip" "skip < length parts - 1" "parts ! skip = []" by (auto simp: inner_gaps_def)
  define hi where "hi = (if hd parts = [] then skip - 1 else skip)"
  define lo where "lo = (if last parts = [] then length parts - skip - 2 else length parts - skip - 1)"
  have ok: "hd parts = [] \<longrightarrow> hi = 0" "last parts = [] \<longrightarrow> lo = 0"
      "\<forall>q \<in> set (take hi parts). hextet_ok q" "\<forall>q \<in> set (drop (length parts - lo) parts). hextet_ok q"
    using assms(1) Cons rest by (auto simp: parts_ok_def Let_def hi_def lo_def list_all_iff)
  obtain i where i: "i < length parts" "p = parts ! i" using assms(2) by (auto simp: in_set_conv_nth)
  consider "i < skip" | "i = skip" | "skip < i" by linarith
  then show ?thesis
  proof cases
    case 1
    show ?thesis
    proof (cases "hd parts = []")
      case True
      then have "i = 0" using 1 ok(1) by (simp add: hi_def)
      then show ?thesis using True i hd_conv_nth [of parts] by (cases parts) auto
    next
      case False
      then have "p \<in> set (take hi parts)" using 1 i by (auto simp: hi_def in_set_conv_nth)
      then show ?thesis using ok(3) by blast
    qed
  next
    case 2
    then show ?thesis using skip i by simp
  next
    case 3
    show ?thesis
    proof (cases "last parts = []")
      case True
      then have "i = length parts - 1" using 3 i ok(2) skip by (simp add: lo_def)
      then show ?thesis using True i last_conv_nth [of parts] by (cases parts) auto
    next
      case False
      then have "length parts - lo = Suc skip" using skip by (simp add: lo_def)
      then have "drop (length parts - lo) parts ! (i - Suc skip) = p" "i - Suc skip < length (drop (length parts - lo) parts)"
        using 3 i by simp_all
      then show ?thesis using ok(4) by (metis nth_mem)
    qed
  qed
qed

lemma parts_chars:
  assumes "\<forall>p \<in> set parts. p = [] \<or> hextet_ok p"
  shows "\<Union>(set ` set parts) \<subseteq> addr_chars"
  using assms by (auto simp: hextet_ok_def list_all_iff addr_chars_def)

lemma ipv6_parts_chars:
  assumes "ipv6_parts s = Some parts" and "parts_ok parts"
  shows "set s \<subseteq> addr_chars"
proof -
  let ?ps = "split_on (CHR '':'') s"
  have each: "\<Union>(set ` set parts) \<subseteq> addr_chars" by (rule parts_chars) (use parts_ok_each [OF assms(2)] in blast)
  have "\<Union>(set ` set ?ps) \<subseteq> addr_chars"
  proof (cases "CHR ''.'' \<in> set (last ?ps)")
    case True
    then obtain n where n: "ipv4_value (last ?ps) = Some n" "\<forall>p \<in> set (butlast ?ps). p \<in> set parts"
      using assms(1) by (auto simp: ipv6_parts_def Let_def split: if_splits)
    have ne: "?ps \<noteq> []" using assms(1) by (auto simp: ipv6_parts_def Let_def split: if_splits)
    have "set ?ps = insert (last ?ps) (set (butlast ?ps))" using append_butlast_last_id [OF ne] by (metis Un_insert_right list.set(1) list.set(2) set_append sup_bot.right_neutral)
    then show ?thesis using n(2) each ipv4_chars [OF n(1)] by auto
  next
    case False
    then show ?thesis using assms(1) each by (auto simp: ipv6_parts_def Let_def split: if_splits)
  qed
  moreover have "CHR '':'' \<in> addr_chars" by (simp add: addr_chars_def)
  ultimately show ?thesis using split_on_chars [of s "CHR '':''"] by blast
qed

lemma show_nat_length: "n < 10 ^ k \<Longrightarrow> 0 < k \<Longrightarrow> length (show_nat n) \<le> k"
proof (induction n arbitrary: k rule: show_nat.induct)
  case (1 n)
  show ?case
  proof (cases "n < 10")
    case True
    then show ?thesis using 1 by (simp add: show_nat.simps [of n] Suc_le_eq)
  next
    case False
    then obtain j where k: "k = Suc (Suc j)" using 1 by (cases k; cases "k - 1") auto
    then have "n div 10 < 10 ^ Suc j" using 1 by (simp add: less_mult_imp_div_less mult.commute)
    then show ?thesis using 1(1) [OF False, of "Suc j"] False k by (simp add: show_nat.simps [of n])
  qed
qed

lemma show_nat_leading: "hd (show_nat n) = CHR ''0'' \<Longrightarrow> n = 0"
proof (induction n rule: show_nat.induct)
  case (1 n)
  show ?case
  proof (cases "n < 10")
    case True
    then have "digit_val (hd (show_nat n)) = Some n" by (simp add: show_nat.simps [of n])
    moreover have "digit_val (CHR ''0'') = Some 0" by (simp add: digit_val_def)
    ultimately show ?thesis using 1(2) by simp
  next
    case False
    then show ?thesis using 1 by (simp add: show_nat.simps [of n])
  qed
qed

lemma octet_value_byte: "n < 256 \<Longrightarrow> octet_value (show_nat n) \<noteq> None"
proof -
  assume n: "n < 256"
  have zero: "show_nat 0 = ''0''" by (simp add: show_nat.simps digit_char_def char_of_eq_iff)
  have "list_all is_digit (show_nat n)" using show_nat_chars(2) by (simp add: list_all_iff)
  moreover have "length (show_nat n) \<le> 3" using show_nat_length [of n 3] n by simp
  moreover have "show_nat n = ''0'' \<or> hd (show_nat n) \<noteq> CHR ''0''" using show_nat_leading [of n] zero by auto
  ultimately show ?thesis using n by (auto simp: octet_value_def read_show_nat)
qed

lemma octet_values_bytes: "\<forall>n \<in> set ns. n < 256 \<Longrightarrow> octet_values (map show_nat ns) acc \<noteq> None"
  by (induction ns arbitrary: acc) (use octet_value_byte in \<open>auto split: option.split\<close>)

lemma unat_byte: "unat (b :: byte) < 256"
  using unsigned_less [of b, where 'a = nat] by simp

lemma show_ipv4_ok:
  assumes "length bs = 4"
  shows "ipv4_value (show_ipv4 bs) \<noteq> None"
proof -
  let ?ss = "map show_nat (map unat bs)"
  have "split_on (CHR ''.'') (show_ipv4 bs) = ?ss"
    unfolding show_ipv4_def using assms show_nat_no_dot by (subst split_join) auto
  moreover have "CHR ''/'' \<notin> set (show_ipv4 bs)"
  proof -
    have "CHR ''/'' \<notin> set (join ''.'' (map show_nat ns))" for ns
      by (induction ns) (auto dest: show_nat_chars(2) simp: is_digit_def digit_val_def)
    from this [of "map unat bs"] show ?thesis by (simp add: show_ipv4_def comp_def)
  qed
  moreover have "octet_values ?ss 0 \<noteq> None"
    by (rule octet_values_bytes) (auto simp: unat_byte)
  ultimately show ?thesis using assms by (simp add: ipv4_value_def Let_def)
qed

section \<open>The sensor's addresses are accepted\<close>

lemma inner_gaps_one:
  assumes "X \<noteq> []" "Y \<noteq> []" "[] \<notin> set (tl X)" "[] \<notin> set (butlast Y)"
  shows "inner_gaps (X @ [[]] @ Y) = [length X]"
proof -
  let ?ps = "X @ [[]] @ Y"
  have len: "[1..<length ?ps - 1] = [1..<length X] @ [length X] @ [Suc (length X)..<length X + length Y]"
    using assms(1,2) upt_add_eq_append [of 1 "length X" "length Y"] by (simp add: Suc_le_eq upt_conv_Cons)
  have "filter (\<lambda>i. ?ps ! i = []) [1..<length X] = []"
  proof -
    have "?ps ! i \<noteq> []" if "i \<in> set [1..<length X]" for i
    proof -
      have "tl X ! (i - 1) \<in> set (tl X)" using that by (intro nth_mem) auto
      then show ?thesis using that assms(3) by (auto simp: nth_append nth_tl)
    qed
    then show ?thesis by (simp add: filter_empty_conv)
  qed
  moreover have "filter (\<lambda>i. ?ps ! i = []) [Suc (length X)..<length X + length Y] = []"
  proof -
    have "?ps ! i \<noteq> []" if "i \<in> set [Suc (length X)..<length X + length Y]" for i
    proof -
      have "butlast Y ! (i - Suc (length X)) \<in> set (butlast Y)" using that by (intro nth_mem) auto
      moreover have "?ps ! i = butlast Y ! (i - Suc (length X))" using that by (auto simp: nth_append nth_butlast)
      ultimately show ?thesis using assms(4) by metis
    qed
    then show ?thesis by (simp add: filter_empty_conv)
  qed
  ultimately show ?thesis unfolding inner_gaps_def len filter_append by simp
qed

lemma best_zero_run_range:
  assumes "best_zero_run hs i cur best = (st, len)" and "1 < len" and "snd best \<le> 1 \<or> fst best + snd best \<le> i"
    and "case cur of None \<Rightarrow> True | Some (a, b) \<Rightarrow> a + b = i"
  shows "st + len \<le> i + length hs"
  using assms
proof (induction hs i cur best rule: best_zero_run.induct)
  case (2 h hs i cur best)
  then show ?case by (auto split: if_splits option.splits)
qed auto

lemma hextet_digit: "d < 16 \<Longrightarrow> is_hex (hex_digit d)"
proof -
  assume "d < 16"
  then consider "d < 10" | "d = 10" | "d = 11" | "d = 12" | "d = 13" | "d = 14" | "d = 15" by linarith
  then show "is_hex (hex_digit d)"
  proof cases
    case 1
    then show ?thesis by (intro is_hex_digit) (simp add: hex_digit_def is_digit_def)
  qed (simp_all add: hex_digit_def is_hex_def char_of_eq_iff)
qed

lemma show_hex_ok: "n < 16 ^ k \<Longrightarrow> 0 < k \<Longrightarrow> show_hex n \<noteq> [] \<and> list_all is_hex (show_hex n) \<and> length (show_hex n) \<le> k"
proof (induction n arbitrary: k rule: show_hex.induct)
  case (1 n)
  show ?case
  proof (cases "n < 16")
    case True
    then show ?thesis using 1 hextet_digit by (simp add: show_hex.simps [of n] Suc_le_eq)
  next
    case False
    then obtain j where k: "k = Suc (Suc j)" using 1 by (cases k; cases "k - 1") auto
    then have "n div 16 < 16 ^ Suc j" using 1 by (simp add: less_mult_imp_div_less mult.commute)
    then show ?thesis using 1(1) [OF False, of "Suc j"] False k hextet_digit by (simp add: show_hex.simps [of n])
  qed
qed

lemma hextets_ok: "h \<in> set (hextets bs) \<Longrightarrow> hextet_ok h"
proof (induction bs rule: hextets.induct)
  case (1 a b bs)
  have "256 * unat a + unat b < 16 ^ 4"
    using unat_byte [of a] unat_byte [of b] by simp
  then show ?case using 1 show_hex_ok [of _ 4] by (auto simp: hextet_ok_def)
qed auto

lemma length_hextets: "length (hextets bs) = length bs div 2"
  by (induction bs rule: hextets.induct) auto

lemma hex_no_mark: "is_hex c \<Longrightarrow> c \<notin> {CHR ''/'', CHR ''%'', CHR ''.'', CHR '':''}"
proof -
  have "list_all (\<lambda>c. \<not> is_hex c) [CHR ''/'', CHR ''%'', CHR ''.'', CHR '':'']" by code_simp
  then show "is_hex c \<Longrightarrow> c \<notin> {CHR ''/'', CHR ''%'', CHR ''.'', CHR '':''}" by auto
qed

text \<open>One gap between groups of hexadecimal digits; a side without groups is an empty part.\<close>

lemma parts_ok_gap:
  assumes X: "X = [[]] \<or> (X \<noteq> [] \<and> list_all hextet_ok X)" and Y: "Y = [[]] \<or> (Y \<noteq> [] \<and> list_all hextet_ok Y)"
    and few: "length (filter (\<lambda>p. p \<noteq> []) (X @ Y)) < 8"
  shows "parts_ok (X @ [[]] @ Y)"
proof -
  let ?ps = "X @ [[]] @ Y"
  have ne: "hextet_ok p \<Longrightarrow> p \<noteq> []" for p by (simp add: hextet_ok_def)
  have full: "Z \<noteq> [] \<Longrightarrow> list_all hextet_ok Z \<Longrightarrow> hd Z \<noteq> [] \<and> last Z \<noteq> [] \<and> filter (\<lambda>p. p \<noteq> []) Z = Z" for Z
    using ne by (auto simp: list_all_iff intro!: filter_True)
  have "[] \<notin> set (tl X)" using X ne by (cases X) (auto simp: list_all_iff)
  moreover have "[] \<notin> set (butlast Y)" using Y ne in_set_butlastD [of "[]" Y] by (auto simp: list_all_iff)
  ultimately have gap: "inner_gaps ?ps = [length X]" using X Y by (intro inner_gaps_one) auto
  consider "X = [[]]" "Y = [[]]" | "X = [[]]" "Y \<noteq> []" "list_all hextet_ok Y" | "Y = [[]]" "X \<noteq> []" "list_all hextet_ok X"
    | "X \<noteq> []" "list_all hextet_ok X" "Y \<noteq> []" "list_all hextet_ok Y"
    using X Y by blast
  then show ?thesis
  proof cases
    case 1
    then show ?thesis using gap by (simp add: parts_ok_def Let_def)
  next
    case 2
    then show ?thesis using gap full [of Y] few by (simp add: parts_ok_def Let_def)
  next
    case 3
    then show ?thesis using gap full [of X] few by (simp add: parts_ok_def Let_def hd_append)
  next
    case 4
    then show ?thesis using gap full [of X] full [of Y] few by (simp add: parts_ok_def Let_def hd_append)
  qed
qed

lemma compress_ok:
  assumes "length hs = 8" and "list_all hextet_ok hs"
  shows "parts_ok (compress_hextets hs) \<and> 3 \<le> length (compress_hextets hs) \<and> (\<forall>p \<in> set (compress_hextets hs). p = [] \<or> hextet_ok p)"
proof -
  obtain st len where b: "best_zero_run hs 0 None (0, 0) = (st, len)" by fastforce
  have ne: "\<forall>p \<in> set hs. p \<noteq> []" using assms(2) by (auto simp: list_all_iff hextet_ok_def)
  show ?thesis
  proof (cases "1 < len")
    case False
    have "inner_gaps hs = []" using ne assms(1) by (auto simp: inner_gaps_def filter_empty_conv)
    then have "parts_ok hs" using assms by (simp add: parts_ok_def)
    then show ?thesis using assms b False by (simp add: compress_hextets_def list_all_iff)
  next
    case True
    have le: "st + len \<le> 8" using best_zero_run_range [OF b True] assms(1) by simp
    define X where "X = (if st = 0 then [[]] else take st hs)"
    define Y where "Y = (if st + len = 8 then [[]] else drop (st + len) hs)"
    have eq: "compress_hextets hs = X @ [[]] @ Y"
      using b True le assms(1) by (auto simp: compress_hextets_def X_def Y_def Let_def)
    have X: "X = [[]] \<or> (X \<noteq> [] \<and> list_all hextet_ok X)" and Y: "Y = [[]] \<or> (Y \<noteq> [] \<and> list_all hextet_ok Y)"
      using assms le by (auto simp: X_def Y_def list_all_iff dest: in_set_takeD in_set_dropD)
    have "length (filter (\<lambda>p. p \<noteq> []) X) \<le> st" "length (filter (\<lambda>p. p \<noteq> []) Y) \<le> 8 - (st + len)"
      using assms(1) length_filter_le [of "\<lambda>p. p \<noteq> []" "take st hs"] length_filter_le [of "\<lambda>p. p \<noteq> []" "drop (st + len) hs"]
      by (auto simp: X_def Y_def)
    then have "length (filter (\<lambda>p. p \<noteq> []) (X @ Y)) < 8" using True le by simp
    then show ?thesis using parts_ok_gap [OF X Y] X Y unfolding eq by (cases X; cases Y) (auto simp: list_all_iff)
  qed
qed

lemma join_chars: "set (join [sep] xs) \<subseteq> insert sep (\<Union>(set ` set xs))"
  by (induction xs) auto

lemma split_scope_none: "CHR ''%'' \<notin> set s \<Longrightarrow> split_scope s = Some (s, None)"
proof -
  assume "CHR ''%'' \<notin> set s"
  then have d: "dropWhile (\<lambda>c. c \<noteq> CHR ''%'') s = []" "takeWhile (\<lambda>c. c \<noteq> CHR ''%'') s = s" by auto
  show ?thesis unfolding split_scope_def break_at_def d by simp
qed

lemma show_ipv6_ok:
  assumes "length bs = 16"
  shows "ipv6_ok (show_ipv6 bs)"
proof -
  let ?ps = "compress_hextets (hextets bs)"
  have ok: "parts_ok ?ps" "3 \<le> length ?ps" "\<forall>p \<in> set ?ps. p = [] \<or> hextet_ok p"
    using compress_ok [of "hextets bs"] assms hextets_ok by (auto simp: length_hextets list_all_iff)
  have hex: "is_hex c" if "p \<in> set ?ps" "c \<in> set p" for p c
    using bspec [OF ok(3) that(1)] that(2) by (auto simp: hextet_ok_def list_all_iff)
  have ne: "?ps \<noteq> []" using ok(2) by auto
  have "split_on (CHR '':'') (show_ipv6 bs) = ?ps"
    unfolding show_ipv6_def using hex hex_no_mark by (intro split_join ne) blast
  moreover have "CHR ''.'' \<notin> set (last ?ps)" using hex [OF last_in_set [OF ne]] hex_no_mark by blast
  ultimately have "ipv6_parts (show_ipv6 bs) = Some ?ps" using ok(2) by (simp add: ipv6_parts_def)
  moreover have "CHR ''/'' \<notin> set (show_ipv6 bs)" "CHR ''%'' \<notin> set (show_ipv6 bs)"
    using join_chars [of "CHR '':''" ?ps] hex hex_no_mark unfolding show_ipv6_def by fastforce+
  ultimately show ?thesis using ok(1) split_scope_none [of "show_ipv6 bs"] by (simp add: ipv6_ok_def)
qed

text \<open>
  C12. The dashboard takes every address the sensor reports and no range. Whatever sixteen bytes the sensor sends as an address, IPv4 or IPv6, compressed
  or not, the text the receiver makes of them is accepted by the validator, so an operator can whitelist, block or release it. And what
  the validator accepts holds no slash, so it is never a range that ipset would expand; without a scope it consists of hexadecimal digits,
  dots and colons.
\<close>

theorem host_ip_gate:
  "(length bs = 16 \<longrightarrow> validate_host_ip (decode_ip bs) = Inr (decode_ip bs)) \<and>
   (validate_host_ip s = Inr v \<longrightarrow> v = s \<and> CHR ''/'' \<notin> set s \<and> (CHR ''%'' \<notin> set s \<longrightarrow> set s \<subseteq> addr_chars))"
proof (intro conjI impI)
  assume "length bs = 16"
  then have "is_ip_address (decode_ip bs)"
    using show_ipv4_ok show_ipv6_ok by (auto simp: decode_ip_def ipv4_mapped_def is_ip_address_def split: option.split)
  then show "validate_host_ip (decode_ip bs) = Inr (decode_ip bs)" by (simp add: validate_host_ip_def)
next
  assume v: "validate_host_ip s = Inr v"
  then show "v = s" by (simp add: validate_host_ip_def split: if_splits)
  have ok: "is_ip_address s" using v by (simp add: validate_host_ip_def split: if_splits)
  then show "CHR ''/'' \<notin> set s" by (auto simp: is_ip_address_def ipv6_ok_def ipv4_value_def split: if_splits)
  assume "CHR ''%'' \<notin> set s"
  then have "split_scope s = Some (s, None)" by (rule split_scope_none)
  then have "(\<exists>n. ipv4_value s = Some n) \<or> (\<exists>parts. ipv6_parts s = Some parts \<and> parts_ok parts)"
    using ok by (auto simp: is_ip_address_def ipv6_ok_def split: option.splits)
  then show "set s \<subseteq> addr_chars" by (elim disjE exE conjE) (erule ipv4_chars, erule (1) ipv6_parts_chars)
qed

theorem host_ip_gate_witness:
  "validate_host_ip (decode_ip (replicate 15 0 @ [1])) = Inr ''::1'' \<and>
   CHR ''/'' \<notin> set ''192.0.2.3'' \<and> set ''192.0.2.3'' \<subseteq> addr_chars"
proof -
  have "decode_ip (replicate 15 0 @ [1]) = ''::1''" by code_simp
  moreover have "validate_host_ip ''192.0.2.3'' = Inr ''192.0.2.3''" "CHR ''%'' \<notin> set ''192.0.2.3''" by code_simp+
  ultimately show ?thesis
    using host_ip_gate [of "replicate 15 0 @ [1]" "''192.0.2.3''" "''192.0.2.3''"] by simp
qed

text \<open>
  The validator is not the gate against markup it is meant to be: an IPv6 address may carry a scope, and any text without a slash
  and another percent sign is a scope, so a host address can end in nearly anything.
\<close>

theorem scope_smuggles_text:
  assumes "scope \<noteq> []" and "CHR ''/'' \<notin> set scope" and "CHR ''%'' \<notin> set scope"
  shows "validate_host_ip (''::1%'' @ scope) = Inr (''::1%'' @ scope)"
proof -
  have "ipv6_parts ''::1'' = Some [[], [], ''1'']" "parts_ok [[], [], ''1'']" by code_simp+
  moreover have "split_scope (''::1%'' @ scope) = Some (''::1'', Some scope)"
    using assms by (simp add: split_scope_def break_at_def)
  ultimately show ?thesis using assms by (simp add: validate_host_ip_def is_ip_address_def ipv6_ok_def)
qed

theorem scope_smuggles_text_witness:
  "validate_host_ip ''::1%<img src=x onerror=alert(1)>'' = Inr ''::1%<img src=x onerror=alert(1)>''"
  using scope_smuggles_text [of "''<img src=x onerror=alert(1)>''"] by simp

end
