(* ===== verification/Dashboard.thy ===== *)
theory Dashboard
  imports Receiver Ip_Address
begin

text \<open>
  \<open>stage2/api.py\<close>: the routes of the dashboard for the current state and its history, the whitelist, the shared
  addresses, the victims, the firewall and the settings of the enforcement. A route runs behind the gate of
  \<open>Auth\<close> and, when it takes a body, after the checks of its payload.

  What the network devices report under \<open>/sys/class/net\<close> is an argument, as is the version read at the start. A rate
  that is not a number has no place in the order of the attack sources; without one the order below is that of Python's
  sort.
\<close>

section \<open>Network devices\<close>

record net_device =
  nd_name :: string
  nd_operstate :: "string option"
  nd_address :: "string option"
  nd_ip :: "string option"
  nd_flags :: "string option"

definition hex_val :: "char \<Rightarrow> int option" where
  "hex_val c =
     (let n = of_char (to_lower c) :: nat
      in case digit_val c of
           Some d \<Rightarrow> Some (int d)
         | None \<Rightarrow> if 97 \<le> n \<and> n \<le> 102 then Some (int n - 87) else None)"

text \<open>Digits with single underscores between two digits.\<close>

fun read_hex_digits :: "int \<Rightarrow> string \<Rightarrow> int option" where
  "read_hex_digits acc [] = None"
| "read_hex_digits acc [c] = map_option (\<lambda>d. acc * 16 + d) (hex_val c)"
| "read_hex_digits acc (c # d # cs) =
     (case hex_val c of
        None \<Rightarrow> None
      | Some v \<Rightarrow> read_hex_digits (acc * 16 + v) (if d = CHR ''_'' then cs else d # cs))"

definition read_hex :: "string \<Rightarrow> int res" where
  "read_hex s =
     (let (neg, t) = split_sign (strip s);
          ds = (if map to_lower (take 2 t) = ''0x'' then (if take 1 (drop 2 t) = ''_'' then drop 3 t else drop 2 t) else t)
      in case read_hex_digits 0 ds of None \<Rightarrow> Inl ValueError | Some n \<Rightarrow> Inr (if neg then - n else n))"

definition get_interface_ip :: "net_device \<Rightarrow> string" where
  "get_interface_ip d = (case nd_ip d of None \<Rightarrow> ''UNASSIGNED'' | Some ip \<Rightarrow> ip)"

definition is_interface_promisc :: "net_device \<Rightarrow> bool" where
  "is_interface_promisc d =
     (case nd_flags d of
        None \<Rightarrow> False
      | Some t \<Rightarrow> (case read_hex (strip t) of Inl _ \<Rightarrow> False | Inr flags \<Rightarrow> bit flags 8))"

definition interface_entry :: "net_device \<Rightarrow> json" where
  "interface_entry d =
     JObj [(''name'', JStr (nd_name d)),
           (''mac'', JStr (case nd_address d of None \<Rightarrow> [] | Some m \<Rightarrow> strip m)),
           (''ip'', JStr (get_interface_ip d)),
           (''up'', JBool (case nd_operstate d of None \<Rightarrow> False | Some t \<Rightarrow> strip t = ''up'')),
           (''promisc'', JBool (is_interface_promisc d))]"

section \<open>The current state\<close>

definition source_above :: "ddos_source \<Rightarrow> ddos_source \<Rightarrow> bool" where
  "source_above a b =
     (let rate = (\<lambda>r. case dsrc_rate r of None \<Rightarrow> Fin 0 | Some x \<Rightarrow> x)
      in if feq (rate a) (rate b) then flt (dsrc_timestamp b) (dsrc_timestamp a) else flt (rate b) (rate a))"

primrec place_source :: "ddos_source \<Rightarrow> ddos_source list \<Rightarrow> ddos_source list" where
  "place_source r [] = [r]"
| "place_source r (x # xs) = (if source_above x r then x # place_source r xs else r # x # xs)"

definition shown_sources :: "string list \<Rightarrow> (json \<times> ddos_source) list \<Rightarrow> ddos_source list" where
  "shown_sources blocked sources =
     foldr place_source (map snd (filter (\<lambda>(ip, _). ip \<in> JStr ` set blocked) sources)) []"

definition ACTION_CLASSIFICATIONS :: "string list" where
  "ACTION_CLASSIFICATIONS = [''Blocked'', ''Rate Limited'', ''DDoS'']"

definition newest_logs :: "(log_row \<Rightarrow> bool) \<Rightarrow> database \<Rightarrow> log_row list" where
  "newest_logs P d = rev (List.sort_key log_id (filter P (tbl_rows (db_logs d))))"

definition empty_metrics :: "string \<Rightarrow> dict" where
  "empty_metrics target =
     [(''entropy'', JFloat (Fin 0)), (''ewma_rate'', JFloat (Fin 0)), (''mean_h'', JFloat (Fin 0)), (''mean_r'', JFloat (Fin 0)),
      (''sigma_h'', JFloat (Fin 0)), (''sigma_r'', JFloat (Fin 0)), (''proto_ratio'', JFloat (Fin 1)),
      (''dominant_ip_ratio'', JFloat (Fin 0)), (''timestamp'', JFloat (Fin 0)), (''k_multiplier'', JFloat (Fin 2)),
      (''cooldown'', JInt 0), (''latest_classification'', JStr ''Normal''), (''victim_ip'', JStr target),
      (''egress_rate'', JNull), (''drop_ratio'', JNull), (''proto_tcp'', JFloat (Fin 1)), (''proto_udp'', JFloat (Fin 0)),
      (''proto_icmp'', JFloat (Fin 0)), (''proto_sctp'', JFloat (Fin 0)), (''proto_gre'', JFloat (Fin 0)),
      (''proto_esp'', JFloat (Fin 0)), (''source_port_entropy'', JFloat (Fin 0)), (''ttl_variance'', JFloat (Fin 0)),
      (''fingerprint_diversity'', JFloat (Fin 0))]"

definition select_metrics :: "string option \<Rightarrow> world \<Rightarrow> dict" where
  "select_metrics target s =
     (case target of
        Some (c # cs) \<Rightarrow> dict_get (last_metrics_by_target s) (JStr (c # cs)) (empty_metrics (c # cs))
      | _ \<Rightarrow> last_metrics s)"

record state_view =
  sv_metrics :: dict
  sv_active_flows :: json
  sv_whitelisted_ips :: json
  sv_shared_ips :: json
  sv_blocked :: "(string \<times> int) list"
  sv_ratelimited :: "(string \<times> int) list"
  sv_version :: json
  sv_ddos_sources :: "ddos_source list"
  sv_victim_targets :: json
  sv_interfaces :: "json list"
  sv_sniffer :: "string option \<times> string option"
  sv_latest_logs :: "log_row list"
  sv_by_target :: "(json \<times> dict) list"

definition get_state :: "env \<Rightarrow> json \<Rightarrow> string option \<Rightarrow> net_device list option \<Rightarrow> string option \<Rightarrow> state_view op" where
  "get_state E version unit_file devices target =
     bnd (read_flows E) (\<lambda>flows.
     bnd (load_json_file E WHITELIST_PATH (JArr [])) (\<lambda>whitelist.
     bnd (load_json_file E SHARED_IPS_PATH (JArr [])) (\<lambda>shared.
     bnd (load_json_file E VICTIMS_PATH (JArr [])) (\<lambda>victims.
     bnd (get_blocked_ips E) (\<lambda>blocked.
     bnd (get_ratelimited_ips E) (\<lambda>ratelimited.
     bnd (gets (\<lambda>s. shown_sources (map fst blocked) (ddos_sources s))) (\<lambda>sources.
     bnd (try_except (db_read E (\<lambda>d. take 5 (newest_logs (\<lambda>r. log_classification r \<in> set ACTION_CLASSIFICATIONS) d)))
            (\<lambda>_. ret [])) (\<lambda>logs.
     gets (\<lambda>s.
       \<lparr>sv_metrics = select_metrics target s,
        sv_active_flows = (case flows of None \<Rightarrow> JArr [] | Some j \<Rightarrow>
          (case obj_get j ''active_ips'' (JArr []) of Inl _ \<Rightarrow> JArr [] | Inr v \<Rightarrow> v)),
        sv_whitelisted_ips = whitelist, sv_shared_ips = shared, sv_blocked = blocked, sv_ratelimited = ratelimited,
        sv_version = version, sv_ddos_sources = sources, sv_victim_targets = victims,
        sv_interfaces = (case devices of None \<Rightarrow> [] | Some ds \<Rightarrow> map interface_entry ds),
        sv_sniffer = get_sniffer_interfaces unit_file, sv_latest_logs = logs,
        sv_by_target = last_metrics_by_target s\<rparr>)))))))))"

section \<open>History and logs\<close>

definition or_500 :: "env \<Rightarrow> 'a op \<Rightarrow> 'a op" where
  "or_500 E m = try_except m (\<lambda>e. raise_exn (HTTPException 500 (e_exn_text E e)))"

definition get_history :: "env \<Rightarrow> string option \<Rightarrow> metrics_row list op" where
  "get_history E target =
     or_500 E (bnd (db_read E (\<lambda>d.
       let wanted = (case target of Some (c # cs) \<Rightarrow> (\<lambda>r. mh_victim_ip r = JStr (c # cs)) | _ \<Rightarrow> (\<lambda>_. True))
       in take 30 (rev (List.sort_key mh_id (filter wanted (tbl_rows (db_metrics_history d))))))) (\<lambda>rows.
     ret (rev rows)))"

definition log_filter :: "string \<Rightarrow> log_row \<Rightarrow> bool" where
  "log_filter classification r =
     (if classification = ''ALL'' then True
      else if classification = ''DDoS'' then log_classification r \<in> set ACTION_CLASSIFICATIONS
      else log_classification r = classification)"

record logs_page =
  lp_logs :: "log_row list"
  lp_total_count :: nat
  lp_limit :: int
  lp_offset :: int

definition get_logs :: "env \<Rightarrow> string \<Rightarrow> int \<Rightarrow> int \<Rightarrow> logs_page op" where
  "get_logs E classification limit0 offset0 =
     (let limit = max 1 (min limit0 1000); offset = max 0 offset0
      in or_500 E
           (bnd (db_read E (\<lambda>d. length (newest_logs (log_filter classification) d))) (\<lambda>total_count.
            bnd (db_read E (\<lambda>d. take (nat limit) (drop (nat offset) (newest_logs (log_filter classification) d)))) (\<lambda>rows.
            ret \<lparr>lp_logs = rows, lp_total_count = total_count, lp_limit = limit, lp_offset = offset\<rparr>))))"

section \<open>The two lists of addresses\<close>

text \<open>\<open>xs.append(v)\<close> and \<open>xs.remove(v)\<close>, which takes out the first element equal to \<open>v\<close>.\<close>

definition list_append :: "json \<Rightarrow> json \<Rightarrow> json res" where
  "list_append xs v = (case xs of JArr ys \<Rightarrow> Inr (JArr (ys @ [v])) | _ \<Rightarrow> Inl AttributeError)"

fun remove_first :: "json \<Rightarrow> json list \<Rightarrow> json list" where
  "remove_first v [] = []"
| "remove_first v (x # xs) = (if py_eq x v then xs else x # remove_first v xs)"

definition list_remove :: "json \<Rightarrow> json \<Rightarrow> json res" where
  "list_remove xs v = (case xs of JArr ys \<Rightarrow> Inr (JArr (remove_first v ys)) | _ \<Rightarrow> Inl AttributeError)"

definition add_address :: "env \<Rightarrow> jpath \<Rightarrow> string \<Rightarrow> unit op" where
  "add_address E p ip =
     bnd (load_json_file E p (JArr [])) (\<lambda>l.
     bnd (lift_res (py_in (JStr ip) l)) (\<lambda>found.
     if found then ret ()
     else bnd (lift_res (list_append l (JStr ip))) (\<lambda>l'. save_json_file E p l')))"

definition delete_address :: "env \<Rightarrow> jpath \<Rightarrow> string \<Rightarrow> unit op" where
  "delete_address E p ip0 =
     bnd (lift_res (validate_host_ip_or_400 ip0)) (\<lambda>ip.
     bnd (load_json_file E p (JArr [])) (\<lambda>l.
     bnd (lift_res (py_in (JStr ip) l)) (\<lambda>found.
     if found then bnd (lift_res (list_remove l (JStr ip))) (\<lambda>l'. save_json_file E p l') else ret ())))"

definition add_whitelist :: "env \<Rightarrow> ip_payload \<Rightarrow> unit op" where
  "add_whitelist E p = add_address E WHITELIST_PATH (pl_ip p)"

definition delete_whitelist :: "env \<Rightarrow> string \<Rightarrow> unit op" where
  "delete_whitelist E ip = delete_address E WHITELIST_PATH ip"

definition add_shared_ip :: "env \<Rightarrow> ip_payload \<Rightarrow> unit op" where
  "add_shared_ip E p = add_address E SHARED_IPS_PATH (pl_ip p)"

definition delete_shared_ip :: "env \<Rightarrow> string \<Rightarrow> unit op" where
  "delete_shared_ip E ip = delete_address E SHARED_IPS_PATH ip"

section \<open>Victims\<close>

text \<open>Each \<open>v["ip"]\<close> in turn, with whether it is the address.\<close>

fun match_victims :: "string \<Rightarrow> json list \<Rightarrow> bool list res" where
  "match_victims ip [] = Inr []"
| "match_victims ip (v # vs) =
     (case subscript v ''ip'' of
        Inl e \<Rightarrow> Inl e
      | Inr x \<Rightarrow> (case match_victims ip vs of Inl e \<Rightarrow> Inl e | Inr bs \<Rightarrow> Inr (py_eq x (JStr ip) # bs)))"

text \<open>The loop of \<open>add_victim\<close> stops at the first match.\<close>

fun victim_known :: "string \<Rightarrow> json list \<Rightarrow> bool res" where
  "victim_known ip [] = Inr False"
| "victim_known ip (v # vs) =
     (case subscript v ''ip'' of Inl e \<Rightarrow> Inl e | Inr x \<Rightarrow> if py_eq x (JStr ip) then Inr True else victim_known ip vs)"

definition add_victim :: "env \<Rightarrow> victim_payload \<Rightarrow> unit op" where
  "add_victim E p =
     bnd (load_json_file E VICTIMS_PATH (JArr [])) (\<lambda>victims.
     bnd (lift_res (iter_list victims)) (\<lambda>vs.
     bnd (lift_res (victim_known (vp_ip p) vs)) (\<lambda>known.
     if known then raise_exn (HTTPException 400 ''Asset IP is already deployed.'')
     else bnd (lift_res (list_append victims (JObj [(''ip'', JStr (vp_ip p)), (''description'', JStr (vp_description p)),
            (''active'', JBool True)]))) (\<lambda>victims'. save_json_file E VICTIMS_PATH victims'))))"

definition delete_victim :: "env \<Rightarrow> string \<Rightarrow> unit op" where
  "delete_victim E ip0 =
     bnd (lift_res (validate_host_ip_or_400 ip0)) (\<lambda>ip.
     bnd (load_json_file E VICTIMS_PATH (JArr [])) (\<lambda>victims.
     bnd (lift_res (iter_list victims)) (\<lambda>vs.
     bnd (lift_res (match_victims ip vs)) (\<lambda>bs.
     save_json_file E VICTIMS_PATH (JArr (map fst (filter (\<lambda>(_, b). \<not> b) (zip vs bs))))))))"

definition toggle_active :: "json \<Rightarrow> json res" where
  "toggle_active v =
     (case subscript v ''active'' of
        Inl e \<Rightarrow> Inl e
      | Inr a \<Rightarrow> (case v of JObj d \<Rightarrow> Inr (JObj (AList.update ''active'' (JBool (\<not> py_truthy a)) d)) | _ \<Rightarrow> Inl TypeError))"

fun toggle_victims :: "string \<Rightarrow> json list \<Rightarrow> json list res" where
  "toggle_victims ip [] = Inr []"
| "toggle_victims ip (v # vs) =
     (case subscript v ''ip'' of
        Inl e \<Rightarrow> Inl e
      | Inr x \<Rightarrow>
          (case if py_eq x (JStr ip) then toggle_active v else Inr v of
             Inl e \<Rightarrow> Inl e
           | Inr v' \<Rightarrow> (case toggle_victims ip vs of Inl e \<Rightarrow> Inl e | Inr vs' \<Rightarrow> Inr (v' # vs'))))"

text \<open>The loop changes the elements of \<open>victims\<close> in place. A dictionary or a string has only strings to loop over, which raise, so
  one that gets through is empty and saved as it is.\<close>

definition toggle_victim :: "env \<Rightarrow> string \<Rightarrow> unit op" where
  "toggle_victim E ip0 =
     bnd (lift_res (validate_host_ip_or_400 ip0)) (\<lambda>ip.
     bnd (load_json_file E VICTIMS_PATH (JArr [])) (\<lambda>victims.
     bnd (lift_res (iter_list victims)) (\<lambda>vs.
     bnd (lift_res (toggle_victims ip vs)) (\<lambda>vs'.
     save_json_file E VICTIMS_PATH (case victims of JArr _ \<Rightarrow> JArr vs' | _ \<Rightarrow> victims)))))"

section \<open>The firewall\<close>

definition opt_json :: "string option \<Rightarrow> json" where
  "opt_json v = (case v of None \<Rightarrow> JNull | Some t \<Rightarrow> JStr t)"

definition manual_block :: "env \<Rightarrow> ip_payload \<Rightarrow> unit op" where
  "manual_block E p = block_ip E (JStr (pl_ip p)) (JInt 600) (opt_json (pl_victim_ip p)) None None"

definition manual_unblock :: "env \<Rightarrow> ip_payload \<Rightarrow> unit op" where
  "manual_unblock E p =
     bnd (unblock_ip E (JStr (pl_ip p)) (opt_json (pl_victim_ip p))) (\<lambda>released.
     if released then ret () else raise_exn (HTTPException 500 ''Failed to release firewall block.''))"

section \<open>Settings of the enforcement\<close>

text \<open>The payload: the fields of \<open>EnforcementConfigPayload\<close> in their order, \<open>null\<close> where unset, a float or an integer otherwise.\<close>

definition CONFIG_FIELDS :: "(string \<times> bool) list" where
  "CONFIG_FIELDS =
     [(''dominant_ip_ratio_block_threshold'', True), (''dominant_ip_ratio_extreme_threshold'', True),
      (''block_rate_floor_pps'', True), (''ratelimit_rate_floor_pps'', True), (''block_sigma_multiplier'', True),
      (''block_hysteresis_windows'', False), (''block_duration_seconds'', False), (''ratelimit_duration_seconds'', False),
      (''ratelimit_hashlimit_pps'', False)]"

definition config_payload_ok :: "dict \<Rightarrow> bool" where
  "config_payload_ok p \<longleftrightarrow>
     map fst p = map fst CONFIG_FIELDS \<and>
     list_all2 (\<lambda>(_, v) (_, float). case v of JNull \<Rightarrow> True | JFloat _ \<Rightarrow> float | JInt _ \<Rightarrow> \<not> float | _ \<Rightarrow> False) p CONFIG_FIELDS"

definition config_bounds :: "(string \<times> json \<times> json option) list" where
  "config_bounds =
     [(''dominant_ip_ratio_block_threshold'', JFloat (Fin 0), Some (JFloat (Fin 1))),
      (''dominant_ip_ratio_extreme_threshold'', JFloat (Fin 0), Some (JFloat (Fin 1))),
      (''block_rate_floor_pps'', JFloat (Fin 0), None),
      (''ratelimit_rate_floor_pps'', JFloat (Fin 0), None),
      (''block_sigma_multiplier'', JFloat (Fin 0), None),
      (''block_hysteresis_windows'', JInt 0, None),
      (''block_duration_seconds'', JInt 1, None),
      (''ratelimit_duration_seconds'', JInt 1, None),
      (''ratelimit_hashlimit_pps'', JInt 1, None)]"

definition less_num :: "json \<Rightarrow> json \<Rightarrow> bool res" where
  "less_num a b = (case need_num a of Inl e \<Rightarrow> Inl e | Inr x \<Rightarrow> map_sum id (flt x) (need_num b))"

definition check_bound :: "string \<times> json \<Rightarrow> unit res" where
  "check_bound kv =
     (case kv of (key, value) \<Rightarrow>
        (case map_of config_bounds key of
           None \<Rightarrow> Inr ()
         | Some (lo, hi) \<Rightarrow>
             (case less_num value lo of
                Inl e \<Rightarrow> Inl e
              | Inr True \<Rightarrow> Inl (HTTPException 422 (key @ '' must be >= '' @ py_str lo))
              | Inr False \<Rightarrow>
                  (case hi of
                     None \<Rightarrow> Inr ()
                   | Some h \<Rightarrow>
                       (case less_num h value of
                          Inl e \<Rightarrow> Inl e
                        | Inr True \<Rightarrow> Inl (HTTPException 422 (key @ '' must be <= '' @ py_str h))
                        | Inr False \<Rightarrow> Inr ())))))"

fun check_bounds :: "dict \<Rightarrow> unit res" where
  "check_bounds [] = Inr ()"
| "check_bounds (kv # d) = (case check_bound kv of Inl e \<Rightarrow> Inl e | Inr _ \<Rightarrow> check_bounds d)"

definition update_enforcement_config :: "env \<Rightarrow> dict \<Rightarrow> dict op" where
  "update_enforcement_config E payload =
     bnd (get_enforcement_config E) (\<lambda>current.
     let updates = filter (\<lambda>(_, v). v \<noteq> JNull) payload; new_config = dict_merge current updates
     in bnd (lift_res (check_bounds updates)) (\<lambda>_.
        bnd (save_json_file E ENFORCEMENT_CONFIG_PATH (JObj new_config)) (\<lambda>_.
        bnd (case map_of updates ''ratelimit_hashlimit_pps'' of
               None \<Rightarrow> ret ()
             | Some new \<Rightarrow>
                 bnd (lift_res (cfg_at current ''ratelimit_hashlimit_pps'')) (\<lambda>old.
                 if py_eq new old then ret ()
                 else try_except (update_ratelimit_hashlimit E old new) (\<lambda>e.
                   raise_exn (HTTPException 500 (''Config saved but iptables rule update failed: '' @ e_exn_text E e))))) (\<lambda>_.
        ret new_config))))"

end
