(* ===== verification/Dashboard_Laws.thy ===== *)
theory Dashboard_Laws
  imports Dashboard Receiver_Verdicts
begin

text \<open>
  What the dashboard's operations promise: reading the log page by page shows every entry once, an address the operator puts on the whitelist is
  never blocked afterwards, and the enforcement settings that an update saves lie in their ranges. Two theorems show where the code falls short:
  a list edit that cannot be saved is reported as done, and a threshold that is not a number passes the bounds and turns the first tier off.
\<close>

section \<open>Reading the log page by page\<close>

lemma get_logs_eq:
  assumes "\<forall>n. e_io E n IO_Db" and "1 \<le> limit" and "limit \<le> 1000" and "0 \<le> offset"
  shows "get_logs E cls limit offset s =
    (Inr \<lparr>lp_logs = take (nat limit) (drop (nat offset) (newest_logs (log_filter cls) (w_db s))),
          lp_total_count = length (newest_logs (log_filter cls) (w_db s)), lp_limit = limit, lp_offset = offset\<rparr>,
     s\<lparr>w_io := w_io s + 2\<rparr>)"
  using assms by (simp add: get_logs_def or_500_def try_except_def db_read_def io_check_def io_ok_def bnd_def Let_def)

text \<open>
  The pages of the log are the log. With a limit the route accepts, the pages at the multiples of the limit, as many as the reported total
  asks for, put one after another are every record of the chosen class, the newest first, none twice and none missing; no page
  is longer than the limit, and reading changes nothing in the database.
\<close>

theorem log_pages_cover:
  assumes "\<forall>n. e_io E n IO_Db" and "1 \<le> limit" and "limit \<le> 1000"
  shows "\<exists>page. (\<forall>i. \<exists>s'. get_logs E cls limit (int i * limit) s = (Inr (page i), s') \<and> w_db s' = w_db s) \<and>
    concat (map (\<lambda>i. lp_logs (page i)) [0..<Suc (lp_total_count (page 0) div nat limit)]) = newest_logs (log_filter cls) (w_db s) \<and>
    (\<forall>i. length (lp_logs (page i)) \<le> nat limit)"
proof -
  let ?L = "newest_logs (log_filter cls) (w_db s)"
  let ?page = "\<lambda>i. \<lparr>lp_logs = take (nat limit) (drop (i * nat limit) ?L), lp_total_count = length ?L, lp_limit = limit,
      lp_offset = int i * limit\<rparr>"
  have "get_logs E cls limit (int i * limit) s = (Inr (?page i), s\<lparr>w_io := w_io s + 2\<rparr>)" for i
    using get_logs_eq [OF assms, of "int i * limit"] assms(2) by (simp add: nat_mult_distrib)
  moreover have "length ?L \<le> Suc (length ?L div nat limit) * nat limit"
    using assms(2) dividend_less_times_div [of "nat limit" "length ?L"] by (simp add: mult.commute)
  then have "concat (map (\<lambda>i. lp_logs (?page i)) [0..<Suc (lp_total_count (?page 0) div nat limit)]) = ?L"
    using concat_pages [of "nat limit" ?L "Suc (length ?L div nat limit)"] by simp
  ultimately show ?thesis by (intro exI [of _ ?page]) auto
qed

definition lab_logs :: world where
  "lab_logs = (init_world (Fin 0))\<lparr>w_db := empty_database\<lparr>db_logs :=
     tbl_insert (mk_log (Fin 3, JStr ''10.0.0.9'', JNull, None, None, ''Blocked''))
      (tbl_insert (mk_log (Fin 2, JStr ''10.0.0.8'', JNull, None, None, ''Normal''))
       (tbl_insert (mk_log (Fin 1, JStr ''10.0.0.7'', JNull, None, None, ''Rate Limited'')) empty_table))\<rparr>\<rparr>"

theorem log_pages_cover_witness:
  "\<exists>page. (\<forall>i. \<exists>s'. get_logs lab_env ''DDoS'' 1 (int i * 1) lab_logs = (Inr (page i), s') \<and> w_db s' = w_db lab_logs) \<and>
     map log_src_ip (concat (map (\<lambda>i. lp_logs (page i)) [0..<Suc (lp_total_count (page 0) div nat 1)])) = [JStr ''10.0.0.9'', JStr ''10.0.0.7'']"
proof -
  have logs: "map log_src_ip (newest_logs (log_filter ''DDoS'') (w_db lab_logs)) = [JStr ''10.0.0.9'', JStr ''10.0.0.7'']" by code_simp
  have "\<forall>n. e_io lab_env n IO_Db" "(1 :: int) \<le> 1" "(1 :: int) \<le> 1000" by (simp_all add: lab_env_io)
  from log_pages_cover [OF this, of "''DDoS''" lab_logs] obtain page where
    page: "\<forall>i. \<exists>s'. get_logs lab_env ''DDoS'' 1 (int i * 1) lab_logs = (Inr (page i), s') \<and> w_db s' = w_db lab_logs"
      "concat (map (\<lambda>i. lp_logs (page i)) [0..<Suc (lp_total_count (page 0) div nat 1)]) = newest_logs (log_filter ''DDoS'') (w_db lab_logs)"
    by blast
  show ?thesis by (rule exI [of _ page], rule conjI, rule page(1)) (simp only: page(2) logs)
qed

section \<open>Editing the whitelist\<close>

lemma save_works:
  assumes "\<forall>n. e_io E n (IO_Json p)" and "w_tmp s p = None"
  shows "save_json_file E p j s = (Inr (), s\<lparr>w_io := w_io s + 3, w_json := (w_json s)(p := JVal j)\<rparr>)"
  using assms by (simp add: save_json_file_def try_except_def atomic_write_eq fun_upd_idem)

lemma save_fails:
  assumes "\<not> e_io E (w_io s) (IO_Json p)"
  shows "save_json_file E p j s = (Inr (), s\<lparr>w_io := w_io s + 1\<rparr>)"
  using assms by (simp add: save_json_file_def try_except_def atomic_write_eq)

lemma set_remove_first: "distinct xs \<Longrightarrow> set (remove_first (JStr v) xs) = set xs - {JStr v}"
  by (induction xs) auto

text \<open>
  C15. Whitelisting takes effect at once and can be taken back. With the list readable and writable, adding an address leaves a list with
  exactly that address more, and from then on blocking it, for any known victim, executes no command; deleting the address leaves exactly
  the other addresses.
\<close>

theorem whitelist_takes_effect:
  assumes "lists_readable E" and "w_tmp s WHITELIST_PATH = None" and "w_json s WHITELIST_PATH = JVal (JArr l)"
  shows "\<exists>s' l'. add_whitelist E p s = (Inr (), s') \<and> w_json s' WHITELIST_PATH = JVal (JArr l') \<and> set l' = insert (JStr (pl_ip p)) (set l) \<and>
    (\<forall>d v r en. known_victim v \<longrightarrow> w_cmds (snd (block_ip E (JStr (pl_ip p)) d v r en s')) = w_cmds s) \<and>
    (distinct l \<and> is_ip_address ip \<longrightarrow> (\<exists>s'' l''. delete_whitelist E ip s = (Inr (), s'') \<and>
       w_json s'' WHITELIST_PATH = JVal (JArr l'') \<and> set l'' = set l - {JStr ip}))"
proof -
  let ?s = "s\<lparr>w_io := Suc (w_io s)\<rparr>"
  have io: "\<forall>n. e_io E n (IO_Json WHITELIST_PATH)" using assms(1) by (simp add: lists_readable_def)
  have load: "load_json_file E WHITELIST_PATH (JArr []) s = (Inr (JArr l), ?s)" using load_json_file_present [OF assms(3) io] .
  have tmp: "w_tmp ?s WHITELIST_PATH = None" using assms(2) by simp
  have mem: "list_ex (py_eq (JStr v)) l \<longleftrightarrow> JStr v \<in> set l" for v by (auto simp: list_ex_iff)
  obtain s' l' where add: "add_whitelist E p s = (Inr (), s')" "w_json s' WHITELIST_PATH = JVal (JArr l')"
      "set l' = insert (JStr (pl_ip p)) (set l)" "w_cmds s' = w_cmds s"
  proof (cases "JStr (pl_ip p) \<in> set l")
    case True
    then show ?thesis using that [of ?s l] load assms(3) by (auto simp: add_whitelist_def add_address_def mem)
  next
    case False
    then show ?thesis
      using that [of "?s\<lparr>w_io := w_io ?s + 3, w_json := (w_json s)(WHITELIST_PATH := JVal (JArr (l @ [JStr (pl_ip p)])))\<rparr>" "l @ [JStr (pl_ip p)]"]
        load save_works [OF io tmp] by (simp add: add_whitelist_def add_address_def mem list_append_def)
  qed
  have quiet: "w_cmds (snd (block_ip E (JStr (pl_ip p)) d v r en s')) = w_cmds s" if "known_victim v" for d v r en
  proof -
    have "JStr (pl_ip p) \<in> set l'" using add(3) by simp
    from whitelisted_block [OF that assms(1) add(2) this] obtain n m b where
      "block_ip E (JStr (pl_ip p)) d v r en s' = (Inr (), s'\<lparr>w_tick := n, w_io := m, recently_blocked := b\<rparr>)" by blast
    then show ?thesis using add(4) by simp
  qed
  have "\<exists>s'' l''. delete_whitelist E ip s = (Inr (), s'') \<and> w_json s'' WHITELIST_PATH = JVal (JArr l'') \<and> set l'' = set l - {JStr ip}"
    if "distinct l" "is_ip_address ip"
  proof (cases "JStr ip \<in> set l")
    case True
    then show ?thesis using that load save_works [OF io tmp] set_remove_first [OF that(1), of ip]
      by (simp add: delete_whitelist_def delete_address_def validate_host_ip_or_400_def validate_host_ip_def mem list_remove_def)
  next
    case False
    then show ?thesis using that load assms(3)
      by (simp add: delete_whitelist_def delete_address_def validate_host_ip_or_400_def validate_host_ip_def mem)
  qed
  then have "distinct l \<and> is_ip_address ip \<longrightarrow> (\<exists>s'' l''. delete_whitelist E ip s = (Inr (), s'') \<and>
      w_json s'' WHITELIST_PATH = JVal (JArr l'') \<and> set l'' = set l - {JStr ip})" by blast
  moreover have "\<forall>d v r en. known_victim v \<longrightarrow> w_cmds (snd (block_ip E (JStr (pl_ip p)) d v r en s')) = w_cmds s"
    using quiet by blast
  ultimately show ?thesis using add(1-3) by (intro exI [of _ s'] exI [of _ l'] conjI)
qed

theorem whitelist_takes_effect_witness:
  "let s = (init_world (Fin 0))\<lparr>w_json := (\<lambda>_. JMissing)(WHITELIST_PATH := JVal (JArr [JStr ''10.0.0.7'']))\<rparr>
   in \<exists>s' l'. add_whitelist lab_env \<lparr>pl_ip = ''10.0.0.9'', pl_victim_ip = None\<rparr> s = (Inr (), s') \<and>
        w_json s' WHITELIST_PATH = JVal (JArr l') \<and> set l' = {JStr ''10.0.0.7'', JStr ''10.0.0.9''}"
proof -
  let ?s = "(init_world (Fin 0))\<lparr>w_json := (\<lambda>_. JMissing)(WHITELIST_PATH := JVal (JArr [JStr ''10.0.0.7'']))\<rparr>"
  have "lists_readable lab_env" "w_tmp ?s WHITELIST_PATH = None" "w_json ?s WHITELIST_PATH = JVal (JArr [JStr ''10.0.0.7''])"
    by (simp_all add: lists_readable_def lab_env_io init_world_def)
  from whitelist_takes_effect [OF this, of "\<lparr>pl_ip = ''10.0.0.9'', pl_victim_ip = None\<rparr>" "[]"] obtain s' l' where
    "add_whitelist lab_env \<lparr>pl_ip = ''10.0.0.9'', pl_victim_ip = None\<rparr> ?s = (Inr (), s')" "w_json s' WHITELIST_PATH = JVal (JArr l')"
    "set l' = insert (JStr ''10.0.0.9'') {JStr ''10.0.0.7''}" by (elim exE conjE) simp
  then show ?thesis unfolding Let_def by (intro exI conjI) auto
qed

text \<open>
  A whitelist entry that could not be saved is reported as saved. When writing the file fails, the route answers with success all the
  same, the file is as before, and an address the operator believes protected is blocked like any other.
\<close>

theorem failed_save_reports_success:
  assumes "e_io E (w_io s) (IO_Json WHITELIST_PATH)" and "\<not> e_io E (Suc (w_io s)) (IO_Json WHITELIST_PATH)"
    and "w_json s WHITELIST_PATH = JVal (JArr l)" and "JStr (pl_ip p) \<notin> set l"
  shows "\<exists>s'. add_whitelist E p s = (Inr (), s') \<and> w_json s' = w_json s"
proof -
  let ?s = "s\<lparr>w_io := Suc (w_io s)\<rparr>"
  have "load_json_file E WHITELIST_PATH (JArr []) s = (Inr (JArr l), ?s)" using assms(1,3) by (simp add: load_json_file_eq Let_def)
  moreover have "\<not> list_ex (py_eq (JStr (pl_ip p))) l" using assms(4) by (auto simp: list_ex_iff)
  ultimately show ?thesis using assms(2) save_fails [of E ?s] by (simp add: add_whitelist_def add_address_def list_append_def)
qed

theorem failed_save_reports_success_witness:
  "let E = lab_env\<lparr>e_io := (\<lambda>n _. n = 0)\<rparr>;
       s = (init_world (Fin 0))\<lparr>w_json := (\<lambda>_. JMissing)(WHITELIST_PATH := JVal (JArr []))\<rparr>
   in \<exists>s'. add_whitelist E \<lparr>pl_ip = ''10.0.0.9'', pl_victim_ip = None\<rparr> s = (Inr (), s') \<and> w_json s' = w_json s"
  unfolding Let_def by (rule failed_save_reports_success [where l = "[]"]) (simp_all add: init_world_def)

section \<open>Settings within bounds\<close>

lemma check_bounds_each: "check_bounds d = Inr () \<Longrightarrow> kv \<in> set d \<Longrightarrow> check_bound kv = Inr ()"
  by (induction d) (auto split: sum.splits)

text \<open>A value is within the bounds of its key, or not a number.\<close>

definition in_bounds :: "string \<Rightarrow> json \<Rightarrow> bool" where
  "in_bounds k v =
     (case map_of config_bounds k of
        None \<Rightarrow> True
      | Some (lo, hi) \<Rightarrow>
          (\<exists>x l. num_exact v = Some x \<and> num_exact lo = Some l \<and>
             (x = NaN \<or> fle l x \<and> (\<forall>h. hi = Some h \<longrightarrow> (\<exists>u. num_exact h = Some u \<and> fle x u)))))"

lemma bounds_numbers: "(k, lo, hi) \<in> set config_bounds \<Longrightarrow>
  (\<exists>l. num_exact lo = Some l \<and> l \<noteq> NaN) \<and> (\<forall>h. hi = Some h \<longrightarrow> (\<exists>u. num_exact h = Some u \<and> u \<noteq> NaN))"
  by (auto simp: config_bounds_def)

lemma check_bound_in:
  assumes "check_bound (k, v) = Inr ()"
  shows "in_bounds k v"
proof (cases "map_of config_bounds k")
  case None
  then show ?thesis by (simp add: in_bounds_def)
next
  case (Some b)
  obtain lo hi where b: "b = (lo, hi)" by (cases b)
  obtain l where l: "num_exact lo = Some l" "l \<noteq> NaN" and h: "\<forall>h. hi = Some h \<longrightarrow> (\<exists>u. num_exact h = Some u \<and> u \<noteq> NaN)"
    using bounds_numbers [OF map_of_SomeD [OF Some [unfolded b]]] by blast
  obtain x where x: "num_exact v = Some x" "\<not> flt x l"
    using assms Some b l(1) by (auto simp: check_bound_def less_num_def need_num_def split: option.splits bool.splits)
  have "fle x u" if "hi = Some t" "num_exact t = Some u" "u \<noteq> NaN" "x \<noteq> NaN" for t u
    using assms Some b l(1) x that by (auto simp: check_bound_def less_num_def need_num_def not_flt_iff_fle split: bool.splits)
  then show ?thesis using Some b l x h by (auto simp: in_bounds_def not_flt_iff_fle)
qed

lemma keeps_json_hashlimit: "steps (keeps w_json) (update_ratelimit_hashlimit E old new)"
proof -
  have cmd: "steps (keeps w_json) (run_cmd E c)" for c by (rule keepsI) (simp add: run_cmd_def)
  show ?thesis unfolding update_ratelimit_hashlimit_def ensure_hashlimit_rule_def ensure_rule_def
    by (intro keep.rules keep.for_each cmd)
qed


text \<open>A payload in which only the given fields are set.\<close>

definition config_payload :: "dict \<Rightarrow> dict" where
  "config_payload kvs = map (\<lambda>(k, _). (k, dict_get kvs k JNull)) CONFIG_FIELDS"

lemma config_update_run:
  assumes "\<forall>n. e_io E n (IO_Json ENFORCEMENT_CONFIG_PATH)" and "w_tmp s ENFORCEMENT_CONFIG_PATH = None"
    and "w_json s ENFORCEMENT_CONFIG_PATH = JVal (JObj saved)" and "check_bounds (filter (\<lambda>(_, v). v \<noteq> JNull) p) = Inr ()"
    and "map_of (filter (\<lambda>(_, v). v \<noteq> JNull) p) ''ratelimit_hashlimit_pps'' = None"
  shows "update_enforcement_config E p s = (Inr (dict_merge (dict_merge DEFAULT_ENFORCEMENT_CONFIG saved) (filter (\<lambda>(_, v). v \<noteq> JNull) p)),
    s\<lparr>w_io := w_io s + 4, w_json := (w_json s)(ENFORCEMENT_CONFIG_PATH := JVal (JObj
      (dict_merge (dict_merge DEFAULT_ENFORCEMENT_CONFIG saved) (filter (\<lambda>(_, v). v \<noteq> JNull) p))))\<rparr>)"
  using load_json_file_present [OF assms(3,1)] save_works [OF assms(1), of "s\<lparr>w_io := Suc (w_io s)\<rparr>"] assms(2,4,5)
  by (simp add: update_enforcement_config_def get_enforcement_config_def merge_saved_def Let_def)


text \<open>
  C40. The bounds do not keep a value out that is not a number. Sent as the threshold for blocking the dominant source, it is accepted and saved whatever
  the settings were, and from then on no window, whatever its figures, makes the first tier block: the kind of setting the bounds are there to
  refuse.
\<close>

theorem nan_threshold_disables_tier1:
  assumes "\<forall>n. e_io E n (IO_Json ENFORCEMENT_CONFIG_PATH)" and "w_tmp s ENFORCEMENT_CONFIG_PATH = None"
    and "w_json s ENFORCEMENT_CONFIG_PATH = JVal (JObj saved)"
  shows "\<exists>cfg s'. update_enforcement_config E (config_payload [(''dominant_ip_ratio_block_threshold'', JFloat NaN)]) s = (Inr cfg, s') \<and>
    w_json s' ENFORCEMENT_CONFIG_PATH = JVal (JObj cfg) \<and>
    (\<forall>w v ready t. tier1 E w v cfg ready t = (Inr [], t))"
proof -
  let ?p = "config_payload [(''dominant_ip_ratio_block_threshold'', JFloat NaN)]"
  let ?cfg = "dict_merge (dict_merge DEFAULT_ENFORCEMENT_CONFIG saved) [(''dominant_ip_ratio_block_threshold'', JFloat NaN)]"
  have ups: "filter (\<lambda>(_, v). v \<noteq> JNull) ?p = [(''dominant_ip_ratio_block_threshold'', JFloat NaN)]"
    by (simp add: config_payload_def CONFIG_FIELDS_def dict_get_def)
  have chk: "check_bounds [(''dominant_ip_ratio_block_threshold'', JFloat NaN)] = Inr ()"
    by (simp add: check_bound_def config_bounds_def less_num_def need_num_def)
  note run = config_update_run [OF assms, of ?p, unfolded ups, OF chk, simplified]
  have "dominant_elevated w ?cfg = Inr False" for w
    by (simp add: dominant_elevated_def cfg_num_def cfg_at_def map_of_dict_merge need_num_def fle_def)
  then have "tier1 E w v ?cfg ready t = (Inr [], t)" for w v ready t by (simp add: tier1_def lift_res_def bnd_def ret_def)
  with run show ?thesis by (intro exI [of _ ?cfg] exI conjI) auto
qed

theorem nan_threshold_disables_tier1_witness:
  "\<exists>cfg s'. update_enforcement_config lab_env (config_payload [(''dominant_ip_ratio_block_threshold'', JFloat NaN)])
       ((init_world (Fin 0))\<lparr>w_json := (\<lambda>_. JMissing)(ENFORCEMENT_CONFIG_PATH := JVal (JObj []))\<rparr>) = (Inr cfg, s') \<and>
     tier1 lab_env lab_window (JStr ''10.0.0.3'') cfg True s' = (Inr [], s')"
proof -
  let ?s = "(init_world (Fin 0))\<lparr>w_json := (\<lambda>_. JMissing)(ENFORCEMENT_CONFIG_PATH := JVal (JObj []))\<rparr>"
  have "\<forall>n. e_io lab_env n (IO_Json ENFORCEMENT_CONFIG_PATH)" "w_tmp ?s ENFORCEMENT_CONFIG_PATH = None"
    "w_json ?s ENFORCEMENT_CONFIG_PATH = JVal (JObj [])" by (simp_all add: lab_env_io init_world_def)
  from nan_threshold_disables_tier1 [OF this] show ?thesis by blast
qed

end
