(* ===== verification/Review.thy ===== *)
theory Review
  imports Training_Balance
begin

text \<open>
  \<open>stage2/auto_label_review.py\<close>: the routes on which an operator looks at the rows the labelling job has staged, merges
  them into the training file or discards them, and trims the training file's DDoS class.

  Merging is written as its reading half followed by its writing half: no lock is held from one to the other, and the
  labelling job is another process. Two runs with the same timestamp are listed in some order; the database leaves it open.
\<close>

section \<open>Looking at the staged rows\<close>

definition REVIEW_ROW_LIMIT :: int where "REVIEW_ROW_LIMIT = 500"

definition list_pending_runs :: "env \<Rightarrow> (auto_label_run list \<times> bool) op" where
  "list_pending_runs E =
     bnd (db_read E (\<lambda>d. py_sorted (\<lambda>r. fneg (alr_timestamp r)) (filter (\<lambda>r. \<not> alr_resolved r) (tbl_rows (db_auto_label_runs d))))) (\<lambda>runs.
     ret (runs, TRAINING_CSV_SET (e_conf E)))"

record review_page =
  rp_header :: "string list"
  rp_rows :: "string list list"
  rp_total_rows :: nat
  rp_offset :: int
  rp_limit :: int
  rp_has_prev :: bool
  rp_has_next :: bool
  rp_truncated :: bool

definition review_staged_rows :: "env \<Rightarrow> int \<Rightarrow> int \<Rightarrow> review_page op" where
  "review_staged_rows E offset limit0 =
     (if offset < 0 then raise_exn (HTTPException 400 ''offset must not be negative.'')
      else let limit = max 1 (min limit0 REVIEW_ROW_LIMIT) in
        bnd (read_rows E AUTO_LABELED_CSV_PATH) (\<lambda>(header, rows, _).
        ret (case header of
               None \<Rightarrow>
                 \<lparr>rp_header = BASE_CSV_HEADER, rp_rows = [], rp_total_rows = 0, rp_offset = 0, rp_limit = limit,
                  rp_has_prev = False, rp_has_next = False, rp_truncated = False\<rparr>
             | Some h \<Rightarrow>
                 (let total = length rows; page = take (nat limit) (drop (nat offset) rows)
                  in \<lparr>rp_header = h, rp_rows = page, rp_total_rows = total, rp_offset = offset, rp_limit = limit,
                      rp_has_prev = 0 < offset, rp_has_next = offset + int (length page) < int total,
                      rp_truncated = length page < total\<rparr>))))"

section \<open>Merging and discarding\<close>

text \<open>The connection is closed without a commit when a statement raises.\<close>

definition resolve_all_runs :: "env \<Rightarrow> unit op" where
  "resolve_all_runs E =
     txn (bnd (io_check E IO_Db SqlError) (\<lambda>_.
          bnd (upd_label_runs (\<lambda>t. t\<lparr>tbl_rows := map (\<lambda>r. if \<not> alr_resolved r then r\<lparr>alr_resolved := True\<rparr> else r) (tbl_rows t)\<rparr>)) (\<lambda>_.
          io_check E IO_Db SqlError)))"

definition not_configured :: "string \<Rightarrow> py_exn" where
  "not_configured what = HTTPException 400
     (''TRAINING_CSV_PATH is not configured. Set it (the same --training-csv value install.sh/update.sh take for the retrain timer) before ''
      @ what @ '' from the dashboard.'')"

definition merge_read :: "env \<Rightarrow> (string list \<times> string list list \<times> string list list) op" where
  "merge_read E =
     (if \<not> TRAINING_CSV_SET (e_conf E) then raise_exn (not_configured ''merging'')
      else bnd (read_rows E AUTO_LABELED_CSV_PATH) (\<lambda>(header, staged_rows, _).
           if header = None \<or> staged_rows = [] then raise_exn (HTTPException 400 ''Nothing staged to merge.'')
           else bnd (read_training_csv E TRAINING_CSV_PATH) (\<lambda>(target_header, target_rows).
                ret (case target_header of
                       None \<Rightarrow> (BASE_CSV_HEADER, [], staged_rows)
                     | Some h \<Rightarrow> (h, target_rows, staged_rows)))))"

definition merge_write :: "env \<Rightarrow> string list \<times> string list list \<times> string list list \<Rightarrow> nat op" where
  "merge_write E = (\<lambda>(target_header, target_rows, staged_rows).
     bnd (rewrite_csv E TRAINING_CSV_PATH target_header (target_rows @ staged_rows)) (\<lambda>_.
     bnd (rewrite_csv E AUTO_LABELED_CSV_PATH BASE_CSV_HEADER []) (\<lambda>_.
     bnd (resolve_all_runs E) (\<lambda>_.
     ret (length staged_rows)))))"

definition merge_staged_rows :: "env \<Rightarrow> nat op" where
  "merge_staged_rows E = bnd (merge_read E) (merge_write E)"

definition discard_staged_rows :: "env \<Rightarrow> nat op" where
  "discard_staged_rows E =
     bnd (read_rows E AUTO_LABELED_CSV_PATH) (\<lambda>(header, staged_rows, _).
     if header = None \<or> staged_rows = [] then raise_exn (HTTPException 400 ''Nothing staged to discard.'')
     else bnd (rewrite_csv E AUTO_LABELED_CSV_PATH BASE_CSV_HEADER []) (\<lambda>_.
          bnd (resolve_all_runs E) (\<lambda>_.
          ret (length staged_rows))))"

section \<open>Trimming\<close>

text \<open>The rows dropped, the cap, and the rows that remain when the file was rewritten.\<close>

definition trim_ddos_class :: "env \<Rightarrow> (nat \<Rightarrow> nat list) \<Rightarrow> (nat \<times> nat \<times> nat option) op" where
  "trim_ddos_class E perm =
     (if \<not> TRAINING_CSV_SET (e_conf E) then raise_exn (not_configured ''trimming'')
      else bnd (read_training_csv E TRAINING_CSV_PATH) (\<lambda>(header, rows).
           case header of
             None \<Rightarrow> raise_exn (HTTPException 400 ''Training CSV is empty or missing, nothing to trim.'')
           | Some h \<Rightarrow>
               if rows = [] then raise_exn (HTTPException 400 ''Training CSV is empty or missing, nothing to trim.'')
               else bnd (lift_res (trim_ddos_sessions perm rows)) (\<lambda>(trimmed, dropped, cap).
                    if dropped = 0 then ret (0, cap, None)
                    else bnd (rewrite_csv E TRAINING_CSV_PATH h trimmed) (\<lambda>_.
                         ret (dropped, cap, Some (length trimmed))))))"

end
