(* ===== verification/Review_Laws.thy ===== *)
theory Review_Laws
  imports Review Auto_Label_Laws
begin

text \<open>
  What merging staged rows promises: a merge moves every staged row into the training file, once, whatever fails on the way, and the rows
  merged are the rows the review shows. One theorem shows a race with the labelling job in which rows are lost.
\<close>

section \<open>The parts of a merge\<close>

text \<open>The rows the bounded reader returns of the data rows of a file.\<close>

definition visible_rows :: "env \<Rightarrow> string list list \<Rightarrow> string list list" where
  "visible_rows E data = drop (length data - nat (AUTO_LABEL_MAX_QUEUE_ROWS (e_conf E))) data"

text \<open>The header and rows of the training file, which may be missing or empty.\<close>

definition training_of :: "world \<Rightarrow> string list \<times> string list list" where
  "training_of s =
     (case w_csv s TRAINING_CSV_PATH of
        None \<Rightarrow> (BASE_CSV_HEADER, [])
      | Some t \<Rightarrow> (case csv_read t of [] \<Rightarrow> (BASE_CSV_HEADER, []) | h # rows \<Rightarrow> (h, rows)))"

lemma read_rows_cases:
  assumes "read_rows E p s = (r, s')" and "w_csv s p = Some (csv_write (h # data))"
  shows "\<exists>m. s' = s\<lparr>w_io := m\<rparr> \<and>
    (r = Inr (Some h, drop (length data - nat (AUTO_LABEL_MAX_QUEUE_ROWS (e_conf E))) data,
       AUTO_LABEL_MAX_QUEUE_ROWS (e_conf E) < int (length data)) \<or> (\<exists>e. r = Inl e))"
  using assms by (auto simp: read_rows_def last_rows_def io_check_def io_ok_def py_eval split: if_splits)

lemma same_but_io: "\<exists>m. s = s\<lparr>w_io := m\<rparr>"
  by (rule exI [of _ "w_io s"]) simp

lemma read_training_cases:
  assumes "read_training_csv E TRAINING_CSV_PATH s = (r, s')"
  shows "\<exists>m. s' = s\<lparr>w_io := m\<rparr> \<and>
    ((\<exists>h rows. r = Inr (h, rows) \<and> (case h of None \<Rightarrow> (BASE_CSV_HEADER, []) | Some h \<Rightarrow> (h, rows)) = training_of s) \<or> (\<exists>e. r = Inl e))"
  using assms same_but_io by (auto simp: read_training_csv_def training_of_def io_check_def io_ok_def py_eval split: if_splits option.splits list.splits)

lemma merge_read_cases:
  assumes "merge_read E s = (r, s')" and "w_csv s AUTO_LABELED_CSV_PATH = Some (csv_write (h # data))" and "training_of s = (th, rows)"
  shows "\<exists>m. s' = s\<lparr>w_io := m\<rparr> \<and> ((\<exists>e. r = Inl e) \<or> r = Inr (th, rows, visible_rows E data))"
proof (cases "TRAINING_CSV_SET (e_conf E)")
  case False
  with assms(1) have "s' = s\<lparr>w_io := w_io s\<rparr> \<and> (\<exists>e. r = Inl e)" by (auto simp: merge_read_def py_eval)
  then show ?thesis by blast
next
  case True
  obtain r1 s1 where read: "read_rows E AUTO_LABELED_CSV_PATH s = (r1, s1)" by fastforce
  obtain r2 s2 where train: "read_training_csv E TRAINING_CSV_PATH s1 = (r2, s2)" by fastforce
  have same: "training_of (s\<lparr>w_io := m\<rparr>) = training_of s" for m by (simp add: training_of_def)
  show ?thesis
    using assms(1,3) True read train read_rows_cases [OF read assms(2)] read_training_cases [OF train]
    by (auto simp: merge_read_def bnd_def py_eval visible_rows_def same split: sum.splits if_splits option.splits)
qed

lemma resolve_cases:
  assumes "resolve_all_runs E s = (r, s')"
  shows "w_csv s' = w_csv s \<and> (r = Inr () \<longrightarrow> (\<forall>x \<in> set (tbl_rows (db_auto_label_runs (w_db s'))). alr_resolved x))"
  using assms by (auto simp: resolve_all_runs_def txn_def upd_label_runs_def io_check_def io_ok_def py_eval split: if_splits)

lemma rewrite_cases:
  "fst (rewrite_csv E p h rows s) = Inr () \<and> w_csv (snd (rewrite_csv E p h rows s)) = (w_csv s)(p := Some (csv_write (h # rows))) \<or>
   (\<exists>e. fst (rewrite_csv E p h rows s) = Inl e) \<and> w_csv (snd (rewrite_csv E p h rows s)) = w_csv s"
  by (auto simp: rewrite_csv_def io_check_def io_ok_def py_eval)

lemma merge_write_cases:
  assumes "merge_write E (th, rows, staged) s = (r, s')"
  defines "merged \<equiv> (w_csv s)(TRAINING_CSV_PATH := Some (csv_write (th # rows @ staged)))"
  shows "(\<exists>e. r = Inl e) \<and> w_csv s' \<in> {w_csv s, merged, merged(AUTO_LABELED_CSV_PATH := Some (csv_write [BASE_CSV_HEADER]))} \<or>
    r = Inr (length staged) \<and> w_csv s' = merged(AUTO_LABELED_CSV_PATH := Some (csv_write [BASE_CSV_HEADER])) \<and>
    (\<forall>x \<in> set (tbl_rows (db_auto_label_runs (w_db s'))). alr_resolved x)"
proof -
  obtain r1 s1 where w1: "rewrite_csv E TRAINING_CSV_PATH th (rows @ staged) s = (r1, s1)" by fastforce
  obtain r2 s2 where w2: "rewrite_csv E AUTO_LABELED_CSV_PATH BASE_CSV_HEADER [] s1 = (r2, s2)" by fastforce
  obtain r3 s3 where w3: "resolve_all_runs E s2 = (r3, s3)" by fastforce
  show ?thesis
    using assms(1) rewrite_cases [of E TRAINING_CSV_PATH th "rows @ staged" s] rewrite_cases [of E AUTO_LABELED_CSV_PATH BASE_CSV_HEADER "[]" s1]
      resolve_cases [OF w3] w1 w2 w3
    unfolding merged_def merge_write_def by (auto simp: bnd_def ret_def split: sum.splits)
qed

section \<open>Theorems\<close>

text \<open>
  C34. A merge moves the staged rows and loses none, whatever fails on the way. With a staging file within the bound of the queue, a merge that
  is answered has put all staged rows at the end of the training file, once and in order, emptied the staging file and resolved every
  run. A merge that fails has left both files as they were, or the training file already holds all staged rows.
\<close>

theorem merge_outcomes:
  assumes "merge_staged_rows E s = (r, s')" and "w_csv s AUTO_LABELED_CSV_PATH = Some (csv_write (h # staged))"
    and "int (length staged) \<le> AUTO_LABEL_MAX_QUEUE_ROWS (e_conf E)" and "training_of s = (th, rows)"
  defines "merged \<equiv> (w_csv s)(TRAINING_CSV_PATH := Some (csv_write (th # rows @ staged)))"
  defines "cleared \<equiv> merged(AUTO_LABELED_CSV_PATH := Some (csv_write [BASE_CSV_HEADER]))"
  shows "case r of
      Inr n \<Rightarrow> n = length staged \<and> w_csv s' = cleared \<and> (\<forall>x \<in> set (tbl_rows (db_auto_label_runs (w_db s'))). alr_resolved x)
    | Inl _ \<Rightarrow> w_csv s' \<in> {w_csv s, merged, cleared}"
proof -
  obtain r1 s1 where read: "merge_read E s = (r1, s1)" by fastforce
  have all: "visible_rows E staged = staged" using assms(3) by (simp add: visible_rows_def)
  show ?thesis
    using assms(1) merge_read_cases [OF read assms(2,4)] read merge_write_cases [of E th rows staged s1 r s'] all
    unfolding merge_staged_rows_def merged_def cleared_def by (auto simp: bnd_def)
qed

text \<open>
  What the operator was shown is what is merged. The pages of the review at the multiples of a limit, taken together, are the rows that a
  merge of the same file then adds to the training file, whatever the size of the staging file.
\<close>

theorem review_shows_merge:
  assumes "merge_staged_rows E s = (Inr n, s')" and "w_csv s AUTO_LABELED_CSV_PATH = Some (csv_write (h # data))"
    and "training_of s = (th, rows)" and "\<forall>n. e_io E n (IO_Csv AUTO_LABELED_CSV_PATH)"
    and "1 \<le> l" and "int l \<le> REVIEW_ROW_LIMIT" and "n \<le> k * l"
  shows "w_csv s' TRAINING_CSV_PATH = Some (csv_write (th # rows @
    concat (map (\<lambda>i. case fst (review_staged_rows E (int (i * l)) (int l) s) of Inr p \<Rightarrow> rp_rows p | Inl _ \<Rightarrow> []) [0..<k])))"
proof -
  obtain s1 m where read: "merge_read E s = (Inr m, s1)" and wr: "merge_write E m s1 = (Inr n, s')"
    using assms(1) unfolding merge_staged_rows_def by (auto elim: bnd_InrE)
  then have m: "m = (th, rows, visible_rows E data)" and s1: "w_csv s1 = w_csv s" using merge_read_cases [OF read assms(2,3)] by auto
  from merge_write_cases [OF wr [unfolded m]] s1
  have n: "n = length (visible_rows E data)" and train: "w_csv s' TRAINING_CSV_PATH = Some (csv_write (th # rows @ visible_rows E data))" by auto
  have pos: "\<not> AUTO_LABEL_MAX_QUEUE_ROWS (e_conf E) < 0"
    using read assms(2) by (auto simp: merge_read_def read_rows_def last_rows_def py_eval io_check_def io_ok_def split: if_splits)
  have "(case fst (review_staged_rows E (int (i * l)) (int l) s) of Inr p \<Rightarrow> rp_rows p | Inl _ \<Rightarrow> []) = take l (drop (i * l) (visible_rows E data))" for i
    using assms(2,4-6) pos
    by (simp add: review_staged_rows_def read_rows_def last_rows_def io_check_def io_ok_def py_eval visible_rows_def Let_def max_def min_def del: of_nat_mult)
  then show ?thesis using train n assms(7) concat_pages [of l "visible_rows E data" k] by simp
qed

text \<open>
  C36. A merge can overtake the labelling job, and then rows are lost. When the job replaces a capture file and stages its labelled rows after the merge has
  read the staging file and before it empties it, the labelled rows are afterwards neither in the capture file nor staged nor in the
  training file, and both operations report success.
\<close>

theorem merge_overtakes_job:
  assumes "merge_read E s = (Inr (th, rows, staged), s1)"
    and "swap_in E p AUTO_LABELED_CSV_PATH (length t) header kept labeled s1 = (Inr k, s2)"
    and "merge_write E (th, rows, staged) s2 = (Inr n, s')"
    and "w_csv s1 p = Some t" and "w_csv s1 AUTO_LABELED_CSV_PATH = Some u" and "\<forall>n. e_io E n (IO_Csv AUTO_LABELED_CSV_PATH)"
    and "p \<noteq> AUTO_LABELED_CSV_PATH" and "p \<noteq> TRAINING_CSV_PATH"
  shows "k = length labeled \<and> n = length staged \<and> w_csv s' p = Some (csv_write (header # kept)) \<and>
    w_csv s' AUTO_LABELED_CSV_PATH = Some (csv_write [BASE_CSV_HEADER]) \<and>
    w_csv s' TRAINING_CSV_PATH = Some (csv_write (th # rows @ staged))"
proof -
  have "w_csv s1 p = Some (t @ csv_write [])" using assms(4) by (simp add: csv_write_def)
  from swap_in_eq [OF assms(2) this assms(6,5,7)] merge_write_cases [OF assms(3)] assms(7,8) show ?thesis by auto
qed

section \<open>A staged row\<close>

definition review_env :: env where
  "review_env = lab_env\<lparr>e_conf := default_settings\<lparr>TRAINING_CSV_SET := True\<rparr>\<rparr>"

definition review_world :: world where
  "review_world = (init_world (Fin 0))\<lparr>w_csv := (\<lambda>_. None)(AUTO_LABELED_CSV_PATH := Some (csv_write [BASE_CSV_HEADER, lab_row]),
     PRETRAINING_CSV_PATH := Some (csv_write [BASE_CSV_HEADER, lab_row]))\<rparr>"

lemma review_env_facts: "e_io review_env n k" "TRAINING_CSV_SET (e_conf review_env)" "AUTO_LABEL_MAX_QUEUE_ROWS (e_conf review_env) = 50000"
  by (simp_all add: review_env_def lab_env_def default_settings_def)

lemma review_world_files:
  "w_csv review_world AUTO_LABELED_CSV_PATH = Some (csv_write [BASE_CSV_HEADER, lab_row])"
  "w_csv review_world PRETRAINING_CSV_PATH = Some (csv_write [BASE_CSV_HEADER, lab_row])"
  "training_of review_world = (BASE_CSV_HEADER, [])" "w_csv review_world TRAINING_CSV_PATH = None"
  by (simp_all add: review_world_def training_of_def)

lemma review_read:
  "merge_read review_env review_world = (Inr (BASE_CSV_HEADER, [], [lab_row]), review_world\<lparr>w_io := Suc (w_io review_world)\<rparr>)"
  by (simp add: merge_read_def read_rows_def read_training_csv_def last_rows_def io_check_def io_ok_def py_eval review_env_facts review_world_files)

lemma review_write: "\<exists>s'. merge_write review_env (th, rows, staged) s = (Inr (length staged), s')"
  by (simp add: merge_write_def rewrite_csv_def resolve_all_runs_def txn_def upd_label_runs_def io_check_def io_ok_def py_eval review_env_facts)

lemma review_merge: "\<exists>s'. merge_staged_rows review_env review_world = (Inr 1, s')"
  using review_write [of BASE_CSV_HEADER "[]" "[lab_row]"] by (simp add: merge_staged_rows_def review_read)

theorem merge_outcomes_witness:
  "\<exists>s'. merge_staged_rows review_env review_world = (Inr 1, s') \<and>
     w_csv s' TRAINING_CSV_PATH = Some (csv_write [BASE_CSV_HEADER, lab_row]) \<and>
     w_csv s' AUTO_LABELED_CSV_PATH = Some (csv_write [BASE_CSV_HEADER])"
proof -
  obtain s' where run: "merge_staged_rows review_env review_world = (Inr 1, s')" using review_merge by blast
  from merge_outcomes [OF run review_world_files(1) _ review_world_files(3)] run show ?thesis by (simp add: review_env_facts)
qed

theorem review_shows_merge_witness:
  "\<exists>s'. merge_staged_rows review_env review_world = (Inr 1, s') \<and>
     w_csv s' TRAINING_CSV_PATH = Some (csv_write (BASE_CSV_HEADER # concat (map (\<lambda>i. case fst (review_staged_rows review_env (int (i * 500)) (int 500) review_world)
       of Inr p \<Rightarrow> rp_rows p | Inl _ \<Rightarrow> []) [0..<1])))"
proof -
  obtain s' where run: "merge_staged_rows review_env review_world = (Inr 1, s')" using review_merge by blast
  have "\<forall>n. e_io review_env n (IO_Csv AUTO_LABELED_CSV_PATH)" by (simp add: review_env_facts)
  from review_shows_merge [OF run review_world_files(1,3) this, of 500 1] run show ?thesis by (simp add: REVIEW_ROW_LIMIT_def)
qed

theorem merge_overtakes_job_witness:
  "\<exists>s1 s2 s'. merge_read review_env review_world = (Inr (BASE_CSV_HEADER, [], [lab_row]), s1) \<and>
     swap_in review_env PRETRAINING_CSV_PATH AUTO_LABELED_CSV_PATH (length (csv_write [BASE_CSV_HEADER, lab_row])) BASE_CSV_HEADER []
       [lab_row[LABEL_COL := ''2'']] s1 = (Inr 1, s2) \<and>
     merge_write review_env (BASE_CSV_HEADER, [], [lab_row]) s2 = (Inr 1, s') \<and>
     w_csv s' PRETRAINING_CSV_PATH = Some (csv_write [BASE_CSV_HEADER]) \<and>
     w_csv s' AUTO_LABELED_CSV_PATH = Some (csv_write [BASE_CSV_HEADER]) \<and>
     w_csv s' TRAINING_CSV_PATH = Some (csv_write [BASE_CSV_HEADER, lab_row])"
proof -
  let ?t = "csv_write [BASE_CSV_HEADER, lab_row]" and ?l = "[lab_row[LABEL_COL := ''2'']]"
  let ?s1 = "review_world\<lparr>w_io := Suc (w_io review_world)\<rparr>"
  have io: "\<forall>n. e_io review_env n (IO_Csv AUTO_LABELED_CSV_PATH)" by (simp add: review_env_facts)
  have files: "w_csv ?s1 PRETRAINING_CSV_PATH = Some ?t" "w_csv ?s1 AUTO_LABELED_CSV_PATH = Some ?t" by (simp_all add: review_world_files)
  have "csv_read (drop (length ?t) ?t) = []" by (simp add: csv_read_def)
  then obtain s2 where job: "swap_in review_env PRETRAINING_CSV_PATH AUTO_LABELED_CSV_PATH (length ?t) BASE_CSV_HEADER [] ?l ?s1 = (Inr 1, s2)"
    using files by (simp add: swap_in_def exclusive_lock_def read_appended_rows_def append_labeled_row_def rewrite_csv_def io_check_def io_ok_def
      py_eval review_env_facts)
  obtain s' where wr: "merge_write review_env (BASE_CSV_HEADER, [], [lab_row]) s2 = (Inr (length [lab_row]), s')" using review_write by blast
  from merge_overtakes_job [OF review_read job wr files io] show ?thesis
    using review_read job wr by (intro exI [of _ ?s1] exI [of _ s2] exI [of _ s']) simp
qed

end
