(* ===== verification/Playbook_Api.thy ===== *)
theory Playbook_Api
  imports Playbooks Ip_Address
begin

text \<open>
  \<open>stage2/playbooks_api.py\<close>: the routes on which an operator lists, creates, changes, switches and deletes playbooks, checks
  a definition, reads the history of runs and fetches the reports. \<open>PlaybookPayload\<close> is from \<open>stage2/models.py\<close>.

  A definition is stored as the text of a JSON document and read back from it, which gives the document. A negative identifier in
  a path finds nothing, like one that is not in use. \<open>yaml.safe_load\<close> is an argument: what it raises other than a
  \<open>YAMLError\<close>, the text of the error, or the document. So is the directory of the reports.
\<close>

section \<open>Payload\<close>

record playbook_payload =
  pp_name :: string
  pp_scope_type :: string
  pp_scope_value :: "string option"
  pp_enabled :: bool
  pp_definition :: dict

definition PLAYBOOK_SCOPE_TYPES :: "string list" where
  "PLAYBOOK_SCOPE_TYPES = [''host'', ''subnet'', ''all'']"

definition playbook_payload_ok :: "playbook_payload \<Rightarrow> bool" where
  "playbook_payload_ok p \<longleftrightarrow>
     1 \<le> length (pp_name p) \<and> length (pp_name p) \<le> 200 \<and> pp_scope_type p \<in> set PLAYBOOK_SCOPE_TYPES \<and>
     (case pp_scope_value p of None \<Rightarrow> True | Some v \<Rightarrow> length v \<le> 64)"

section \<open>Checks\<close>

definition quoted :: "string \<Rightarrow> string" where
  "quoted s = [CHR 0x27] @ s @ [CHR 0x27]"

definition validate_scope :: "string \<Rightarrow> string option \<Rightarrow> string option res" where
  "validate_scope scope_type scope_value =
     (let value = (case scope_value of None \<Rightarrow> [] | Some v \<Rightarrow> v)
      in if scope_type = ''host'' then
           (if value = [] then Inl (HTTPException 400 (''target_scope_value is required for scope type '' @ quoted ''host'' @ ''.''))
            else if is_ip_address value then Inr (Some value)
            else Inl (HTTPException 400 (quoted value @ '' is not a valid host address.'')))
         else if scope_type = ''subnet'' then
           (if value = [] then Inl (HTTPException 400 (''target_scope_value is required for scope type '' @ quoted ''subnet'' @ ''.''))
            else if is_ip_network value then Inr (Some value)
            else Inl (HTTPException 400 (quoted value @ '' is not a valid subnet (CIDR).'')))
         else Inr None)"

definition validate_definition_or_400 :: "json \<Rightarrow> json res" where
  "validate_definition_or_400 d =
     (case validate_definition d of
        Inl (DefinitionError m) \<Rightarrow> Inl (HTTPException 400 m)
      | r \<Rightarrow> r)"

text \<open>A row as it is returned; a definition that is not JSON cannot be.\<close>

definition row_to_dict :: "playbook_row \<Rightarrow> playbook_row res" where
  "row_to_dict row = (case pb_definition row of None \<Rightarrow> Inl ValueError | Some _ \<Rightarrow> Inr row)"

definition not_found_404 :: "nat \<Rightarrow> py_exn" where
  "not_found_404 pid = HTTPException 404 (''Playbook '' @ show_nat pid @ '' not found.'')"

text \<open>\<open>_row_to_dict(db.get_playbook(id))\<close>: unpacking \<open>None\<close> raises.\<close>

definition return_playbook :: "env \<Rightarrow> nat \<Rightarrow> playbook_row op" where
  "return_playbook E pid =
     bnd (get_playbook E pid) (\<lambda>row.
     case row of None \<Rightarrow> raise_exn TypeError | Some p \<Rightarrow> lift_res (row_to_dict p))"

section \<open>Playbooks\<close>

fun rows_to_dicts :: "playbook_row list \<Rightarrow> playbook_row list res" where
  "rows_to_dicts [] = Inr []"
| "rows_to_dicts (r # rs) =
     (case row_to_dict r of
        Inl e \<Rightarrow> Inl e
      | Inr x \<Rightarrow> (case rows_to_dicts rs of Inl e \<Rightarrow> Inl e | Inr xs \<Rightarrow> Inr (x # xs)))"

definition list_playbooks :: "env \<Rightarrow> playbook_row list op" where
  "list_playbooks E = bnd (get_all_playbooks E) (\<lambda>rows. lift_res (rows_to_dicts rows))"

definition create_playbook_api :: "env \<Rightarrow> playbook_payload \<Rightarrow> playbook_row op" where
  "create_playbook_api E payload =
     bnd (lift_res (validate_scope (pp_scope_type payload) (pp_scope_value payload))) (\<lambda>scope_value.
     bnd (lift_res (validate_definition_or_400 (JObj (pp_definition payload)))) (\<lambda>d.
     bnd (time_time E) (\<lambda>now.
     bnd (create_playbook E (pp_name payload) (pp_scope_type payload) scope_value (pp_enabled payload) d now) (\<lambda>pid.
     case pid of
       None \<Rightarrow> raise_exn (HTTPException 500 ''Failed to create playbook.'')
     | Some i \<Rightarrow> return_playbook E i))))"

definition get_playbook_api :: "env \<Rightarrow> nat \<Rightarrow> playbook_row op" where
  "get_playbook_api E pid =
     bnd (get_playbook E pid) (\<lambda>row.
     case row of None \<Rightarrow> raise_exn (not_found_404 pid) | Some p \<Rightarrow> lift_res (row_to_dict p))"

definition need_playbook :: "env \<Rightarrow> nat \<Rightarrow> unit op" where
  "need_playbook E pid =
     bnd (get_playbook E pid) (\<lambda>row. case row of None \<Rightarrow> raise_exn (not_found_404 pid) | Some _ \<Rightarrow> ret ())"

definition update_playbook_api :: "env \<Rightarrow> nat \<Rightarrow> playbook_payload \<Rightarrow> playbook_row op" where
  "update_playbook_api E pid payload =
     bnd (need_playbook E pid) (\<lambda>_.
     bnd (lift_res (validate_scope (pp_scope_type payload) (pp_scope_value payload))) (\<lambda>scope_value.
     bnd (lift_res (validate_definition_or_400 (JObj (pp_definition payload)))) (\<lambda>d.
     bnd (time_time E) (\<lambda>now.
     bnd (update_playbook E pid (pp_name payload) (pp_scope_type payload) scope_value (pp_enabled payload) d now) (\<lambda>done.
     if \<not> done then raise_exn (HTTPException 500 ''Failed to update playbook.'') else return_playbook E pid)))))"

definition toggle_playbook :: "env \<Rightarrow> nat \<Rightarrow> dict \<Rightarrow> playbook_row op" where
  "toggle_playbook E pid payload =
     (case map_of payload ''enabled'' of
        Some (JBool enabled) \<Rightarrow>
          bnd (need_playbook E pid) (\<lambda>_.
          bnd (time_time E) (\<lambda>now.
          bnd (set_playbook_enabled E pid enabled now) (\<lambda>done.
          if \<not> done then raise_exn (HTTPException 500 ''Failed to toggle playbook.'') else return_playbook E pid)))
      | _ \<Rightarrow> raise_exn (HTTPException 400 (''Body must be {'' @ [CHR 0x22] @ ''enabled'' @ [CHR 0x22] @ '': true|false}.'')))"

definition delete_playbook_api :: "env \<Rightarrow> nat \<Rightarrow> nat op" where
  "delete_playbook_api E pid =
     bnd (need_playbook E pid) (\<lambda>_.
     bnd (delete_playbook E pid) (\<lambda>done.
     if \<not> done then raise_exn (HTTPException 500 ''Failed to delete playbook.'') else ret pid))"

section \<open>Definitions on their own\<close>

text \<open>The message of the error, or the definition.\<close>

definition validate_definition_only :: "dict \<Rightarrow> (string + json) res" where
  "validate_definition_only payload =
     (case validate_definition (JObj payload) of
        Inl (DefinitionError m) \<Rightarrow> Inr (Inl m)
      | Inl e \<Rightarrow> Inl e
      | Inr d \<Rightarrow> Inr (Inr d))"

definition parse_yaml_definition :: "(json \<Rightarrow> (string + json) res) \<Rightarrow> dict \<Rightarrow> json res" where
  "parse_yaml_definition safe_load payload =
     (case safe_load (dict_get payload ''yaml'' (JStr [])) of
        Inl e \<Rightarrow> Inl e
      | Inr (Inl m) \<Rightarrow> Inl (HTTPException 400 (''Invalid YAML: '' @ m))
      | Inr (Inr parsed) \<Rightarrow>
          (case parsed of
             JObj _ \<Rightarrow> Inr parsed
           | _ \<Rightarrow> Inl (HTTPException 400 ''Top level YAML document must be an object.'')))"

section \<open>History of runs\<close>

definition list_runs :: "env \<Rightarrow> int \<Rightarrow> (playbook_run \<times> string) list op" where
  "list_runs E limit = get_recent_playbook_runs E (nat (max 1 (min limit 200)))"

definition list_run_events :: "env \<Rightarrow> nat \<Rightarrow> playbook_event list op" where
  "list_run_events E rid = get_playbook_events E rid"

section \<open>Reports\<close>

text \<open>What the file system says of a path, and \<open>os.path.join\<close> and \<open>os.path.dirname\<close>.\<close>

record file_system =
  fs_isdir :: "string \<Rightarrow> bool"
  fs_listdir :: "string \<Rightarrow> string list res"
  fs_islink :: "string \<Rightarrow> bool"
  fs_isfile :: "string \<Rightarrow> bool"
  fs_stat :: "string \<Rightarrow> (nat \<times> pyfloat) res"
  fs_realpath :: "string \<Rightarrow> string"

definition path_join :: "string \<Rightarrow> string \<Rightarrow> string" where
  "path_join a b =
     (if take 1 b = ''/'' then b
      else if a = [] \<or> last a = CHR ''/'' then a @ b
      else a @ ''/'' @ b)"

definition path_dirname :: "string \<Rightarrow> string" where
  "path_dirname p =
     (let head = rev (dropWhile (\<lambda>c. c \<noteq> CHR ''/'') (rev p)); stripped = rev (dropWhile (\<lambda>c. c = CHR ''/'') (rev head))
      in if stripped = [] then head else stripped)"

fun report_entries :: "file_system \<Rightarrow> string \<Rightarrow> string list \<Rightarrow> (string \<times> nat \<times> pyfloat) list res" where
  "report_entries F dir [] = Inr []"
| "report_entries F dir (name # names) =
     (let path = path_join dir name
      in if \<not> ends_with name ''.pdf'' \<or> fs_islink F path \<or> \<not> fs_isfile F path then report_entries F dir names
         else case fs_stat F path of
           Inl e \<Rightarrow> Inl e
         | Inr (size_bytes, modified_at) \<Rightarrow>
             (case report_entries F dir names of
                Inl e \<Rightarrow> Inl e
              | Inr es \<Rightarrow> Inr ((name, size_bytes, modified_at) # es)))"

definition list_reports :: "env \<Rightarrow> file_system \<Rightarrow> (string \<times> nat \<times> pyfloat) list res" where
  "list_reports E F =
     (let dir = PLAYBOOK_REPORTS_DIR (e_conf E)
      in if \<not> fs_isdir F dir then Inr []
         else case fs_listdir F dir of
           Inl e \<Rightarrow> Inl e
         | Inr names \<Rightarrow>
             (case report_entries F dir names of
                Inl e \<Rightarrow> Inl e
              | Inr es \<Rightarrow> Inr (py_sorted (\<lambda>(_, _, modified_at). fneg modified_at) es)))"

text \<open>The path of the file that is served.\<close>

definition download_report :: "env \<Rightarrow> file_system \<Rightarrow> string \<Rightarrow> string res" where
  "download_report E F filename =
     (if CHR ''/'' \<in> set filename \<or> CHR 0x5C \<in> set filename \<or> filename \<in> {''.'', ''..''}
      then Inl (HTTPException 400 ''Invalid filename.'')
      else let dir = fs_realpath F (PLAYBOOK_REPORTS_DIR (e_conf E)); path = path_join dir filename
        in if fs_islink F path then Inl (HTTPException 404 ''Report not found.'')
           else let real_path = fs_realpath F path
             in if path_dirname real_path \<noteq> dir \<or> \<not> fs_isfile F real_path then Inl (HTTPException 404 ''Report not found.'')
                else Inr real_path)"

end
