(* ===== verification/Spec2Isabelle.thy ===== *)
theory Spec2Isabelle
  imports Alert_Delivery Receiver_Verdicts Auto_Label_Laws Training_Balance_Laws Auth_Laws Ip_Address_Laws Dashboard_Laws Review_Laws Playbook_Api_Laws
begin

text \<open>
  A verification library for the FLOD system: Stage 1, a sensor written in Rust, sends one feature vector
  per window over a Unix socket to Stage 2, a Python service that classifies the window, enforces blocks
  and rate limits through ipset and iptables, keeps an audit log, raises alerts, runs playbooks, captures
  rows for training and serves a dashboard.
\<close>

end
